(* ===== verification/Prelude.thy ===== *)
theory Prelude
  imports Main "HOL-Library.AList" "HOL-Library.Word"
begin

text \<open>
  What every component shares: Go maps (with their iteration order) behind the interface
  \<open>go_map\<close>, 64-bit \<open>int\<close> arithmetic, the results of a handler (a fault, or the new state
  with the effects it had), and the rule that lifts an invariant of one step to every
  reachable state.
\<close>

named_theorems map_simps \<open>lookup, size and keys of Go maps\<close>
named_theorems run_simps \<open>unfolding of the handler results\<close>

section \<open>Go maps\<close>

text \<open>
  A Go map is an association list with distinct keys: \<open>len\<close> is its length and ranging over
  it visits it in list order. Go does not specify the order, so no theorem may fix it: the
  theorems quantify over all states, and the step relation of the node may permute every
  map between two messages.
\<close>

type_synonym ('k, 'v) gomap = "('k \<times> 'v) list"

definition gget :: "('k, 'v) gomap \<Rightarrow> 'k \<Rightarrow> 'v option" where
  "gget m k = map_of m k"

definition gput :: "'k \<Rightarrow> 'v \<Rightarrow> ('k, 'v) gomap \<Rightarrow> ('k, 'v) gomap" where
  "gput k v m = AList.update k v m"

definition gdel :: "'k \<Rightarrow> ('k, 'v) gomap \<Rightarrow> ('k, 'v) gomap" where
  "gdel k m = AList.delete k m"

definition gkeys :: "('k, 'v) gomap \<Rightarrow> 'k list" where
  "gkeys m = map fst m"

definition gwf :: "('k, 'v) gomap \<Rightarrow> bool" where
  "gwf m \<longleftrightarrow> distinct (map fst m)"

text \<open>The interface of a map that is updated and measured.\<close>

locale go_map =
  fixes lookup :: "'m \<Rightarrow> 'k \<Rightarrow> 'v option"
    and put :: "'k \<Rightarrow> 'v \<Rightarrow> 'm \<Rightarrow> 'm"
    and del :: "'k \<Rightarrow> 'm \<Rightarrow> 'm"
    and size_of :: "'m \<Rightarrow> nat"
    and invar :: "'m \<Rightarrow> bool"
  assumes lookup_put: "lookup (put k v m) k' = (if k' = k then Some v else lookup m k')"
    and lookup_del: "lookup (del k m) k' = (if k' = k then None else lookup m k')"
    and invar_put: "invar m \<Longrightarrow> invar (put k v m)"
    and invar_del: "invar m \<Longrightarrow> invar (del k m)"
    and finite_keys: "finite {k. lookup m k \<noteq> None}"
    and size_card: "invar m \<Longrightarrow> size_of m = card {k. lookup m k \<noteq> None}"
begin

lemma keys_put: "{k'. lookup (put k v m) k' \<noteq> None} = insert k {k'. lookup m k' \<noteq> None}"
  by (auto simp: lookup_put)

lemma keys_del: "{k'. lookup (del k m) k' \<noteq> None} = {k'. lookup m k' \<noteq> None} - {k}"
  by (auto simp: lookup_del)

lemma size_put:
  "invar m \<Longrightarrow> size_of (put k v m) = (if lookup m k = None then Suc (size_of m) else size_of m)"
  by (simp only: size_card invar_put keys_put card_insert_if [OF finite_keys]) simp

lemma size_put_mono: "invar m \<Longrightarrow> size_of m \<le> size_of (put k v m)"
  by (simp add: size_put)

lemma size_del:
  "invar m \<Longrightarrow> size_of (del k m) = (if lookup m k = None then size_of m else size_of m - 1)"
  by (simp only: size_card invar_del keys_del card_Diff_singleton_if) simp

lemma size_bound:
  assumes "invar m" "finite S" "\<And>k v. lookup m k = Some v \<Longrightarrow> k \<in> S"
  shows "size_of m \<le> card S"
proof -
  have "{k. lookup m k \<noteq> None} \<subseteq> S" using assms(3) by blast
  then show ?thesis using assms(1,2) by (simp add: size_card card_mono)
qed

end

lemma keys_gget: "{k. gget m k \<noteq> None} = fst ` set m"
  by (simp add: gget_def map_of_eq_None_iff)

interpretation gm: go_map gget gput gdel length gwf
proof unfold_locales
  fix k v m k'
  show "gget (gput k v m) k' = (if k' = k then Some v else gget m k')"
    by (simp add: gget_def gput_def update_conv')
  show "gget (gdel k m) k' = (if k' = k then None else gget m k')"
    by (simp add: gget_def gdel_def delete_conv')
  show "gwf m \<Longrightarrow> gwf (gput k v m)"
    by (simp add: gwf_def gput_def distinct_update)
  show "gwf m \<Longrightarrow> gwf (gdel k m)"
    by (simp add: gwf_def gdel_def distinct_delete)
  show "finite {k. gget m k \<noteq> None}"
    by (simp only: keys_gget) simp
  show "gwf m \<Longrightarrow> length m = card {k. gget m k \<noteq> None}"
    unfolding keys_gget gwf_def by (metis distinct_card length_map list.set_map)
qed

lemmas gget_gput [simp, map_simps] = gm.lookup_put
lemmas gget_gdel [simp, map_simps] = gm.lookup_del
lemmas gwf_gput [intro, simp] = gm.invar_put
lemmas gwf_gdel [intro, simp] = gm.invar_del

lemma gwf_Nil [simp]: "gwf []"
  by (simp add: gwf_def)

lemma gget_Nil [simp]: "gget [] k = None"
  by (simp add: gget_def)

lemma set_gkeys: "k \<in> set (gkeys m) \<longleftrightarrow> gget m k \<noteq> None"
  by (auto simp: gkeys_def gget_def map_of_eq_None_iff)

lemma gget_in_set: "gget m k = Some v \<Longrightarrow> (k, v) \<in> set m"
  by (simp add: gget_def map_of_SomeD)

lemma in_set_gget: "gwf m \<Longrightarrow> (k, v) \<in> set m \<Longrightarrow> gget m k = Some v"
  by (simp add: gget_def gwf_def)

lemma set_gput_subset: "(k', v') \<in> set (gput k v m) \<Longrightarrow> (k', v') = (k, v) \<or> (k', v') \<in> set m"
  unfolding gput_def by (induction m) (auto split: if_splits)

text \<open>Two association lists are the same map when they differ in order only.\<close>

definition gsame :: "('k, 'v) gomap \<Rightarrow> ('k, 'v) gomap \<Rightarrow> bool" where
  "gsame m m' \<longleftrightarrow> gwf m' \<and> set m' = set m \<and> length m' = length m"

lemma gsame_refl: "gwf m \<Longrightarrow> gsame m m"
  by (simp add: gsame_def)

lemma gsame_gget:
  assumes "gsame m m'" "gwf m"
  shows "gget m' k = gget m k"
proof -
  have "gget m' k = Some v \<longleftrightarrow> gget m k = Some v" for v
    using assms by (simp add: gsame_def gget_def gwf_def)
  then show ?thesis by (metis not_None_eq)
qed

lemma gsame_length: "gsame m m' \<Longrightarrow> length m' = length m"
  by (simp add: gsame_def)

lemma gsame_gwf: "gsame m m' \<Longrightarrow> gwf m'"
  by (simp add: gsame_def)

section \<open>Machine integers\<close>

text \<open>
  Go's \<open>int\<close> has 64 bits on every platform the program is built for. Values are kept as
  HOL integers and every addition whose result can leave the range wraps.
\<close>

type_synonym byte = "8 word"

definition maxInt64 :: int where
  "maxInt64 = 9223372036854775807"

definition wrap64 :: "int \<Rightarrow> int" where
  "wrap64 x = (x + 9223372036854775808) mod 18446744073709551616 - 9223372036854775808"

definition add64 :: "int \<Rightarrow> int \<Rightarrow> int" where
  "add64 a b = wrap64 (a + b)"

definition int64 :: "int \<Rightarrow> bool" where
  "int64 x \<longleftrightarrow> - 9223372036854775808 \<le> x \<and> x \<le> maxInt64"

lemma wrap64_id: "int64 x \<Longrightarrow> wrap64 x = x"
  by (simp add: wrap64_def int64_def maxInt64_def)

lemma int64_wrap64: "int64 (wrap64 x)"
proof -
  have "0 \<le> (x + 9223372036854775808) mod 18446744073709551616"
    and "(x + 9223372036854775808) mod 18446744073709551616 < 18446744073709551616"
    by simp_all
  then show ?thesis unfolding int64_def wrap64_def maxInt64_def by linarith
qed

lemma add64_succ: "int64 x \<Longrightarrow> x < maxInt64 \<Longrightarrow> add64 x 1 = x + 1"
  by (simp add: add64_def wrap64_def int64_def maxInt64_def)

lemma add64_wraps: "add64 maxInt64 1 = - 9223372036854775808"
  by (simp add: add64_def wrap64_def maxInt64_def)

section \<open>Results of a handler\<close>

text \<open>
  A handler either stops the process with a run-time fault or returns the new state with
  the list of its effects (messages sent, values put on a channel), in order. \<open>Fatal\<close> is
  \<open>plog.Fatal\<close>; \<open>Diverges\<close> is a loop that never ends; \<open>NilMap\<close> an assignment to an entry of
  a nil map; \<open>Blocks\<close> is no failure but a send on a channel that is full.
\<close>

datatype fault = NilDeref | IndexOutOfRange | DivideByZero | Fatal | Diverges | NilMap | Blocks

type_synonym ('s, 'e) run = "fault + 's \<times> 'e list"

definition ret :: "'s \<Rightarrow> ('s, 'e) run" where
  "ret s = Inr (s, [])"

definition emit :: "'e list \<Rightarrow> 's \<Rightarrow> ('s, 'e) run" where
  "emit es s = Inr (s, es)"

definition andThen :: "('s, 'e) run \<Rightarrow> ('s \<Rightarrow> ('t, 'e) run) \<Rightarrow> ('t, 'e) run" where
  "andThen r f = (case r of Inl x \<Rightarrow> Inl x
     | Inr (s, es) \<Rightarrow> (case f s of Inl x \<Rightarrow> Inl x | Inr (t, es') \<Rightarrow> Inr (t, es @ es')))"

lemma ret_eq_Inr [simp, run_simps]: "ret s = Inr (t, es) \<longleftrightarrow> s = t \<and> es = []"
  by (auto simp: ret_def)

lemma emit_eq_Inr [simp, run_simps]: "emit es s = Inr (t, es') \<longleftrightarrow> s = t \<and> es = es'"
  by (auto simp: emit_def)

lemma ret_not_Inl [simp, run_simps]: "ret s \<noteq> Inl x" "Inl x \<noteq> ret s"
  by (simp_all add: ret_def)

lemma emit_not_Inl [simp, run_simps]: "emit es s \<noteq> Inl x" "Inl x \<noteq> emit es s"
  by (simp_all add: emit_def)

lemma andThen_Inl [simp, run_simps]: "andThen (Inl x) f = Inl x"
  by (simp add: andThen_def)

lemma andThen_ret [simp, run_simps]: "andThen (ret s) f = f s"
  by (auto simp: andThen_def ret_def split: sum.splits)

lemma andThen_eq_Inr:
  "andThen r f = Inr (t, es) \<longleftrightarrow>
     (\<exists>s es1 es2. r = Inr (s, es1) \<and> f s = Inr (t, es2) \<and> es = es1 @ es2)"
  by (auto simp: andThen_def split: sum.splits prod.splits)

lemma andThen_eq_Inl:
  "andThen r f = Inl x \<longleftrightarrow> r = Inl x \<or> (\<exists>s es. r = Inr (s, es) \<and> f s = Inl x)"
  by (auto simp: andThen_def split: sum.splits prod.splits)

text \<open>\<open>holds P r\<close>: whatever the handler returns (if it returns) satisfies \<open>P\<close>.\<close>

definition holds :: "('s \<Rightarrow> 'e list \<Rightarrow> bool) \<Rightarrow> ('s, 'e) run \<Rightarrow> bool" where
  "holds P r \<longleftrightarrow> (case r of Inl _ \<Rightarrow> True | Inr (s, es) \<Rightarrow> P s es)"

lemma holds_simps [simp, run_simps]:
  "holds P (Inl x)" "holds P (Inr (s, es)) \<longleftrightarrow> P s es"
  "holds P (ret s) \<longleftrightarrow> P s []" "holds P (emit es s) \<longleftrightarrow> P s es"
  by (simp_all add: holds_def ret_def emit_def)

lemma holdsI: "(\<And>s es. r = Inr (s, es) \<Longrightarrow> P s es) \<Longrightarrow> holds P r"
  by (auto simp: holds_def split: sum.splits prod.splits)

lemma holdsD: "holds P r \<Longrightarrow> r = Inr (s, es) \<Longrightarrow> P s es"
  by (simp add: holds_def)

lemma holds_andThen:
  "holds (\<lambda>s es. holds (\<lambda>t es'. P t (es @ es')) (f s)) r \<Longrightarrow> holds P (andThen r f)"
  by (auto simp: holds_def andThen_def split: sum.splits prod.splits)

lemma holds_andThenI:
  assumes "holds P r" "\<And>s. holds (Q s) (f s)" "\<And>s es t es'. P s es \<Longrightarrow> Q s t es' \<Longrightarrow> R t (es @ es')"
  shows "holds R (andThen r f)"
proof (rule holds_andThen, rule holdsI, rule holdsI)
  fix s es t es' assume "r = Inr (s, es)" "f s = Inr (t, es')"
  with assms(1) assms(2) [of s] have "P s es" "Q s t es'" by simp_all
  then show "R t (es @ es')" by (rule assms(3))
qed

section \<open>Relations between the states before and after a handler\<close>

text \<open>
  A relation that is reflexive and transitive holds for a handler when it holds for each of the
  operations the handler consists of.
\<close>

locale run_preorder =
  fixes R :: "'s \<Rightarrow> 's \<Rightarrow> bool"
  assumes refl: "R s s"
    and trans: "R s t \<Longrightarrow> R t u \<Longrightarrow> R s u"
begin

lemma holds_trans: "R s t \<Longrightarrow> holds (\<lambda>u es. R t u) r \<Longrightarrow> holds (\<lambda>u es. R s u) r"
  by (auto simp: holds_def intro: trans split: sum.splits)

lemma holds_compose:
  assumes "holds (\<lambda>t es. R s t) r" "\<And>t. holds (\<lambda>u es. R t u) (f t)"
  shows "holds (\<lambda>u es. R s u) (andThen r f)"
  by (rule holds_andThenI [where P = "\<lambda>t es. R s t" and Q = "\<lambda>t u es. R t u"]) (use assms in \<open>auto intro: trans\<close>)

lemma steps: "step\<^sup>*\<^sup>* s t \<Longrightarrow> (\<And>s t. step s t \<Longrightarrow> R s t) \<Longrightarrow> R s t"
  by (induction rule: rtranclp_induct) (auto intro: refl trans)

end

section \<open>Invariants of a step relation\<close>

locale step_invariant =
  fixes init :: "'s \<Rightarrow> bool" and step :: "'s \<Rightarrow> 's \<Rightarrow> bool" and I :: "'s \<Rightarrow> bool"
  assumes base: "init s \<Longrightarrow> I s"
    and keep: "step s t \<Longrightarrow> I s \<Longrightarrow> I t"
begin

lemma run: "step\<^sup>*\<^sup>* s t \<Longrightarrow> I s \<Longrightarrow> I t"
  by (induction rule: rtranclp_induct) (auto intro: keep)

lemma reachable: "init s \<Longrightarrow> step\<^sup>*\<^sup>* s t \<Longrightarrow> I t"
  by (blast intro: run base)

end

end
