(* ===== verification/Sha256.thy ===== *)
theory Sha256
  imports Prelude
begin

unbundle bit_operations_syntax

text \<open>
  The part of Go's package \<open>crypto/sha256\<close> that the program calls: \<open>sha256.Sum256\<close>
  on a byte slice (FIPS 180-4). It is used by \<open>hash\<close> (src/pbft/common.go), which picks
  the leader of a view, and by \<open>GenerateDigest\<close> (src/distributepki/util/shared.go),
  which names a client request. The definitions are executable, so the leader of a
  concrete view of a concrete cluster is computed by the simplifier.
\<close>


type_synonym word32 = "32 word"

definition rotr32 :: "nat \<Rightarrow> word32 \<Rightarrow> word32" where
  "rotr32 k x = (drop_bit k x) OR (push_bit (32 - k) x)"

definition sha_Ch :: "word32 \<Rightarrow> word32 \<Rightarrow> word32 \<Rightarrow> word32" where
  "sha_Ch x y z = (x AND y) XOR ((NOT x) AND z)"

definition sha_Maj :: "word32 \<Rightarrow> word32 \<Rightarrow> word32 \<Rightarrow> word32" where
  "sha_Maj x y z = (x AND y) XOR (x AND z) XOR (y AND z)"

definition sha_S0 :: "word32 \<Rightarrow> word32" where
  "sha_S0 x = rotr32 2 x XOR rotr32 13 x XOR rotr32 22 x"

definition sha_S1 :: "word32 \<Rightarrow> word32" where
  "sha_S1 x = rotr32 6 x XOR rotr32 11 x XOR rotr32 25 x"

definition sha_s0 :: "word32 \<Rightarrow> word32" where
  "sha_s0 x = rotr32 7 x XOR rotr32 18 x XOR drop_bit 3 x"

definition sha_s1 :: "word32 \<Rightarrow> word32" where
  "sha_s1 x = rotr32 17 x XOR rotr32 19 x XOR drop_bit 10 x"

text \<open>The round constants, in decimal: the fractional parts of the cube roots of the first 64 primes.\<close>

definition sha_K :: "word32 list" where
  "sha_K = [
    1116352408, 1899447441, 3049323471, 3921009573, 961987163, 1508970993, 2453635748,
    2870763221, 3624381080, 310598401, 607225278, 1426881987, 1925078388, 2162078206,
    2614888103, 3248222580, 3835390401, 4022224774, 264347078, 604807628, 770255983,
    1249150122, 1555081692, 1996064986, 2554220882, 2821834349, 2952996808, 3210313671,
    3336571891, 3584528711, 113926993, 338241895, 666307205, 773529912, 1294757372,
    1396182291, 1695183700, 1986661051, 2177026350, 2456956037, 2730485921, 2820302411,
    3259730800, 3345764771, 3516065817, 3600352804, 4094571909, 275423344, 430227734,
    506948616, 659060556, 883997877, 958139571, 1322822218, 1537002063, 1747873779,
    1955562222, 2024104815, 2227730452, 2361852424, 2428436474, 2756734187, 3204031479,
    3329325298]"

datatype sha_state = Sha word32 word32 word32 word32 word32 word32 word32 word32

definition sha_init :: sha_state where
  "sha_init = Sha 1779033703 3144134277 1013904242 2773480762 1359893119 2600822924 528734635 1541459225"

fun sha_round :: "sha_state \<Rightarrow> word32 \<Rightarrow> word32 \<Rightarrow> sha_state" where
  "sha_round (Sha a b c d e f g h) k w =
     (let t1 = h + sha_S1 e + sha_Ch e f g + k + w;
          t2 = sha_S0 a + sha_Maj a b c
      in Sha (t1 + t2) a b c (d + t1) e f g)"

fun sha_rounds :: "sha_state \<Rightarrow> word32 list \<Rightarrow> word32 list \<Rightarrow> sha_state" where
  "sha_rounds s (k # ks) (w # ws) = sha_rounds (sha_round s k w) ks ws"
| "sha_rounds s _ _ = s"

fun sha_add :: "sha_state \<Rightarrow> sha_state \<Rightarrow> sha_state" where
  "sha_add (Sha a b c d e f g h) (Sha a' b' c' d' e' f' g' h') =
     Sha (a + a') (b + b') (c + c') (d + d') (e + e') (f + f') (g + g') (h + h')"

text \<open>
  The message schedule. \<open>sha_sched n ws\<close> emits \<open>n\<close> words; \<open>ws\<close> is the window of the
  sixteen latest ones, oldest first.
\<close>

fun sha_sched :: "nat \<Rightarrow> word32 list \<Rightarrow> word32 list" where
  "sha_sched 0 _ = []"
| "sha_sched (Suc n) ws =
     (case ws of
        [] \<Rightarrow> []
      | w # rest \<Rightarrow>
          let w' = sha_s1 (ws ! 14) + ws ! 9 + sha_s0 (ws ! 1) + w
          in w # sha_sched n (rest @ [w']))"

fun be_words :: "byte list \<Rightarrow> word32 list" where
  "be_words (a # b # c # d # rest) =
     (push_bit 24 (ucast a) OR push_bit 16 (ucast b) OR push_bit 8 (ucast c) OR ucast d) # be_words rest"
| "be_words _ = []"

definition sha_block :: "sha_state \<Rightarrow> byte list \<Rightarrow> sha_state" where
  "sha_block s blk = sha_add s (sha_rounds s sha_K (sha_sched 64 (be_words blk)))"

function sha_blocks :: "sha_state \<Rightarrow> byte list \<Rightarrow> sha_state" where
  "sha_blocks s bs = (if bs = [] then s else sha_blocks (sha_block s (take 64 bs)) (drop 64 bs))"
  by pat_completeness auto
termination by (relation "measure (\<lambda>(s, bs). length bs)") auto

declare sha_blocks.simps [simp del]

definition be_bytes64 :: "64 word \<Rightarrow> byte list" where
  "be_bytes64 x = map (\<lambda>i. ucast (drop_bit i x)) [56, 48, 40, 32, 24, 16, 8, 0]"

definition sha_pad :: "byte list \<Rightarrow> byte list" where
  "sha_pad bs = bs @ [0x80] @ replicate ((119 - length bs mod 64) mod 64) 0
     @ be_bytes64 (push_bit 3 (word_of_nat (length bs)))"

definition be_bytes32 :: "word32 \<Rightarrow> byte list" where
  "be_bytes32 w = [ucast (drop_bit 24 w), ucast (drop_bit 16 w), ucast (drop_bit 8 w), ucast w]"

fun sha_out :: "sha_state \<Rightarrow> byte list" where
  "sha_out (Sha a b c d e f g h) =
     be_bytes32 a @ be_bytes32 b @ be_bytes32 c @ be_bytes32 d @
     be_bytes32 e @ be_bytes32 f @ be_bytes32 g @ be_bytes32 h"

definition Sum256 :: "byte list \<Rightarrow> byte list" where
  "Sum256 bs = sha_out (sha_blocks sha_init (sha_pad bs))"

lemma length_Sum256 [simp]: "length (Sum256 bs) = 32"
  by (cases "sha_blocks sha_init (sha_pad bs)") (simp add: Sum256_def be_bytes32_def)

end
