(* ===== verification/Json.thy ===== *)
theory Json
  imports Prelude
begin

text \<open>
  What the program uses of Go's \<open>encoding/json\<close>, \<open>strconv\<close>, \<open>strings\<close> and of the
  conversion \<open>string(k)\<close> of an integer. A Go string and the text of a document are HOL
  strings (a character is a byte). The encoder writes decimal integers, escapes strings the
  way \<open>encoding/json\<close> does (HTML-safe, invalid UTF-8 replaced), writes a byte slice in
  base64 and a byte array as a list of numbers, and sorts the keys of a map.
  A nil slice or map is not distinguished from an empty one.
\<close>

section \<open>Decimal integers\<close>

fun show_nat :: "nat \<Rightarrow> string" where
  "show_nat n = (if n < 10 then [char_of (48 + n)] else show_nat (n div 10) @ [char_of (48 + n mod 10)])"

declare show_nat.simps [simp del]

definition show_int :: "int \<Rightarrow> string" where
  "show_int i = (if i < 0 then ''-'' @ show_nat (nat (- i)) else show_nat (nat i))"

definition digit_of :: "char \<Rightarrow> nat option" where
  "digit_of c = (if 48 \<le> (of_char c :: nat) \<and> (of_char c :: nat) \<le> 57 then Some (of_char c - 48) else None)"

fun read_digits :: "nat \<Rightarrow> string \<Rightarrow> nat option" where
  "read_digits acc [] = Some acc"
| "read_digits acc (c # cs) =
     (case digit_of c of None \<Rightarrow> None | Some d \<Rightarrow> read_digits (10 * acc + d) cs)"

text \<open>\<open>strconv.Atoi\<close>: an optional sign, at least one digit, the value within \<open>int\<close>.\<close>

definition Atoi :: "string \<Rightarrow> int option" where
  "Atoi s =
     (let neg = (take 1 s = ''-''); body = (if take 1 s = ''-'' \<or> take 1 s = ''+'' then drop 1 s else s)
      in if body = [] then None
         else case read_digits 0 body of
             None \<Rightarrow> None
           | Some n \<Rightarrow> let i = (if neg then - int n else int n) in if int64 i then Some i else None)"

text \<open>\<open>strings.Split(s, ":")\<close>.\<close>

fun split_colon :: "string \<Rightarrow> string list" where
  "split_colon [] = [[]]"
| "split_colon (c # cs) =
     (if c = CHR '':'' then [] # split_colon cs
      else case split_colon cs of [] \<Rightarrow> [[c]] | w # ws \<Rightarrow> (c # w) # ws)"

section \<open>Runes\<close>

text \<open>\<open>string(k)\<close> for an integer \<open>k\<close>: the UTF-8 bytes of the code point, of U+FFFD when \<open>k\<close> is none.\<close>

definition encode_rune :: "int \<Rightarrow> string" where
  "encode_rune k =
     (let r = (if k < 0 \<or> k > 1114111 \<or> (55296 \<le> k \<and> k \<le> 57343) then 65533 else nat k)
      in if r < 128 then [char_of r]
         else if r < 2048 then [char_of (192 + r div 64), char_of (128 + r mod 64)]
         else if r < 65536 then
           [char_of (224 + r div 4096), char_of (128 + r div 64 mod 64), char_of (128 + r mod 64)]
         else
           [char_of (240 + r div 262144), char_of (128 + r div 4096 mod 64),
            char_of (128 + r div 64 mod 64), char_of (128 + r mod 64)])"

text \<open>The size of the valid UTF-8 sequence a string starts with; 0 if it starts with none.\<close>

definition cont_byte :: "nat \<Rightarrow> bool" where
  "cont_byte b \<longleftrightarrow> 128 \<le> b \<and> b \<le> 191"

fun utf8_size :: "nat list \<Rightarrow> nat" where
  "utf8_size [] = 0"
| "utf8_size (b # bs) =
     (if b < 128 then 1
      else if 194 \<le> b \<and> b \<le> 223 then
        (case bs of c # _ \<Rightarrow> if cont_byte c then 2 else 0 | _ \<Rightarrow> 0)
      else if 224 \<le> b \<and> b \<le> 239 then
        (case bs of c # d # _ \<Rightarrow>
           if cont_byte c \<and> cont_byte d \<and> (b = 224 \<longrightarrow> 160 \<le> c) \<and> (b = 237 \<longrightarrow> c \<le> 159) then 3 else 0
         | _ \<Rightarrow> 0)
      else if 240 \<le> b \<and> b \<le> 244 then
        (case bs of c # d # e # _ \<Rightarrow>
           if cont_byte c \<and> cont_byte d \<and> cont_byte e \<and> (b = 240 \<longrightarrow> 144 \<le> c) \<and> (b = 244 \<longrightarrow> c \<le> 143)
           then 4 else 0
         | _ \<Rightarrow> 0)
      else 0)"

definition bytes_nat :: "string \<Rightarrow> nat list" where
  "bytes_nat s = map of_char s"

section \<open>Strings and base64\<close>

definition hex_digit :: "nat \<Rightarrow> char" where
  "hex_digit d = (if d < 10 then char_of (48 + d) else char_of (87 + d))"

definition escape_ascii :: "char \<Rightarrow> string" where
  "escape_ascii c =
     (let b = of_char c :: nat
      in if b = 34 \<or> b = 92 then [char_of (92 :: nat), c]
         else if b = 10 then [char_of (92 :: nat), CHR ''n'']
         else if b = 13 then [char_of (92 :: nat), CHR ''r'']
         else if b = 9 then [char_of (92 :: nat), CHR ''t'']
         else if b < 32 \<or> b = 60 \<or> b = 62 \<or> b = 38 then
           char_of (92 :: nat) # ''u00'' @ [hex_digit (b div 16), hex_digit (b mod 16)]
         else [c])"

definition escape_rune :: "string \<Rightarrow> string" where
  "escape_rune s =
     (if bytes_nat s = [226, 128, 168] then char_of (92 :: nat) # ''u2028''
      else if bytes_nat s = [226, 128, 169] then char_of (92 :: nat) # ''u2029''
      else s)"

function escape_string :: "string \<Rightarrow> string" where
  "escape_string s =
     (if s = [] then []
      else let n = utf8_size (bytes_nat s)
           in if n = 0 then (char_of (92 :: nat) # ''ufffd'') @ escape_string (drop 1 s)
              else if n = 1 then escape_ascii (hd s) @ escape_string (drop 1 s)
              else escape_rune (take n s) @ escape_string (drop n s))"
  by pat_completeness auto
termination by (relation "measure length") auto

declare escape_string.simps [simp del]

definition quote_string :: "string \<Rightarrow> string" where
  "quote_string s = [char_of (34 :: nat)] @ escape_string s @ [char_of (34 :: nat)]"

definition b64_char :: "nat \<Rightarrow> char" where
  "b64_char d =
     (if d < 26 then char_of (65 + d) else if d < 52 then char_of (71 + d)
      else if d < 62 then char_of (d - 4) else if d = 62 then CHR ''+'' else CHR ''/'')"

fun base64 :: "nat list \<Rightarrow> string" where
  "base64 [] = []"
| "base64 [a] = [b64_char (a div 4), b64_char (a mod 4 * 16), CHR ''='', CHR ''='']"
| "base64 [a, b] =
     [b64_char (a div 4), b64_char (a mod 4 * 16 + b div 16), b64_char (b mod 16 * 4), CHR ''='']"
| "base64 (a # b # c # rest) =
     [b64_char (a div 4), b64_char (a mod 4 * 16 + b div 16),
      b64_char (b mod 16 * 4 + c div 64), b64_char (c mod 64)] @ base64 rest"

section \<open>Documents\<close>

datatype json =
    JNull
  | JInt int
  | JStr string
  | JBytes "byte list"
  | JArr "json list"
  | JObj "(string \<times> json) list"

fun join_with :: "string \<Rightarrow> string list \<Rightarrow> string" where
  "join_with sep [] = []"
| "join_with sep [x] = x"
| "join_with sep (x # y # ys) = x @ sep @ join_with sep (y # ys)"

fun render :: "json \<Rightarrow> string" where
  "render JNull = ''null''"
| "render (JInt i) = show_int i"
| "render (JStr s) = quote_string s"
| "render (JBytes bs) = [char_of (34 :: nat)] @ base64 (map unat bs) @ [char_of (34 :: nat)]"
| "render (JArr xs) = ''['' @ join_with '','' (map render xs) @ '']''"
| "render (JObj kvs) =
     ''{'' @ join_with '','' (map (\<lambda>(k, v). quote_string k @ '':'' @ render v) kvs) @ ''}''"

text \<open>
  \<open>json.NewEncoder(&buf).Encode(v)\<close> writes the document and a newline; \<open>json.Marshal(v)\<close>
  the document alone. Both never fail on the values the program encodes.
\<close>

definition bytes_of :: "string \<Rightarrow> byte list" where
  "bytes_of s = map (\<lambda>c. word_of_nat (of_char c)) s"

definition json_Encode :: "json \<Rightarrow> byte list" where
  "json_Encode j = bytes_of (render j @ [char_of (10 :: nat)])"

definition json_Marshal :: "json \<Rightarrow> byte list" where
  "json_Marshal j = bytes_of (render j)"

text \<open>The keys of a map are written in the order of their bytes.\<close>

fun bytes_le :: "nat list \<Rightarrow> nat list \<Rightarrow> bool" where
  "bytes_le [] _ = True"
| "bytes_le (_ # _) [] = False"
| "bytes_le (a # as) (b # bs) = (a < b \<or> a = b \<and> bytes_le as bs)"

fun insert_key :: "string \<times> json \<Rightarrow> (string \<times> json) list \<Rightarrow> (string \<times> json) list" where
  "insert_key kv [] = [kv]"
| "insert_key kv (kv' # rest) =
     (if bytes_le (bytes_nat (fst kv)) (bytes_nat (fst kv')) then kv # kv' # rest
      else kv' # insert_key kv rest)"

definition json_map :: "(string \<times> json) list \<Rightarrow> json" where
  "json_map kvs = JObj (foldr insert_key kvs [])"

text \<open>A fixed-size byte array is a list of numbers.\<close>

definition json_array :: "byte list \<Rightarrow> json" where
  "json_array bs = JArr (map (\<lambda>b. JInt (uint b)) bs)"

lemma length_bytes_of [simp]: "length (bytes_of s) = length s"
  by (simp add: bytes_of_def)

lemma bytes_of_eq [simp]: "bytes_of s = bytes_of t \<longleftrightarrow> s = t"
proof
  have nat_id: "unat (word_of_nat (of_char c) :: byte) = of_char c" for c :: char
    using nat_of_char_less_256 [of c] by (simp add: unat_of_nat)
  assume "bytes_of s = bytes_of t"
  then have "map unat (bytes_of s) = map unat (bytes_of t)" by simp
  then have "map of_char s = (map of_char t :: nat list)"
    by (simp add: bytes_of_def nat_id cong: map_cong)
  then show "s = t" by (metis inj_map_eq_map inj_of_char)
qed simp

lemma json_Encode_eq [simp]: "json_Encode j = json_Encode j' \<longleftrightarrow> render j = render j'"
  by (simp add: json_Encode_def)

section \<open>Decimal numbers are read back\<close>

lemma digit_of_char: "d < 10 \<Longrightarrow> digit_of (char_of (48 + d)) = Some d"
  by (simp add: digit_of_def)

lemma read_digits_append: "read_digits acc (xs @ ys) = (case read_digits acc xs of None \<Rightarrow> None | Some a \<Rightarrow> read_digits a ys)"
  by (induction acc xs rule: read_digits.induct) (auto split: option.splits)

lemma read_digits_show_nat: "read_digits 0 (show_nat n) = Some n"
proof (induction n rule: show_nat.induct)
  case (1 n)
  show ?case
  proof (cases "n < 10")
    case False
    with 1 have "read_digits 0 (show_nat (n div 10)) = Some (n div 10)" by simp
    with False show ?thesis
      by (simp add: show_nat.simps [of n] read_digits_append digit_of_char)
  qed (simp add: show_nat.simps [of n] digit_of_char)
qed

lemma show_nat_first: "\<exists>c cs. show_nat n = c # cs \<and> digit_of c \<noteq> None"
proof (induction n rule: show_nat.induct)
  case (1 n)
  then show ?case
    by (cases "n < 10") (auto simp: show_nat.simps [of n] digit_of_char)
qed

lemma sign_no_digit: "digit_of (CHR ''-'') = None" "digit_of (CHR ''+'') = None"
  by (simp_all add: digit_of_def)

lemma Atoi_show_int:
  assumes "int64 i"
  shows "Atoi (show_int i) = Some i"
proof (cases "i < 0")
  case True
  then have "show_nat (nat (- i)) \<noteq> []" using show_nat_first [of "nat (- i)"] by auto
  with True assms show ?thesis
    by (simp add: Atoi_def show_int_def Let_def read_digits_show_nat)
next
  case False
  obtain c cs where s: "show_nat (nat i) = c # cs" and c: "digit_of c \<noteq> None" using show_nat_first by blast
  then have "c \<noteq> CHR ''-''" "c \<noteq> CHR ''+''" using sign_no_digit by auto
  with False assms s read_digits_show_nat [of "nat i"] show ?thesis
    by (simp add: Atoi_def show_int_def Let_def)
qed

lemma show_nat_inject [simp]: "show_nat m = show_nat n \<longleftrightarrow> m = n"
  by (metis read_digits_show_nat option.inject)

lemma show_nat_no_sign: "show_nat n \<noteq> CHR ''-'' # s"
  using show_nat_first [of n] sign_no_digit by auto

lemma show_int_inject [simp]: "show_int i = show_int j \<longleftrightarrow> i = j"
  using show_nat_no_sign by (auto simp: show_int_def dest: sym)

end
