(* ===== verification/Common.thy ===== *)
theory Common
  imports Sha256 Json "HOL-Library.Char_ord" "HOL-Library.List_Lexorder"
begin

text \<open>
  src/pbft/common.go and \<open>GenerateDigest\<close>: node and slot identifiers with their order, the
  cluster configuration and the deterministic choice of the leader of a view.
\<close>

type_synonym NodeId = nat

section \<open>Slots are ordered by view, then by sequence number\<close>

datatype SlotId = SlotId (ViewNumber: int) (SeqNumber: int)

definition Before :: "SlotId \<Rightarrow> SlotId \<Rightarrow> bool" where
  "Before slot other =
     (if ViewNumber slot = ViewNumber other then SeqNumber slot < SeqNumber other
      else ViewNumber slot < ViewNumber other)"

definition BeforeOrEqual :: "SlotId \<Rightarrow> SlotId \<Rightarrow> bool" where
  "BeforeOrEqual slot other =
     (if ViewNumber slot = ViewNumber other then SeqNumber slot \<le> SeqNumber other
      else ViewNumber slot \<le> ViewNumber other)"

instantiation SlotId :: linorder
begin

definition less_SlotId :: "SlotId \<Rightarrow> SlotId \<Rightarrow> bool" where
  "less_SlotId a b = Before a b"

definition less_eq_SlotId :: "SlotId \<Rightarrow> SlotId \<Rightarrow> bool" where
  "less_eq_SlotId a b = BeforeOrEqual a b"

instance
  by standard
    (auto simp: less_SlotId_def less_eq_SlotId_def Before_def BeforeOrEqual_def
      split: if_splits intro: SlotId.expand)

end

lemma Before_less: "Before a b \<longleftrightarrow> a < b"
  by (simp add: less_SlotId_def)

lemma BeforeOrEqual_le: "BeforeOrEqual a b \<longleftrightarrow> a \<le> b"
  by (simp add: less_eq_SlotId_def)

section \<open>Cluster configuration\<close>

record NodeConfig =
  cfg_ClientPort :: int
  cfg_Host :: string
  cfg_Id :: NodeId
  cfg_Port :: int
  cfg_PrivateKeyFile :: string
  cfg_PublicKeyFile :: string
  cfg_PassPhraseFile :: string

record ClusterConfig =
  Nodes :: "NodeConfig list"
  AuthorityKeyFile :: string
  Endpoint :: string

text \<open>\<open>binary.LittleEndian\<close>: the first four bytes as a word, and a word as four bytes.\<close>

definition le_uint32 :: "byte list \<Rightarrow> 32 word" where
  "le_uint32 bs = (case bs of
       a # b # c # d # _ \<Rightarrow> word_of_nat (unat a + 256 * unat b + 65536 * unat c + 16777216 * unat d)
     | _ \<Rightarrow> 0)"

definition put_uint32 :: "32 word \<Rightarrow> byte list" where
  "put_uint32 w = map (\<lambda>i. word_of_nat (unat w div 256 ^ i)) [0, 1, 2, 3]"

definition hash :: "byte list \<Rightarrow> 32 word" where
  "hash data = le_uint32 (Sum256 data)"

text \<open>
  \<open>LeaderFor\<close>: the division is on \<open>uint32\<close> and stops the process when the (truncated) number
  of nodes is 0. The index is always in range.
\<close>

definition LeaderFor :: "ClusterConfig \<Rightarrow> int \<Rightarrow> fault + NodeId" where
  "LeaderFor c viewNumber =
     (let buf = put_uint32 (word_of_int viewNumber);
          len = (word_of_nat (length (Nodes c)) :: 32 word)
      in if len = 0 then Inl DivideByZero
         else Inr (cfg_Id (Nodes c ! (unat (hash buf) mod unat len))))"

definition GenerateDigest :: "string \<Rightarrow> byte list" where
  "GenerateDigest s = Sum256 (bytes_of s)"

text \<open>\<open>[sha256.Size]byte{}\<close>\<close>

definition zeroDigest :: "byte list" where
  "zeroDigest = replicate 32 0"

definition GetHostname :: "string \<Rightarrow> int \<Rightarrow> string" where
  "GetHostname host port = host @ '':'' @ show_int port"

section \<open>The leader of a view\<close>

lemma leader_index: "(word_of_nat (length xs) :: 32 word) \<noteq> 0 \<Longrightarrow>
    k mod unat (word_of_nat (length xs) :: 32 word) < length xs"
proof -
  assume "(word_of_nat (length xs) :: 32 word) \<noteq> 0"
  then have "0 < unat (word_of_nat (length xs) :: 32 word)"
    by (simp add: unat_gt_0)
  moreover have "unat (word_of_nat (length xs) :: 32 word) \<le> length xs"
    by (simp add: unat_of_nat)
  ultimately show ?thesis
    by (meson mod_less_divisor order_less_le_trans)
qed

lemma LeaderFor_member: "LeaderFor c v = Inr i \<Longrightarrow> i \<in> cfg_Id ` set (Nodes c)"
  by (auto simp: LeaderFor_def Let_def leader_index split: if_splits)

lemma LeaderFor_total:
  assumes "Nodes c \<noteq> []" "length (Nodes c) < 2 ^ 32"
  shows "\<exists>i. LeaderFor c v = Inr i"
proof -
  have "(word_of_nat (length (Nodes c)) :: 32 word) \<noteq> 0"
  proof
    assume "(word_of_nat (length (Nodes c)) :: 32 word) = 0"
    then have "unat (word_of_nat (length (Nodes c)) :: 32 word) = 0" by simp
    with assms show False by (simp add: unat_of_nat)
  qed
  then show ?thesis by (simp add: LeaderFor_def Let_def)
qed

lemma LeaderFor_defined_indep:
  "LeaderFor c v = Inr i \<Longrightarrow> \<exists>j. LeaderFor c w = Inr j"
  by (auto simp: LeaderFor_def Let_def split: if_splits)

lemma length_GenerateDigest [simp]: "length (GenerateDigest s) = 32"
  by (simp add: GenerateDigest_def)

section \<open>White space\<close>

text \<open>\<open>unicode.IsSpace\<close> on the UTF-8 encoding of one character.\<close>

definition is_space :: "nat list \<Rightarrow> bool" where
  "is_space bs \<longleftrightarrow>
     bs \<in> {[9], [10], [11], [12], [13], [32], [194, 133], [194, 160], [225, 154, 128], [226, 128, 168], [226, 128, 169],
       [226, 128, 175], [226, 129, 159], [227, 128, 128]} \<or> bs \<in> (\<lambda>d. [226, 128, d]) ` set [128..<139]"

text \<open>The length of the white space a text starts with, or ends with (0 if there is none).\<close>

definition space_size :: "nat list \<Rightarrow> nat" where
  "space_size bs =
     (if is_space (take 1 bs) then 1 else if is_space (take 2 bs) then 2 else if is_space (take 3 bs) then 3 else 0)"

definition space_size_end :: "nat list \<Rightarrow> nat" where
  "space_size_end bs =
     (if is_space (rev (take 1 (rev bs))) then 1 else if is_space (rev (take 2 (rev bs))) then 2
      else if is_space (rev (take 3 (rev bs))) then 3 else 0)"

lemma space_size_nonempty:
  "0 < space_size (map f s) \<Longrightarrow> s \<noteq> []" "0 < space_size_end (map f s) \<Longrightarrow> s \<noteq> []"
  by (auto simp: space_size_def space_size_end_def is_space_def)

text \<open>\<open>strings.TrimSpace\<close>.\<close>

function trim_left :: "string \<Rightarrow> string" where
  "trim_left s = (let n = space_size (bytes_nat s) in if n = 0 then s else trim_left (drop n s))"
  by pat_completeness auto
termination
  by (relation "measure length") (auto simp: bytes_nat_def intro!: diff_less dest: space_size_nonempty)

function trim_right :: "string \<Rightarrow> string" where
  "trim_right s = (let n = space_size_end (bytes_nat s) in if n = 0 then s else trim_right (take (length s - n) s))"
  by pat_completeness auto
termination
  by (relation "measure length") (auto simp: bytes_nat_def intro!: diff_less dest: space_size_nonempty)

declare trim_left.simps [simp del] trim_right.simps [simp del]

definition TrimSpace :: "string \<Rightarrow> string" where
  "TrimSpace s = trim_right (trim_left s)"

end
