(* ===== verification/Messages.thy ===== *)
theory Messages
  imports Common
begin

text \<open>
  src/pbft/messages.go: the protocol messages, the JSON document each of them is encoded as
  before it is signed, and the hand-written (un)marshalling of the four maps that are keyed
  by a node or a slot. A field keeps its Go name behind a short prefix that names its struct.
\<close>

section \<open>Messages\<close>

record PrePrepare =
  pp_Number :: SlotId
  pp_RequestDigest :: "byte list"

record SignedPrePrepare =
  spp_PrePrepareMessage :: PrePrepare
  spp_Signature :: "byte list"

record FullPrePrepare =
  fpp_SignedMessage :: SignedPrePrepare
  fpp_Request :: string

record PPResponse =
  ppr_SeqNumber :: int

record SignedPPResponse =
  sppr_Response :: PPResponse
  sppr_Signature :: "byte list"

record Prepare =
  p_Number :: SlotId
  p_RequestDigest :: "byte list"
  p_Node :: NodeId

record SignedPrepare =
  sp_PrepareMessage :: Prepare
  sp_Signature :: "byte list"

record Commit =
  c_Number :: SlotId
  c_RequestDigest :: "byte list"
  c_Node :: NodeId

record SignedCommit =
  sc_CommitMessage :: Commit
  sc_Signature :: "byte list"

record Checkpoint =
  ck_Number :: SlotId
  ck_Snapshot :: "byte list"
  ck_Node :: NodeId

record SignedCheckpoint =
  sck_CheckpointMessage :: Checkpoint
  sck_Signature :: "byte list"

record CheckpointProof =
  cp_Number :: SlotId
  cp_Snapshot :: "byte list"
  cp_Proof :: "(NodeId, SignedCheckpoint) gomap"

record CheckpointProofMessage =
  cpm_Proof :: CheckpointProof
  cpm_Node :: NodeId

record SignedCheckpointProof =
  scp_Message :: CheckpointProofMessage
  scp_Signature :: "byte list"

record PreparedProof =
  pr_Number :: SlotId
  pr_Request :: string
  pr_Preprepare :: SignedPrePrepare
  pr_RequestDigest :: "byte list"
  pr_Prepares :: "(NodeId, SignedPrepare) gomap"

type_synonym CheckpointProofMap = "(NodeId, SignedCheckpoint) gomap"
type_synonym PreparedProofMap = "(SlotId, PreparedProof) gomap"

record ViewChange =
  vc_ViewNumber :: int
  vc_Checkpoint :: SlotId
  vc_CheckpointProof :: CheckpointProofMap
  vc_Proofs :: PreparedProofMap
  vc_Node :: NodeId

record SignedViewChange =
  svc_Message :: ViewChange
  svc_Signature :: "byte list"

type_synonym NewViewPrePrepareMap = "(SlotId, FullPrePrepare) gomap"
type_synonym NewViewViewChangeMap = "(NodeId, SignedViewChange) gomap"

record NewView =
  nv_ViewNumber :: int
  nv_ViewChanges :: NewViewViewChangeMap
  nv_PrePrepares :: NewViewPrePrepareMap
  nv_Node :: NodeId

record SignedNewView =
  snv_Message :: NewView
  snv_Signature :: "byte list"

text \<open>\<open>PrePrepare{}\<close>, the body of a heartbeat.\<close>

definition zeroPrePrepare :: PrePrepare where
  "zeroPrePrepare = \<lparr>pp_Number = SlotId 0 0, pp_RequestDigest = zeroDigest\<rparr>"

section \<open>The marshalling of maps\<close>

text \<open>
  \<open>MarshalJSON\<close> of the maps keyed by a node writes the key \<open>k\<close> as \<open>string(k)\<close>, which in Go is
  the character with code point \<open>k\<close>; \<open>UnmarshalJSON\<close> reads it back with \<open>strconv.Atoi\<close>. The
  maps keyed by a slot write two such characters around a colon; reading them ignores the
  error of the second \<open>Atoi\<close>, whose result is then 0. The functions here build and read the
  intermediate \<open>strMap\<close>; ranging over a map assigns to \<open>strMap\<close> in iteration order.
\<close>

definition node_key :: "NodeId \<Rightarrow> string" where
  "node_key k = encode_rune (int k)"

definition slot_key :: "SlotId \<Rightarrow> string" where
  "slot_key k = encode_rune (ViewNumber k) @ '':'' @ encode_rune (SeqNumber k)"

definition strMap :: "('k \<Rightarrow> string) \<Rightarrow> ('v \<Rightarrow> 'w) \<Rightarrow> ('k, 'v) gomap \<Rightarrow> (string, 'w) gomap" where
  "strMap key enc m = fold (\<lambda>(k, v). gput (key k) (enc v)) m []"

text \<open>\<open>NodeId(uintK)\<close>: the conversion of an \<open>int\<close> to a 64-bit \<open>uint\<close>.\<close>

definition to_NodeId :: "int \<Rightarrow> NodeId" where
  "to_NodeId i = nat (i mod 18446744073709551616)"

fun unmarshal_nodes :: "(string, 'v) gomap \<Rightarrow> (NodeId, 'v) gomap \<Rightarrow> (NodeId, 'v) gomap option" where
  "unmarshal_nodes [] resultMap = Some resultMap"
| "unmarshal_nodes ((k, v) # rest) resultMap =
     (case Atoi k of
        None \<Rightarrow> None
      | Some uintK \<Rightarrow> unmarshal_nodes rest (gput (to_NodeId uintK) v resultMap))"

fun unmarshal_slots :: "(string, 'v) gomap \<Rightarrow> (SlotId, 'v) gomap \<Rightarrow> (SlotId, 'v) gomap option" where
  "unmarshal_slots [] resultMap = Some resultMap"
| "unmarshal_slots ((k, v) # rest) resultMap =
     (case split_colon k of
        [a, b] \<Rightarrow>
          (case Atoi a of
             None \<Rightarrow> None
           | Some view \<Rightarrow>
               let seq = (case Atoi b of None \<Rightarrow> 0 | Some i \<Rightarrow> i)
               in unmarshal_slots rest (gput (SlotId view seq) v resultMap))
      | _ \<Rightarrow> None)"

definition CheckpointProofMap_marshal :: "CheckpointProofMap \<Rightarrow> (string, SignedCheckpoint) gomap" where
  "CheckpointProofMap_marshal m = strMap node_key (\<lambda>v. v) m"

definition CheckpointProofMap_unmarshal :: "(string, SignedCheckpoint) gomap \<Rightarrow> CheckpointProofMap option" where
  "CheckpointProofMap_unmarshal b = unmarshal_nodes b []"

definition PreparedProofMap_marshal :: "PreparedProofMap \<Rightarrow> (string, PreparedProof) gomap" where
  "PreparedProofMap_marshal m = strMap slot_key (\<lambda>v. v) m"

definition PreparedProofMap_unmarshal :: "(string, PreparedProof) gomap \<Rightarrow> PreparedProofMap option" where
  "PreparedProofMap_unmarshal b = unmarshal_slots b []"

definition NewViewPrePrepareMap_marshal :: "NewViewPrePrepareMap \<Rightarrow> (string, FullPrePrepare) gomap" where
  "NewViewPrePrepareMap_marshal m = strMap slot_key (\<lambda>v. v) m"

definition NewViewPrePrepareMap_unmarshal :: "(string, FullPrePrepare) gomap \<Rightarrow> NewViewPrePrepareMap option" where
  "NewViewPrePrepareMap_unmarshal b = unmarshal_slots b []"

definition NewViewViewChangeMap_marshal :: "NewViewViewChangeMap \<Rightarrow> (string, SignedViewChange) gomap" where
  "NewViewViewChangeMap_marshal m = strMap node_key (\<lambda>v. v) m"

definition NewViewViewChangeMap_unmarshal :: "(string, SignedViewChange) gomap \<Rightarrow> NewViewViewChangeMap option" where
  "NewViewViewChangeMap_unmarshal b = unmarshal_nodes b []"

section \<open>The documents that are signed\<close>

definition json_slot :: "SlotId \<Rightarrow> json" where
  "json_slot s = JObj [(''ViewNumber'', JInt (ViewNumber s)), (''SeqNumber'', JInt (SeqNumber s))]"

definition json_PrePrepare :: "PrePrepare \<Rightarrow> json" where
  "json_PrePrepare m = JObj [(''Number'', json_slot (pp_Number m)),
     (''RequestDigest'', json_array (pp_RequestDigest m))]"

definition json_SignedPrePrepare :: "SignedPrePrepare \<Rightarrow> json" where
  "json_SignedPrePrepare m = JObj [(''PrePrepareMessage'', json_PrePrepare (spp_PrePrepareMessage m)),
     (''Signature'', JBytes (spp_Signature m))]"

definition json_FullPrePrepare :: "FullPrePrepare \<Rightarrow> json" where
  "json_FullPrePrepare m = JObj [(''SignedMessage'', json_SignedPrePrepare (fpp_SignedMessage m)),
     (''Request'', JStr (fpp_Request m))]"

definition json_PPResponse :: "PPResponse \<Rightarrow> json" where
  "json_PPResponse m = JObj [(''SeqNumber'', JInt (ppr_SeqNumber m))]"

definition json_Prepare :: "Prepare \<Rightarrow> json" where
  "json_Prepare m = JObj [(''Number'', json_slot (p_Number m)),
     (''RequestDigest'', json_array (p_RequestDigest m)), (''Node'', JInt (int (p_Node m)))]"

definition json_SignedPrepare :: "SignedPrepare \<Rightarrow> json" where
  "json_SignedPrepare m = JObj [(''PrepareMessage'', json_Prepare (sp_PrepareMessage m)),
     (''Signature'', JBytes (sp_Signature m))]"

definition json_Commit :: "Commit \<Rightarrow> json" where
  "json_Commit m = JObj [(''Number'', json_slot (c_Number m)),
     (''RequestDigest'', json_array (c_RequestDigest m)), (''Node'', JInt (int (c_Node m)))]"

definition json_Checkpoint :: "Checkpoint \<Rightarrow> json" where
  "json_Checkpoint m = JObj [(''Number'', json_slot (ck_Number m)),
     (''Snapshot'', JBytes (ck_Snapshot m)), (''Node'', JInt (int (ck_Node m)))]"

definition json_SignedCheckpoint :: "SignedCheckpoint \<Rightarrow> json" where
  "json_SignedCheckpoint m = JObj [(''CheckpointMessage'', json_Checkpoint (sck_CheckpointMessage m)),
     (''Signature'', JBytes (sck_Signature m))]"

text \<open>A map with integer keys and no \<open>MarshalJSON\<close> of its own writes its keys in decimal.\<close>

definition json_int_map :: "('v \<Rightarrow> json) \<Rightarrow> (NodeId, 'v) gomap \<Rightarrow> json" where
  "json_int_map enc m = json_map (map (\<lambda>(k, v). (show_int (int k), enc v)) m)"

definition json_CheckpointProof :: "CheckpointProof \<Rightarrow> json" where
  "json_CheckpointProof m = JObj [(''Number'', json_slot (cp_Number m)),
     (''Snapshot'', JBytes (cp_Snapshot m)), (''Proof'', json_int_map json_SignedCheckpoint (cp_Proof m))]"

definition json_CheckpointProofMessage :: "CheckpointProofMessage \<Rightarrow> json" where
  "json_CheckpointProofMessage m = JObj [(''Proof'', json_CheckpointProof (cpm_Proof m)),
     (''Node'', JInt (int (cpm_Node m)))]"

definition json_PreparedProof :: "PreparedProof \<Rightarrow> json" where
  "json_PreparedProof m = JObj [(''Number'', json_slot (pr_Number m)),
     (''Request'', JStr (pr_Request m)), (''Preprepare'', json_SignedPrePrepare (pr_Preprepare m)),
     (''RequestDigest'', json_array (pr_RequestDigest m)),
     (''Prepares'', json_int_map json_SignedPrepare (pr_Prepares m))]"

definition json_ViewChange :: "ViewChange \<Rightarrow> json" where
  "json_ViewChange m = JObj [(''ViewNumber'', JInt (vc_ViewNumber m)),
     (''Checkpoint'', json_slot (vc_Checkpoint m)),
     (''CheckpointProof'', json_map (strMap node_key json_SignedCheckpoint (vc_CheckpointProof m))),
     (''Proofs'', json_map (strMap slot_key json_PreparedProof (vc_Proofs m))),
     (''Node'', JInt (int (vc_Node m)))]"

definition json_SignedViewChange :: "SignedViewChange \<Rightarrow> json" where
  "json_SignedViewChange m = JObj [(''Message'', json_ViewChange (svc_Message m)),
     (''Signature'', JBytes (svc_Signature m))]"

definition json_NewView :: "NewView \<Rightarrow> json" where
  "json_NewView m = JObj [(''ViewNumber'', JInt (nv_ViewNumber m)),
     (''ViewChanges'', json_map (strMap node_key json_SignedViewChange (nv_ViewChanges m))),
     (''PrePrepares'', json_map (strMap slot_key json_FullPrePrepare (nv_PrePrepares m))),
     (''Node'', JInt (int (nv_Node m)))]"

end
