(* ===== verification/Signing.thy ===== *)
theory Signing
  imports Messages
begin

text \<open>
  src/pbft/signing.go: every message is signed over its JSON document and checked against the
  keyring of the peers. The package \<open>openpgp\<close> is not part of the repository: it is the
  parameter \<open>C\<close> of every definition here, a record of the two functions that are called.
\<close>

section \<open>openpgp as a parameter\<close>

text \<open>
  Of an \<open>openpgp.Entity\<close> the program reads the fingerprint of its primary key only; the rest
  (the key material that the library works on) is opaque.
\<close>

record entity =
  Fingerprint :: "byte list"
  key_material :: "byte list"

record pgp =
  DetachSign :: "entity \<Rightarrow> byte list \<Rightarrow> string + byte list"
  CheckDetachedSignature :: "entity list \<Rightarrow> byte list \<Rightarrow> byte list \<Rightarrow> string + entity"

text \<open>
  What the program relies on. A signature made by a key that is in the keyring is accepted,
  as a signature of that key; and a signature that is accepted is one of a key in the keyring.
\<close>

definition pgp_accepts :: "pgp \<Rightarrow> bool" where
  "pgp_accepts C \<longleftrightarrow> (\<forall>e ps d sg. DetachSign C e d = Inr sg \<longrightarrow> (\<exists>p\<in>set ps. Fingerprint p = Fingerprint e) \<longrightarrow>
     (\<exists>p\<in>set ps. CheckDetachedSignature C ps d sg = Inr p \<and> Fingerprint p = Fingerprint e))"

definition pgp_signer_known :: "pgp \<Rightarrow> bool" where
  "pgp_signer_known C \<longleftrightarrow> (\<forall>ps d sg p. CheckDetachedSignature C ps d sg = Inr p \<longrightarrow> p \<in> set ps)"

type_synonym peer_map = "(byte list, NodeId) gomap"

text \<open>\<open>peerMap[signer.PrimaryKey.Fingerprint]\<close>: a missing key reads as node 0.\<close>

definition signer_id :: "pgp \<Rightarrow> entity list \<Rightarrow> peer_map \<Rightarrow> json \<Rightarrow> byte list \<Rightarrow> string + NodeId" where
  "signer_id C peers peerMap doc sig =
     (case CheckDetachedSignature C peers (json_Encode doc) sig of
        Inl err \<Rightarrow> Inl err
      | Inr signer \<Rightarrow> Inr (case gget peerMap (Fingerprint signer) of None \<Rightarrow> 0 | Some i \<Rightarrow> i))"

section \<open>Signing and checking\<close>

definition PrePrepare_Sign :: "pgp \<Rightarrow> entity \<Rightarrow> PrePrepare \<Rightarrow> string + SignedPrePrepare" where
  "PrePrepare_Sign C node pp =
     (case DetachSign C node (json_Encode (json_PrePrepare pp)) of
        Inl err \<Rightarrow> Inl err
      | Inr sig \<Rightarrow> Inr \<lparr>spp_PrePrepareMessage = pp, spp_Signature = sig\<rparr>)"

definition SignedPrePrepare_SignatureValid ::
  "pgp \<Rightarrow> entity list \<Rightarrow> peer_map \<Rightarrow> SignedPrePrepare \<Rightarrow> string + NodeId" where
  "SignedPrePrepare_SignatureValid C peers peerMap pp =
     signer_id C peers peerMap (json_PrePrepare (spp_PrePrepareMessage pp)) (spp_Signature pp)"

definition PPResponse_GetSignature :: "pgp \<Rightarrow> entity \<Rightarrow> PPResponse \<Rightarrow> string + byte list" where
  "PPResponse_GetSignature C node pp = DetachSign C node (json_Encode (json_PPResponse pp))"

definition PPResponse_Sign :: "pgp \<Rightarrow> entity \<Rightarrow> PPResponse \<Rightarrow> string + SignedPPResponse" where
  "PPResponse_Sign C node pp =
     (case PPResponse_GetSignature C node pp of
        Inl err \<Rightarrow> Inl err
      | Inr sig \<Rightarrow> Inr \<lparr>sppr_Response = pp, sppr_Signature = sig\<rparr>)"

definition SignedPPResponse_SignatureValid ::
  "pgp \<Rightarrow> entity list \<Rightarrow> peer_map \<Rightarrow> SignedPPResponse \<Rightarrow> string + NodeId" where
  "SignedPPResponse_SignatureValid C peers peerMap pp =
     signer_id C peers peerMap (json_PPResponse (sppr_Response pp)) (sppr_Signature pp)"

definition Prepare_Sign :: "pgp \<Rightarrow> entity \<Rightarrow> Prepare \<Rightarrow> string + SignedPrepare" where
  "Prepare_Sign C node p =
     (case DetachSign C node (json_Encode (json_Prepare p)) of
        Inl err \<Rightarrow> Inl err
      | Inr sig \<Rightarrow> Inr \<lparr>sp_PrepareMessage = p, sp_Signature = sig\<rparr>)"

definition SignedPrepare_SignatureValid ::
  "pgp \<Rightarrow> entity list \<Rightarrow> peer_map \<Rightarrow> SignedPrepare \<Rightarrow> string + NodeId" where
  "SignedPrepare_SignatureValid C peers peerMap p =
     signer_id C peers peerMap (json_Prepare (sp_PrepareMessage p)) (sp_Signature p)"

definition Commit_Sign :: "pgp \<Rightarrow> entity \<Rightarrow> Commit \<Rightarrow> string + SignedCommit" where
  "Commit_Sign C node c =
     (case DetachSign C node (json_Encode (json_Commit c)) of
        Inl err \<Rightarrow> Inl err
      | Inr sig \<Rightarrow> Inr \<lparr>sc_CommitMessage = c, sc_Signature = sig\<rparr>)"

definition SignedCommit_SignatureValid ::
  "pgp \<Rightarrow> entity list \<Rightarrow> peer_map \<Rightarrow> SignedCommit \<Rightarrow> string + NodeId" where
  "SignedCommit_SignatureValid C peers peerMap c =
     signer_id C peers peerMap (json_Commit (sc_CommitMessage c)) (sc_Signature c)"

definition Checkpoint_Sign :: "pgp \<Rightarrow> entity \<Rightarrow> Checkpoint \<Rightarrow> string + SignedCheckpoint" where
  "Checkpoint_Sign C node c =
     (case DetachSign C node (json_Encode (json_Checkpoint c)) of
        Inl err \<Rightarrow> Inl err
      | Inr sig \<Rightarrow> Inr \<lparr>sck_CheckpointMessage = c, sck_Signature = sig\<rparr>)"

definition SignedCheckpoint_SignatureValid ::
  "pgp \<Rightarrow> entity list \<Rightarrow> peer_map \<Rightarrow> SignedCheckpoint \<Rightarrow> string + NodeId" where
  "SignedCheckpoint_SignatureValid C peers peerMap c =
     signer_id C peers peerMap (json_Checkpoint (sck_CheckpointMessage c)) (sck_Signature c)"

definition CheckpointProofMessage_Sign ::
  "pgp \<Rightarrow> entity \<Rightarrow> CheckpointProofMessage \<Rightarrow> string + SignedCheckpointProof" where
  "CheckpointProofMessage_Sign C node c =
     (case DetachSign C node (json_Encode (json_CheckpointProofMessage c)) of
        Inl err \<Rightarrow> Inl err
      | Inr sig \<Rightarrow> Inr \<lparr>scp_Message = c, scp_Signature = sig\<rparr>)"

definition SignedCheckpointProof_SignatureValid ::
  "pgp \<Rightarrow> entity list \<Rightarrow> peer_map \<Rightarrow> SignedCheckpointProof \<Rightarrow> string + NodeId" where
  "SignedCheckpointProof_SignatureValid C peers peerMap c =
     signer_id C peers peerMap (json_CheckpointProofMessage (scp_Message c)) (scp_Signature c)"

definition ViewChange_Sign :: "pgp \<Rightarrow> entity \<Rightarrow> ViewChange \<Rightarrow> string + SignedViewChange" where
  "ViewChange_Sign C node vc =
     (case DetachSign C node (json_Encode (json_ViewChange vc)) of
        Inl err \<Rightarrow> Inl err
      | Inr sig \<Rightarrow> Inr \<lparr>svc_Message = vc, svc_Signature = sig\<rparr>)"

definition SignedViewChange_SignatureValid ::
  "pgp \<Rightarrow> entity list \<Rightarrow> peer_map \<Rightarrow> SignedViewChange \<Rightarrow> string + NodeId" where
  "SignedViewChange_SignatureValid C peers peerMap vc =
     signer_id C peers peerMap (json_ViewChange (svc_Message vc)) (svc_Signature vc)"

definition NewView_Sign :: "pgp \<Rightarrow> entity \<Rightarrow> NewView \<Rightarrow> string + SignedNewView" where
  "NewView_Sign C node nv =
     (case DetachSign C node (json_Encode (json_NewView nv)) of
        Inl err \<Rightarrow> Inl err
      | Inr sig \<Rightarrow> Inr \<lparr>snv_Message = nv, snv_Signature = sig\<rparr>)"

definition SignedNewView_SignatureValid ::
  "pgp \<Rightarrow> entity list \<Rightarrow> peer_map \<Rightarrow> SignedNewView \<Rightarrow> string + NodeId" where
  "SignedNewView_SignatureValid C peers peerMap nv =
     signer_id C peers peerMap (json_NewView (snv_Message nv)) (snv_Signature nv)"

section \<open>The contract the eight message kinds share\<close>

locale signed_message =
  fixes sign :: "pgp \<Rightarrow> entity \<Rightarrow> 'm \<Rightarrow> string + 's"
    and valid :: "pgp \<Rightarrow> entity list \<Rightarrow> peer_map \<Rightarrow> 's \<Rightarrow> string + NodeId"
    and body :: "'s \<Rightarrow> 'm" and sig_of :: "'s \<Rightarrow> byte list" and doc :: "'m \<Rightarrow> json"
  assumes sign_ok: "sign C e m = Inr s \<Longrightarrow>
      body s = m \<and> DetachSign C e (json_Encode (doc m)) = Inr (sig_of s)"
    and sign_fails: "sign C e m = Inl err \<longleftrightarrow> DetachSign C e (json_Encode (doc m)) = Inl err"
    and valid_signer: "valid C ps pm s = signer_id C ps pm (doc (body s)) (sig_of s)"
begin

lemma signed_body: "sign C e m = Inr s \<Longrightarrow> body s = m"
  by (simp add: sign_ok)

lemma sign_valid:
  assumes "pgp_accepts C" "sign C e m = Inr s" "\<exists>p\<in>set ps. Fingerprint p = Fingerprint e"
    "gget pm (Fingerprint e) = Some i"
  shows "valid C ps pm s = Inr i"
proof -
  from sign_ok [OF assms(2)] have b: "body s = m"
    and d: "DetachSign C e (json_Encode (doc m)) = Inr (sig_of s)" by auto
  from assms(1,3) d obtain p where
    "CheckDetachedSignature C ps (json_Encode (doc m)) (sig_of s) = Inr p"
    "Fingerprint p = Fingerprint e"
    unfolding pgp_accepts_def by blast
  with b assms(4) show ?thesis by (simp add: valid_signer signer_id_def)
qed

lemma valid_sender:
  assumes "pgp_signer_known C" "valid C ps pm s = Inr i"
    "\<And>p. p \<in> set ps \<Longrightarrow> gget pm (Fingerprint p) \<noteq> None"
  shows "\<exists>p\<in>set ps. gget pm (Fingerprint p) = Some i"
  using assms unfolding pgp_signer_known_def valid_signer signer_id_def
  by (fastforce split: sum.splits option.splits)

lemma same_document:
  "doc (body s) = doc (body s') \<Longrightarrow> sig_of s = sig_of s' \<Longrightarrow> valid C ps pm s = valid C ps pm s'"
  by (simp add: valid_signer)

end

interpretation pre_prepare: signed_message PrePrepare_Sign SignedPrePrepare_SignatureValid
  spp_PrePrepareMessage spp_Signature json_PrePrepare
  by unfold_locales
    (auto simp: PrePrepare_Sign_def SignedPrePrepare_SignatureValid_def split: sum.splits)

interpretation pp_response: signed_message PPResponse_Sign SignedPPResponse_SignatureValid
  sppr_Response sppr_Signature json_PPResponse
  by unfold_locales
    (auto simp: PPResponse_Sign_def PPResponse_GetSignature_def SignedPPResponse_SignatureValid_def
      split: sum.splits)

interpretation prepare: signed_message Prepare_Sign SignedPrepare_SignatureValid
  sp_PrepareMessage sp_Signature json_Prepare
  by unfold_locales
    (auto simp: Prepare_Sign_def SignedPrepare_SignatureValid_def split: sum.splits)

interpretation commit: signed_message Commit_Sign SignedCommit_SignatureValid
  sc_CommitMessage sc_Signature json_Commit
  by unfold_locales
    (auto simp: Commit_Sign_def SignedCommit_SignatureValid_def split: sum.splits)

interpretation checkpoint: signed_message Checkpoint_Sign SignedCheckpoint_SignatureValid
  sck_CheckpointMessage sck_Signature json_Checkpoint
  by unfold_locales
    (auto simp: Checkpoint_Sign_def SignedCheckpoint_SignatureValid_def split: sum.splits)

interpretation checkpoint_proof: signed_message CheckpointProofMessage_Sign
  SignedCheckpointProof_SignatureValid scp_Message scp_Signature json_CheckpointProofMessage
  by unfold_locales
    (auto simp: CheckpointProofMessage_Sign_def SignedCheckpointProof_SignatureValid_def split: sum.splits)

interpretation view_change: signed_message ViewChange_Sign SignedViewChange_SignatureValid
  svc_Message svc_Signature json_ViewChange
  by unfold_locales
    (auto simp: ViewChange_Sign_def SignedViewChange_SignatureValid_def split: sum.splits)

interpretation new_view: signed_message NewView_Sign SignedNewView_SignatureValid
  snv_Message snv_Signature json_NewView
  by unfold_locales
    (auto simp: NewView_Sign_def SignedNewView_SignatureValid_def split: sum.splits)

section \<open>A concrete signature scheme for the witnesses\<close>

text \<open>
  A signature is the fingerprint followed by the document; it is checked by looking for the
  key. It satisfies both hypotheses (it is of course easy to forge).
\<close>

fun find_signer :: "entity list \<Rightarrow> byte list \<Rightarrow> byte list \<Rightarrow> string + entity" where
  "find_signer [] d sg = Inl ''unknown signer''"
| "find_signer (p # ps) d sg = (if Fingerprint p @ d = sg then Inr p else find_signer ps d sg)"

definition example_pgp :: pgp where
  "example_pgp = \<lparr>DetachSign = (\<lambda>e d. Inr (Fingerprint e @ d)), CheckDetachedSignature = find_signer\<rparr>"

lemma find_signer_member: "find_signer ps d sg = Inr p \<Longrightarrow> p \<in> set ps \<and> Fingerprint p @ d = sg"
  by (induction ps) (auto split: if_splits)

lemma find_signer_complete:
  "p \<in> set ps \<Longrightarrow> Fingerprint p @ d = sg \<Longrightarrow> \<exists>q. find_signer ps d sg = Inr q"
  by (induction ps) auto

lemma example_pgp_signer_known: "pgp_signer_known example_pgp"
  by (auto simp: pgp_signer_known_def example_pgp_def dest: find_signer_member)

lemma example_pgp_accepts: "pgp_accepts example_pgp"
  unfolding pgp_accepts_def
proof (intro allI impI)
  fix e :: entity and ps :: "entity list" and d sg
  assume "DetachSign example_pgp e d = Inr sg" and "\<exists>p\<in>set ps. Fingerprint p = Fingerprint e"
  then obtain p where sg: "sg = Fingerprint e @ d" and "p \<in> set ps" "Fingerprint p @ d = sg"
    by (auto simp: example_pgp_def)
  then obtain q where q: "find_signer ps d sg = Inr q"
    using find_signer_complete by blast
  with find_signer_member [OF q] sg
  show "\<exists>p\<in>set ps. CheckDetachedSignature example_pgp ps d sg = Inr p \<and> Fingerprint p = Fingerprint e"
    by (auto simp: example_pgp_def)
qed

section \<open>ClientReply\<close>

text \<open>
  All fields of \<open>ClientReply\<close> are unexported, and \<open>encoding/json\<close> encodes exported fields
  only: the document of every reply is the empty object.
\<close>

record ClientReply =
  cr_result :: string
  cr_viewNumber :: int
  cr_timestamp :: int
  cr_client :: "string option"
  cr_node :: "string option"
  cr_digest :: "byte list"

definition json_ClientReply :: "ClientReply \<Rightarrow> json" where
  "json_ClientReply cr = JObj []"

definition ClientReply_generateDigest :: "ClientReply \<Rightarrow> byte list" where
  "ClientReply_generateDigest cr = Sum256 (json_Encode (json_ClientReply cr))"

definition ClientReply_SetDigest :: "ClientReply \<Rightarrow> ClientReply" where
  "ClientReply_SetDigest cr =
     (let cr = cr\<lparr>cr_digest := zeroDigest\<rparr> in cr\<lparr>cr_digest := ClientReply_generateDigest cr\<rparr>)"

text \<open>\<open>DigestValid\<close> clears the digest, computes it, puts the old one back and compares.\<close>

definition ClientReply_DigestValid :: "ClientReply \<Rightarrow> ClientReply \<times> bool" where
  "ClientReply_DigestValid cr =
     (let currentDigest = cr_digest cr;
          cr = cr\<lparr>cr_digest := zeroDigest\<rparr>;
          d = ClientReply_generateDigest cr
      in (cr\<lparr>cr_digest := currentDigest\<rparr>, d = currentDigest))"

end
