(* ===== verification/Node.thy ===== *)
theory Node
  imports Signing
begin

text \<open>
  The state of a replica (src/pbft/node.go, \<open>PBFTNode\<close>, and \<open>Slot\<close> of common.go), how
  \<open>StartNode\<close> builds it, the small methods every handler uses, and the effects a handler has.
  Channels are not state: receiving from one is an event, sending to one an effect.
\<close>

section \<open>State\<close>

record Slot =
  s_request :: "string option"
  s_requestDigest :: "byte list"
  s_preprepare :: "SignedPrePrepare option"
  s_prepares :: "(NodeId, SignedPrepare) gomap"
  s_commits :: "(NodeId, SignedCommit) gomap"
  s_prepared :: bool
  s_committed :: bool

record requestInfo =
  ri_committed :: bool

record viewChangeInfo =
  vci_messages :: "(NodeId, SignedViewChange) gomap"
  vci_inProgress :: bool
  vci_viewNumber :: int

text \<open>A \<open>time.Timer\<close> or \<open>time.Ticker\<close>: its period (nanoseconds) and whether it can still fire.\<close>

record timer =
  t_period :: int
  t_active :: bool

text \<open>
  The Go names are kept, but \<open>node_id\<close> and \<open>node_entity\<close>. The map \<open>NewView.ViewChanges\<close> of
  the message the leader keeps in \<open>newView\<close> is, once a new view was built, the map
  \<open>viewChange.messages\<close> itself and not a copy of it (\<open>newViewShared\<close>): later messages show up in it.
\<close>

record PBFTNode =
  node_id :: NodeId
  host :: string
  port :: int
  peermap :: "(NodeId, string) gomap"
  hostToPeer :: "(string, NodeId) gomap"
  cluster :: ClusterConfig
  node_entity :: entity
  peerEntityMap :: peer_map
  peerEntities :: "entity list"
  requests :: "(byte list, requestInfo) gomap"
  log :: "(SlotId, Slot) gomap"
  viewNumber :: int
  sequenceNumber :: int
  issuedSequenceNumber :: int
  viewChange :: viewChangeInfo
  lastCheckpoint :: CheckpointProof
  pendingCheckpoints :: "(SlotId, CheckpointProof) gomap"
  heartbeatTicker :: "timer option"
  timeoutTimer :: "timer option"
  caughtUp :: "(NodeId, int) gomap"
  newView :: NewView
  newViewShared :: bool
  down :: bool
  slow :: bool

definition TIMEOUT :: int where
  "TIMEOUT = 500000000"

definition CHECKPOINT :: int where
  "CHECKPOINT = 100"

section \<open>Effects\<close>

datatype rpc =
    RpcClientRequest string
  | RpcPrePrepare FullPrePrepare
  | RpcPrepare SignedPrepare
  | RpcCommit SignedCommit
  | RpcCheckpoint SignedCheckpoint
  | RpcCheckpointProof SignedCheckpointProof
  | RpcViewChange SignedViewChange
  | RpcNewView SignedNewView

text \<open>
  \<open>Broadcast\<close> and \<open>SendTo\<close> are the goroutines that send a message to all peers or to one; the
  other three are the values put on the channels that the key node reads.
\<close>

datatype effect =
    Broadcast rpc
  | SendTo NodeId rpc
  | Committed "string option"
  | SnapshotRequested SlotId
  | Snapshotted "byte list"

type_synonym result = "(PBFTNode, effect) run"

section \<open>Helpers\<close>

definition emptySlot :: Slot where
  "emptySlot = \<lparr>s_request = None, s_requestDigest = zeroDigest, s_preprepare = None,
     s_prepares = [], s_commits = [], s_prepared = False, s_committed = False\<rparr>"

text \<open>
  \<open>ensureMapping\<close> returns a pointer to the slot in the log, which it creates when needed. A
  handler reads the slot with \<open>slotAt\<close> and writes the changed one back with \<open>putSlot\<close>.
\<close>

definition slotAt :: "PBFTNode \<Rightarrow> SlotId \<Rightarrow> Slot" where
  "slotAt n num = (case gget (log n) num of Some slot \<Rightarrow> slot | None \<Rightarrow> emptySlot)"

definition putSlot :: "SlotId \<Rightarrow> Slot \<Rightarrow> PBFTNode \<Rightarrow> PBFTNode" where
  "putSlot num slot n = n\<lparr>log := gput num slot (log n)\<rparr>"

definition ensureMapping :: "SlotId \<Rightarrow> PBFTNode \<Rightarrow> PBFTNode" where
  "ensureMapping num n = (case gget (log n) num of Some _ \<Rightarrow> n | None \<Rightarrow> putSlot num emptySlot n)"

text \<open>
  A node whose cluster has no leader never starts (\<open>StartNode\<close> asks \<open>isPrimary\<close>), so a running
  node reads the leader of every view: see \<open>started_has_leader\<close>.
\<close>

definition isPrimary :: "PBFTNode \<Rightarrow> bool" where
  "isPrimary n \<longleftrightarrow> LeaderFor (cluster n) (viewNumber n) = Inr (node_id n)"

definition getPrimary :: "PBFTNode \<Rightarrow> NodeId \<times> string" where
  "getPrimary n =
     (case LeaderFor (cluster n) (viewNumber n) of
        Inl _ \<Rightarrow> (0, [])
      | Inr primaryId \<Rightarrow>
          (case gget (peermap n) primaryId of Some p \<Rightarrow> (primaryId, p) | None \<Rightarrow> (0, [])))"

definition isPrepared :: "PBFTNode \<Rightarrow> Slot \<Rightarrow> bool" where
  "isPrepared n slot \<longleftrightarrow>
     s_preprepare slot \<noteq> None \<and> length (s_prepares slot) \<ge> 2 * (length (peermap n) div 3)"

definition isCommitted :: "PBFTNode \<Rightarrow> Slot \<Rightarrow> bool" where
  "isCommitted n slot \<longleftrightarrow> length (s_commits slot) \<ge> 2 * (length (peermap n) div 3)"

text \<open>\<open>time.Duration\<close> is a 64-bit count of nanoseconds; division truncates.\<close>

definition quot64 :: "int \<Rightarrow> int \<Rightarrow> int" where
  "quot64 a b = sgn a * sgn b * (\<bar>a\<bar> div \<bar>b\<bar>)"

definition getTimeout :: "PBFTNode \<Rightarrow> int" where
  "getTimeout n =
     (if isPrimary n then TIMEOUT else quot64 (wrap64 (TIMEOUT * int (length (peermap n)))) 2)"

definition newTimer :: "int \<Rightarrow> timer" where
  "newTimer d = \<lparr>t_period = d, t_active = True\<rparr>"

text \<open>The channel the main loop waits on; reading the field of a nil timer stops the process.\<close>

definition getTimer :: "PBFTNode \<Rightarrow> fault + timer" where
  "getTimer n =
     (case (if isPrimary n then heartbeatTicker n else timeoutTimer n) of
        None \<Rightarrow> Inl NilDeref | Some t \<Rightarrow> Inr t)"

definition stopTimers :: "PBFTNode \<Rightarrow> PBFTNode" where
  "stopTimers n =
     n\<lparr>timeoutTimer := map_option (\<lambda>t. t\<lparr>t_active := False\<rparr>) (timeoutTimer n),
       heartbeatTicker := map_option (\<lambda>t. t\<lparr>t_active := False\<rparr>) (heartbeatTicker n)\<rparr>"

definition startTimers :: "PBFTNode \<Rightarrow> PBFTNode" where
  "startTimers n =
     (if isPrimary n then n\<lparr>heartbeatTicker := Some (newTimer (getTimeout n))\<rparr>
      else n\<lparr>timeoutTimer := Some (newTimer (getTimeout n))\<rparr>)"

section \<open>Starting a node\<close>

text \<open>
  The operating system and openpgp are parameters: \<open>os.Open\<close> and \<open>ioutil.ReadFile\<close> on a path,
  \<open>openpgp.ReadArmoredKeyRing\<close> on the contents of a file, \<open>PrivateKey.Decrypt\<close> of an entity that has
  a private key, \<open>net.Listen\<close> on a port.
\<close>

record host_env =
  env_Open :: "string \<Rightarrow> string + string"
  env_KeyRing :: "string \<Rightarrow> string + entity list"
  env_ReadFile :: "string \<Rightarrow> string + string"
  Decrypt :: "entity \<Rightarrow> string \<Rightarrow> string + entity"
  Listen :: "int \<Rightarrow> bool"

definition ReadPgpKeyFile :: "host_env \<Rightarrow> string \<Rightarrow> string + entity list" where
  "ReadPgpKeyFile E path =
     (case env_Open E path of
        Inl e \<Rightarrow> Inl e
      | Inr keyfile \<Rightarrow> (case env_KeyRing E keyfile of Inl readErr \<Rightarrow> Inl readErr | Inr list \<Rightarrow> Inr list))"

definition ReadPassPhrase :: "host_env \<Rightarrow> string \<Rightarrow> string + string" where
  "ReadPassPhrase E path =
     (case env_ReadFile E path of Inl err \<Rightarrow> Inl err | Inr phrase \<Rightarrow> Inr (TrimSpace phrase))"

record peers =
  ps_map :: "(NodeId, string) gomap"
  ps_hosts :: "(string, NodeId) gomap"
  ps_entityMap :: peer_map
  ps_entities :: "entity list"

text \<open>The loop over the nodes of the cluster that reads the public keys of the peers.\<close>

fun StartNode_peers :: "host_env \<Rightarrow> NodeId \<Rightarrow> NodeConfig list \<Rightarrow> peers \<Rightarrow> fault + peers" where
  "StartNode_peers E hostId [] acc = Inr acc"
| "StartNode_peers E hostId (p # rest) acc =
     (if cfg_Id p \<noteq> hostId then
        let hostname = GetHostname (cfg_Host p) (cfg_Port p)
        in case ReadPgpKeyFile E (cfg_PublicKeyFile p) of
             Inl err \<Rightarrow> Inl Fatal
           | Inr [] \<Rightarrow> Inl IndexOutOfRange
           | Inr (key # _) \<Rightarrow>
               StartNode_peers E hostId rest
                 \<lparr>ps_map = gput (cfg_Id p) hostname (ps_map acc),
                  ps_hosts = gput hostname (cfg_Id p) (ps_hosts acc),
                  ps_entityMap = gput (Fingerprint key) (cfg_Id p) (ps_entityMap acc),
                  ps_entities = ps_entities acc @ [key]\<rparr>
      else StartNode_peers E hostId rest acc)"

definition noPeers :: peers where
  "noPeers = \<lparr>ps_map = [], ps_hosts = [], ps_entityMap = [], ps_entities = []\<rparr>"

definition initCheckpoint :: CheckpointProof where
  "initCheckpoint = \<lparr>cp_Number = SlotId 0 0, cp_Snapshot = [], cp_Proof = []\<rparr>"

definition initNode :: "NodeConfig \<Rightarrow> ClusterConfig \<Rightarrow> entity \<Rightarrow> peers \<Rightarrow> PBFTNode" where
  "initNode hostc clusterc ent ps =
     \<lparr>node_id = cfg_Id hostc, host = cfg_Host hostc, port = cfg_Port hostc,
      peermap = ps_map ps, hostToPeer = ps_hosts ps, cluster = clusterc, node_entity = ent,
      peerEntityMap = ps_entityMap ps, peerEntities = ps_entities ps,
      requests = [], log = [], viewNumber = 0, sequenceNumber = 1, issuedSequenceNumber = 1,
      viewChange = \<lparr>vci_messages = [], vci_inProgress = False, vci_viewNumber = 0\<rparr>,
      lastCheckpoint = initCheckpoint, pendingCheckpoints = [],
      heartbeatTicker = None, timeoutTimer = None,
      caughtUp = map (\<lambda>(p, _). (p, 1)) (ps_map ps),
      newView = \<lparr>nv_ViewNumber = 0, nv_ViewChanges = [], nv_PrePrepares = [], nv_Node = cfg_Id hostc\<rparr>,
      newViewShared = False, down = False, slow = False\<rparr>"

text \<open>\<open>StartNode\<close>: \<open>node.Error\<close> on a failed listener ends the process, so nil is never returned.\<close>

definition StartNode :: "host_env \<Rightarrow> NodeConfig \<Rightarrow> ClusterConfig \<Rightarrow> fault + PBFTNode" where
  "StartNode E hostc clusterc =
     (case ReadPgpKeyFile E (cfg_PrivateKeyFile hostc) of
        Inl err \<Rightarrow> Inl Fatal
      | Inr [] \<Rightarrow> Inl IndexOutOfRange
      | Inr (hostEntity # _) \<Rightarrow>
          (case ReadPassPhrase E (cfg_PassPhraseFile hostc) of
             Inl err \<Rightarrow> Inl Fatal
           | Inr passphrase \<Rightarrow>
               (case Decrypt E hostEntity passphrase of
                  Inl err \<Rightarrow> Inl Fatal
                | Inr ent \<Rightarrow>
                    (case StartNode_peers E (cfg_Id hostc) (Nodes clusterc) noPeers of
                       Inl f \<Rightarrow> Inl f
                     | Inr ps \<Rightarrow>
                         if \<not> Listen E (cfg_Port hostc) then Inl Fatal
                         else (case LeaderFor clusterc 0 of
                             Inl f \<Rightarrow> Inl f
                           | Inr _ \<Rightarrow> Inr (startTimers (initNode hostc clusterc ent ps)))))))"

section \<open>Facts about the helpers\<close>

lemma slotAt_putSlot [simp]: "slotAt (putSlot k s n) k' = (if k' = k then s else slotAt n k')"
  by (simp add: slotAt_def putSlot_def)

lemma log_putSlot [simp]: "log (putSlot k s n) = gput k s (log n)"
  by (simp add: putSlot_def)

lemma slotAt_ensureMapping [simp]: "slotAt (ensureMapping k n) k' = slotAt n k'"
  by (auto simp: ensureMapping_def slotAt_def putSlot_def split: option.splits)

lemma slotAt_Some: "gget (log n) k = Some s \<Longrightarrow> slotAt n k = s"
  by (simp add: slotAt_def)

lemma emptySlot_simps [simp]:
  "s_request emptySlot = None" "s_preprepare emptySlot = None" "s_prepares emptySlot = []"
  "s_commits emptySlot = []" "\<not> s_prepared emptySlot" "\<not> s_committed emptySlot"
  "s_requestDigest emptySlot = zeroDigest"
  by (simp_all add: emptySlot_def)

text \<open>The immutable part of a node: nothing writes it after \<open>StartNode\<close>.\<close>

definition config :: "PBFTNode \<Rightarrow> NodeId \<times> (NodeId, string) gomap \<times> ClusterConfig \<times> entity \<times> peer_map \<times> entity list" where
  "config n = (node_id n, peermap n, cluster n, node_entity n, peerEntityMap n, peerEntities n)"

lemma isPrimary_config: "config n = config m \<Longrightarrow> viewNumber n = viewNumber m \<Longrightarrow> isPrimary n = isPrimary m"
  by (simp add: config_def isPrimary_def)

lemma startTimers_simps [simp]:
  "log (startTimers n) = log n" "viewNumber (startTimers n) = viewNumber n"
  "config (startTimers n) = config n" "requests (startTimers n) = requests n"
  "sequenceNumber (startTimers n) = sequenceNumber n"
  "issuedSequenceNumber (startTimers n) = issuedSequenceNumber n"
  "viewChange (startTimers n) = viewChange n" "lastCheckpoint (startTimers n) = lastCheckpoint n"
  "pendingCheckpoints (startTimers n) = pendingCheckpoints n"
  "caughtUp (startTimers n) = caughtUp n" "newView (startTimers n) = newView n"
  "newViewShared (startTimers n) = newViewShared n" "down (startTimers n) = down n"
  by (simp_all add: startTimers_def config_def)

lemma stopTimers_simps [simp]:
  "log (stopTimers n) = log n" "viewNumber (stopTimers n) = viewNumber n"
  "config (stopTimers n) = config n" "requests (stopTimers n) = requests n"
  "sequenceNumber (stopTimers n) = sequenceNumber n"
  "issuedSequenceNumber (stopTimers n) = issuedSequenceNumber n"
  "viewChange (stopTimers n) = viewChange n" "lastCheckpoint (stopTimers n) = lastCheckpoint n"
  "pendingCheckpoints (stopTimers n) = pendingCheckpoints n"
  "caughtUp (stopTimers n) = caughtUp n" "newView (stopTimers n) = newView n"
  "newViewShared (stopTimers n) = newViewShared n" "down (stopTimers n) = down n"
  by (simp_all add: stopTimers_def config_def)

text \<open>The timer the main loop waits on exists.\<close>

definition timers_ok :: "PBFTNode \<Rightarrow> bool" where
  "timers_ok n \<longleftrightarrow> (if isPrimary n then heartbeatTicker n \<noteq> None else timeoutTimer n \<noteq> None)"

lemma timers_ok_getTimer: "timers_ok n \<longleftrightarrow> (\<exists>t. getTimer n = Inr t)"
  by (auto simp: timers_ok_def getTimer_def split: option.splits)

lemma timers_ok_startTimers [simp]: "timers_ok (startTimers n)"
  by (auto simp: timers_ok_def startTimers_def isPrimary_def)

lemma timers_ok_stopTimers [simp]: "timers_ok (stopTimers n) = timers_ok n"
  by (auto simp: timers_ok_def stopTimers_def isPrimary_def)

end
