(* ===== verification/Invariant.thy ===== *)
theory Invariant
  imports Node
begin

text \<open>
  The invariant of a replica, before any handler: which votes may be in the log and in the
  pending checkpoints, what the flags of a slot mean, and the relation \<open>keeps\<close> between the
  states before and after an operation. \<open>keeps\<close> is reflexive and transitive, so a handler
  that calls another one keeps the invariant because each of its steps does.
\<close>

section \<open>Authentic votes\<close>

text \<open>
  A vote filed under node \<open>i\<close> is for the slot it is filed in, names \<open>i\<close>, and carries a
  signature that the keyring of the peers attributes to \<open>i\<close>, or is the node's own.
\<close>

definition prepare_ok :: "pgp \<Rightarrow> PBFTNode \<Rightarrow> SlotId \<Rightarrow> NodeId \<Rightarrow> SignedPrepare \<Rightarrow> bool" where
  "prepare_ok C n k i m \<longleftrightarrow>
     p_Number (sp_PrepareMessage m) = k \<and> p_Node (sp_PrepareMessage m) = i \<and>
     (SignedPrepare_SignatureValid C (peerEntities n) (peerEntityMap n) m = Inr i \<or>
      i = node_id n \<and> Prepare_Sign C (node_entity n) (sp_PrepareMessage m) = Inr m)"

definition commit_ok :: "pgp \<Rightarrow> PBFTNode \<Rightarrow> SlotId \<Rightarrow> NodeId \<Rightarrow> SignedCommit \<Rightarrow> bool" where
  "commit_ok C n k i m \<longleftrightarrow>
     c_Number (sc_CommitMessage m) = k \<and> c_Node (sc_CommitMessage m) = i \<and>
     (SignedCommit_SignatureValid C (peerEntities n) (peerEntityMap n) m = Inr i \<or>
      i = node_id n \<and> Commit_Sign C (node_entity n) (sc_CommitMessage m) = Inr m)"

definition checkpoint_ok :: "pgp \<Rightarrow> PBFTNode \<Rightarrow> SlotId \<Rightarrow> NodeId \<Rightarrow> SignedCheckpoint \<Rightarrow> bool" where
  "checkpoint_ok C n k i m \<longleftrightarrow>
     ck_Number (sck_CheckpointMessage m) = k \<and> ck_Node (sck_CheckpointMessage m) = i \<and>
     (SignedCheckpoint_SignatureValid C (peerEntities n) (peerEntityMap n) m = Inr i \<or>
      i = node_id n \<and> Checkpoint_Sign C (node_entity n) (sck_CheckpointMessage m) = Inr m)"

definition viewchange_ok :: "pgp \<Rightarrow> PBFTNode \<Rightarrow> NodeId \<Rightarrow> SignedViewChange \<Rightarrow> bool" where
  "viewchange_ok C n i m \<longleftrightarrow>
     vc_Node (svc_Message m) = i \<and>
     SignedViewChange_SignatureValid C (peerEntities n) (peerEntityMap n) m = Inr i"

definition votes_ok :: "(NodeId \<Rightarrow> 'v \<Rightarrow> bool) \<Rightarrow> (NodeId, 'v) gomap \<Rightarrow> bool" where
  "votes_ok ok m \<longleftrightarrow> gwf m \<and> (\<forall>i v. gget m i = Some v \<longrightarrow> ok i v)"

lemma votes_ok_Nil [simp, intro]: "votes_ok ok []"
  by (simp add: votes_ok_def)

lemma votes_ok_put [intro]: "votes_ok ok m \<Longrightarrow> ok i v \<Longrightarrow> votes_ok ok (gput i v m)"
  by (simp add: votes_ok_def)

lemma votes_ok_gwf: "votes_ok ok m \<Longrightarrow> gwf m"
  by (simp add: votes_ok_def)

lemma votes_ok_gsame: "gsame m m' \<Longrightarrow> votes_ok ok m \<Longrightarrow> votes_ok ok m'"
  by (metis votes_ok_def gsame_gget gsame_gwf)

text \<open>The number of entries is the number of distinct voters, each with an authentic vote.\<close>

lemma votes_ok_card:
  assumes "votes_ok ok m"
  shows "length m = card {i. \<exists>v. gget m i = Some v \<and> ok i v}"
proof -
  have "{i. \<exists>v. gget m i = Some v \<and> ok i v} = {i. gget m i \<noteq> None}"
    using assms by (auto simp: votes_ok_def)
  then show ?thesis using gm.size_card [of m] assms by (simp add: votes_ok_def)
qed

section \<open>Slots, log, pending checkpoints\<close>

definition slot_ok :: "pgp \<Rightarrow> PBFTNode \<Rightarrow> SlotId \<Rightarrow> Slot \<Rightarrow> bool" where
  "slot_ok C n k s \<longleftrightarrow>
     votes_ok (prepare_ok C n k) (s_prepares s) \<and> votes_ok (commit_ok C n k) (s_commits s) \<and>
     (s_preprepare s = None \<longleftrightarrow> s_request s = None) \<and>
     (s_prepared s \<longrightarrow> isPrepared n s) \<and> (s_committed s \<longrightarrow> isCommitted n s)"

definition log_ok :: "pgp \<Rightarrow> PBFTNode \<Rightarrow> bool" where
  "log_ok C n \<longleftrightarrow> gwf (log n) \<and> (\<forall>k s. gget (log n) k = Some s \<longrightarrow> slot_ok C n k s)"

definition pending_ok :: "pgp \<Rightarrow> PBFTNode \<Rightarrow> bool" where
  "pending_ok C n \<longleftrightarrow> gwf (pendingCheckpoints n) \<and>
     (\<forall>k p. gget (pendingCheckpoints n) k = Some p \<longrightarrow>
        cp_Number p = k \<and> votes_ok (checkpoint_ok C n k) (cp_Proof p))"

definition messages_ok :: "pgp \<Rightarrow> PBFTNode \<Rightarrow> bool" where
  "messages_ok C n \<longleftrightarrow> votes_ok (viewchange_ok C n) (vci_messages (viewChange n))"

lemma slot_ok_empty [simp, intro]: "slot_ok C n k emptySlot"
  by (simp add: slot_ok_def)

lemma ok_config:
  assumes "config n' = config n"
  shows "prepare_ok C n' = prepare_ok C n" "commit_ok C n' = commit_ok C n"
    "checkpoint_ok C n' = checkpoint_ok C n" "viewchange_ok C n' = viewchange_ok C n"
    "isPrepared n' = isPrepared n" "isCommitted n' = isCommitted n" "slot_ok C n' = slot_ok C n"
proof -
  show p: "prepare_ok C n' = prepare_ok C n" and c: "commit_ok C n' = commit_ok C n"
    and "checkpoint_ok C n' = checkpoint_ok C n" and "viewchange_ok C n' = viewchange_ok C n"
    and q: "isPrepared n' = isPrepared n" "isCommitted n' = isCommitted n"
    using assms
    by (simp_all add: fun_eq_iff config_def prepare_ok_def commit_ok_def checkpoint_ok_def
        viewchange_ok_def isPrepared_def isCommitted_def)
  show "slot_ok C n' = slot_ok C n"
    by (simp add: fun_eq_iff slot_ok_def p c q)
qed

lemma log_ok_slot: "log_ok C n \<Longrightarrow> slot_ok C n k (slotAt n k)"
  by (auto simp: log_ok_def slotAt_def split: option.splits)

text \<open>
  \<open>isPrimary\<close>, \<open>getTimeout\<close> and the quorum tests read the configuration and the view only.
\<close>

lemma isPrimary_upd [simp]:
  "isPrimary (n\<lparr>log := a1\<rparr>) = isPrimary n"
  "isPrimary (n\<lparr>requests := a2\<rparr>) = isPrimary n"
  "isPrimary (n\<lparr>sequenceNumber := a3\<rparr>) = isPrimary n"
  "isPrimary (n\<lparr>issuedSequenceNumber := a3\<rparr>) = isPrimary n"
  "isPrimary (n\<lparr>viewChange := a4\<rparr>) = isPrimary n"
  "isPrimary (n\<lparr>lastCheckpoint := a5\<rparr>) = isPrimary n"
  "isPrimary (n\<lparr>pendingCheckpoints := a6\<rparr>) = isPrimary n"
  "isPrimary (n\<lparr>heartbeatTicker := a7\<rparr>) = isPrimary n"
  "isPrimary (n\<lparr>timeoutTimer := a7\<rparr>) = isPrimary n"
  "isPrimary (n\<lparr>caughtUp := a8\<rparr>) = isPrimary n"
  "isPrimary (n\<lparr>newView := a9\<rparr>) = isPrimary n"
  "isPrimary (n\<lparr>newViewShared := a10\<rparr>) = isPrimary n"
  "isPrimary (n\<lparr>down := a10\<rparr>) = isPrimary n"
  "isPrimary (putSlot k s n) = isPrimary n"
  "isPrimary (ensureMapping k n) = isPrimary n"
  by (simp_all add: isPrimary_def putSlot_def ensureMapping_def split: option.splits)

lemma timers_ok_upd [simp]:
  "timers_ok (n\<lparr>log := a1\<rparr>) = timers_ok n"
  "timers_ok (n\<lparr>requests := a2\<rparr>) = timers_ok n"
  "timers_ok (n\<lparr>sequenceNumber := a3\<rparr>) = timers_ok n"
  "timers_ok (n\<lparr>issuedSequenceNumber := a3\<rparr>) = timers_ok n"
  "timers_ok (n\<lparr>viewChange := a4\<rparr>) = timers_ok n"
  "timers_ok (n\<lparr>lastCheckpoint := a5\<rparr>) = timers_ok n"
  "timers_ok (n\<lparr>pendingCheckpoints := a6\<rparr>) = timers_ok n"
  "timers_ok (n\<lparr>caughtUp := a8\<rparr>) = timers_ok n"
  "timers_ok (n\<lparr>newView := a9\<rparr>) = timers_ok n"
  "timers_ok (n\<lparr>newViewShared := a10\<rparr>) = timers_ok n"
  "timers_ok (n\<lparr>down := a10\<rparr>) = timers_ok n"
  "timers_ok (putSlot k s n) = timers_ok n"
  by (simp_all add: timers_ok_def putSlot_def)

lemma config_upd [simp]:
  "config (n\<lparr>log := a1\<rparr>) = config n"
  "config (n\<lparr>requests := a2\<rparr>) = config n"
  "config (n\<lparr>viewNumber := a3\<rparr>) = config n"
  "config (n\<lparr>sequenceNumber := a3\<rparr>) = config n"
  "config (n\<lparr>issuedSequenceNumber := a3\<rparr>) = config n"
  "config (n\<lparr>viewChange := a4\<rparr>) = config n"
  "config (n\<lparr>lastCheckpoint := a5\<rparr>) = config n"
  "config (n\<lparr>pendingCheckpoints := a6\<rparr>) = config n"
  "config (n\<lparr>heartbeatTicker := a7\<rparr>) = config n"
  "config (n\<lparr>timeoutTimer := a7\<rparr>) = config n"
  "config (n\<lparr>caughtUp := a8\<rparr>) = config n"
  "config (n\<lparr>newView := a9\<rparr>) = config n"
  "config (n\<lparr>newViewShared := a10\<rparr>) = config n"
  "config (n\<lparr>down := a10\<rparr>) = config n"
  "config (putSlot k s n) = config n"
  "config (ensureMapping k n) = config n"
  by (simp_all add: config_def putSlot_def ensureMapping_def split: option.splits)

section \<open>Operations that keep the invariant\<close>

text \<open>A client request that was seen is never forgotten.\<close>

definition requests_grow :: "PBFTNode \<Rightarrow> PBFTNode \<Rightarrow> bool" where
  "requests_grow n n' \<longleftrightarrow> (\<forall>d. gget (requests n) d \<noteq> None \<longrightarrow> gget (requests n') d \<noteq> None)"

lemma requests_growI [simp, intro]: "requests n' = requests n \<Longrightarrow> requests_grow n n'"
  by (simp add: requests_grow_def)

lemma requests_grow_trans: "requests_grow n m \<Longrightarrow> requests_grow m r \<Longrightarrow> requests_grow n r"
  by (simp add: requests_grow_def)

definition keeps :: "pgp \<Rightarrow> PBFTNode \<Rightarrow> PBFTNode \<Rightarrow> bool" where
  "keeps C n n' \<longleftrightarrow>
     config n' = config n \<and> (timers_ok n \<longrightarrow> timers_ok n') \<and>
     (log_ok C n \<longrightarrow> log_ok C n') \<and> (pending_ok C n \<longrightarrow> pending_ok C n') \<and>
     (messages_ok C n \<longrightarrow> messages_ok C n') \<and>
     cp_Number (lastCheckpoint n) \<le> cp_Number (lastCheckpoint n') \<and> requests_grow n n'"

lemma keeps_refl [simp, intro]: "keeps C n n"
  by (simp add: keeps_def)

lemma keeps_trans [trans]: "keeps C n n' \<Longrightarrow> keeps C n' n'' \<Longrightarrow> keeps C n n''"
  unfolding keeps_def by (auto intro: requests_grow_trans)

lemma keeps_config: "keeps C n n' \<Longrightarrow> config n' = config n"
  by (simp add: keeps_def)

interpretation keeping: run_preorder "keeps C" for C
  by unfold_locales (auto intro: keeps_trans)

lemmas holds_keeps_trans = keeping.holds_trans
lemmas holds_keeps_andThen = keeping.holds_compose

lemma keeps_frame:
  assumes "config n' = config n" "timers_ok n \<Longrightarrow> timers_ok n'"
    "log n' = log n" "pendingCheckpoints n' = pendingCheckpoints n"
    "vci_messages (viewChange n') = vci_messages (viewChange n)"
    "lastCheckpoint n' = lastCheckpoint n" "requests_grow n n'"
  shows "keeps C n n'"
  using assms ok_config [OF assms(1)]
  by (simp add: keeps_def log_ok_def pending_ok_def messages_ok_def)

lemma putSlot_simps [simp]:
  "pendingCheckpoints (putSlot k s n) = pendingCheckpoints n"
  "viewChange (putSlot k s n) = viewChange n" "lastCheckpoint (putSlot k s n) = lastCheckpoint n"
  "viewNumber (putSlot k s n) = viewNumber n" "sequenceNumber (putSlot k s n) = sequenceNumber n"
  "issuedSequenceNumber (putSlot k s n) = issuedSequenceNumber n"
  "requests (putSlot k s n) = requests n" "node_id (putSlot k s n) = node_id n"
  "peermap (putSlot k s n) = peermap n" "node_entity (putSlot k s n) = node_entity n"
  by (simp_all add: putSlot_def)

lemma keeps_putSlot:
  assumes "log_ok C n \<Longrightarrow> slot_ok C n k s"
  shows "keeps C n (putSlot k s n)"
proof -
  have c: "config (putSlot k s n) = config n" by simp
  from assms show ?thesis
    unfolding keeps_def log_ok_def pending_ok_def messages_ok_def ok_config [OF c]
    by simp
qed

lemma keeps_then_put:
  assumes k: "keeps C n m" and s: "log_ok C n \<Longrightarrow> slot_ok C n k s"
  shows "keeps C n (putSlot k s m)"
proof (cases "log_ok C n")
  case True
  have "slot_ok C m = slot_ok C n" by (rule ok_config [OF keeps_config [OF k]])
  with True s have "keeps C m (putSlot k s m)" by (intro keeps_putSlot) simp
  with k show ?thesis by (rule keeps_trans)
next
  case False
  have c: "config (putSlot k s m) = config m" by simp
  have "pending_ok C (putSlot k s m) = pending_ok C m" "messages_ok C (putSlot k s m) = messages_ok C m"
    by (simp_all add: pending_ok_def messages_ok_def ok_config [OF c])
  with False k show ?thesis by (simp add: keeps_def requests_grow_def)
qed

lemma keeps_ensureMapping: "keeps C n (ensureMapping k n)"
  by (auto simp: ensureMapping_def intro: keeps_putSlot split: option.splits)

lemma keeps_gget_subset:
  assumes "config n' = config n" "timers_ok n \<Longrightarrow> timers_ok n'"
    "gwf (log n) \<Longrightarrow> gwf (log n')" "\<And>k s. gget (log n') k = Some s \<Longrightarrow> gget (log n) k = Some s"
    "gwf (pendingCheckpoints n) \<Longrightarrow> gwf (pendingCheckpoints n')"
    "\<And>k s. gget (pendingCheckpoints n') k = Some s \<Longrightarrow> gget (pendingCheckpoints n) k = Some s"
    "viewChange n' = viewChange n"
    "cp_Number (lastCheckpoint n) \<le> cp_Number (lastCheckpoint n')" "requests_grow n n'"
  shows "keeps C n n'"
  using assms ok_config [OF assms(1)]
  by (simp add: keeps_def log_ok_def pending_ok_def messages_ok_def)

end
