(* ===== verification/Checkpointing.thy ===== *)
theory Checkpointing
  imports Invariant
begin

text \<open>
  src/pbft/checkpoint.go: votes for a checkpoint are collected per slot until 2f+1 of them
  make it stable; a stable checkpoint becomes \<open>lastCheckpoint\<close>, and the pending checkpoints
  and log entries it covers are dropped. A proof of a checkpoint can also come from a peer.
\<close>

section \<open>Operations\<close>

definition checkpointed :: "CheckpointProof \<Rightarrow> PBFTNode \<Rightarrow> result" where
  "checkpointed checkpoint n =
     (if Before (cp_Number checkpoint) (cp_Number (lastCheckpoint n)) then ret n
      else
        let n = n\<lparr>lastCheckpoint := checkpoint\<rparr>;
            stable = filter (\<lambda>slot. BeforeOrEqual slot (cp_Number checkpoint)) (gkeys (pendingCheckpoints n));
            n = n\<lparr>pendingCheckpoints := fold gdel stable (pendingCheckpoints n)\<rparr>;
            stableLog = filter (\<lambda>slot. BeforeOrEqual slot (cp_Number checkpoint)) (gkeys (log n));
            n = n\<lparr>log := fold gdel stable (log n)\<rparr>
        in if sequenceNumber n < SeqNumber (cp_Number checkpoint)
           then emit [Snapshotted (cp_Snapshot checkpoint)]
                  (n\<lparr>sequenceNumber := SeqNumber (cp_Number checkpoint)\<rparr>)
           else ret n)"

text \<open>A missing entry of \<open>pendingCheckpoints\<close> reads as a proof with no votes.\<close>

definition proofSize :: "PBFTNode \<Rightarrow> SlotId \<Rightarrow> nat" where
  "proofSize n num =
     (case gget (pendingCheckpoints n) num of None \<Rightarrow> 0 | Some info \<Rightarrow> length (cp_Proof info))"

definition isStable :: "PBFTNode \<Rightarrow> Checkpoint \<Rightarrow> bool" where
  "isStable n checkpoint \<longleftrightarrow>
     BeforeOrEqual (ck_Number checkpoint) (cp_Number (lastCheckpoint n)) \<or>
     proofSize n (ck_Number checkpoint) \<ge> 2 * (length (peermap n) div 3) + 1"

definition handleCheckpointProof :: "pgp \<Rightarrow> SignedCheckpointProof \<Rightarrow> PBFTNode \<Rightarrow> result" where
  "handleCheckpointProof C proof n =
     (let n = n\<lparr>timeoutTimer := map_option (\<lambda>_. newTimer (getTimeout n)) (timeoutTimer n)\<rparr>
      in case SignedCheckpointProof_SignatureValid C (peerEntities n) (peerEntityMap n) proof of
           Inl err \<Rightarrow> ret n
         | Inr sender \<Rightarrow>
             if sender \<noteq> cpm_Node (scp_Message proof) then ret n
             else checkpointed (cpm_Proof (scp_Message proof)) n)"

definition handleCheckpointNoValidation :: "SignedCheckpoint \<Rightarrow> PBFTNode \<Rightarrow> result" where
  "handleCheckpointNoValidation message n =
     (let checkpoint = sck_CheckpointMessage message; num = ck_Number checkpoint
      in if isStable n checkpoint then ret n
         else
           let entry = (case gget (pendingCheckpoints n) num of
                   Some info \<Rightarrow> info
                 | None \<Rightarrow> \<lparr>cp_Number = num, cp_Snapshot = ck_Snapshot checkpoint, cp_Proof = []\<rparr>);
               entry = entry\<lparr>cp_Proof := gput (ck_Node checkpoint) message (cp_Proof entry)\<rparr>;
               n = n\<lparr>pendingCheckpoints := gput num entry (pendingCheckpoints n)\<rparr>
           in if isStable n checkpoint then checkpointed entry n else ret n)"

definition handleCheckpoint :: "pgp \<Rightarrow> SignedCheckpoint \<Rightarrow> PBFTNode \<Rightarrow> result" where
  "handleCheckpoint C message n =
     (case SignedCheckpoint_SignatureValid C (peerEntities n) (peerEntityMap n) message of
        Inl err \<Rightarrow> ret n
      | Inr sender \<Rightarrow>
          if sender \<noteq> ck_Node (sck_CheckpointMessage message) then ret n
          else handleCheckpointNoValidation message n)"

text \<open>\<open>handleRecvSnapshot\<close>: the key node's snapshot for a slot becomes this node's own vote.\<close>

definition handleRecvSnapshot :: "pgp \<Rightarrow> SlotId \<Rightarrow> byte list \<Rightarrow> PBFTNode \<Rightarrow> result" where
  "handleRecvSnapshot C number state n =
     (case Checkpoint_Sign C (node_entity n)
             \<lparr>ck_Number = number, ck_Snapshot = state, ck_Node = node_id n\<rparr> of
        Inl err \<Rightarrow> ret n
      | Inr signedCheckpoint \<Rightarrow>
          andThen (handleCheckpointNoValidation signedCheckpoint n)
            (emit [Broadcast (RpcCheckpoint signedCheckpoint)]))"

definition tryCheckpoint :: "PBFTNode \<Rightarrow> result" where
  "tryCheckpoint n =
     (if sequenceNumber n mod CHECKPOINT \<noteq> 0 then ret n
      else emit [SnapshotRequested (SlotId (viewNumber n) (sequenceNumber n))] n)"

section \<open>What \<open>checkpointed\<close> does\<close>

lemma gget_fold_gdel: "gget (fold gdel ks m) k = (if k \<in> set ks then None else gget m k)"
  by (induction ks arbitrary: m) auto

lemma gwf_fold_gdel: "gwf m \<Longrightarrow> gwf (fold gdel ks m)"
  by (induction ks arbitrary: m) auto

lemma checkpointed_keeps: "holds (\<lambda>m es. keeps C n m) (checkpointed ck n)"
  unfolding checkpointed_def Let_def
  by (auto simp: Before_less not_less gget_fold_gdel gwf_fold_gdel split: if_splits
      intro!: keeps_gget_subset)

lemma checkpointed_stale: "Before (cp_Number ck) (cp_Number (lastCheckpoint n)) \<Longrightarrow> checkpointed ck n = ret n"
  by (simp add: checkpointed_def)

lemma checkpointed_fresh:
  assumes "\<not> Before (cp_Number ck) (cp_Number (lastCheckpoint n))"
  obtains n' es where "checkpointed ck n = Inr (n', es)" "lastCheckpoint n' = ck"
    "\<And>k. gget (pendingCheckpoints n') k =
       (if BeforeOrEqual k (cp_Number ck) then None else gget (pendingCheckpoints n) k)"
    "\<And>k. gget (log n') k =
       (if BeforeOrEqual k (cp_Number ck) \<and> gget (pendingCheckpoints n) k \<noteq> None then None else gget (log n) k)"
    "sequenceNumber n' = max (sequenceNumber n) (SeqNumber (cp_Number ck))"
    "es = (if sequenceNumber n < SeqNumber (cp_Number ck) then [Snapshotted (cp_Snapshot ck)] else [])"
proof -
  let ?r = "projr (checkpointed ck n)"
  have "checkpointed ck n = Inr (fst ?r, snd ?r)"
    by (simp add: checkpointed_def Let_def ret_def emit_def)
  then show ?thesis
    by (rule that) (use assms in \<open>auto simp: checkpointed_def Let_def ret_def emit_def
      gget_fold_gdel set_gkeys\<close>)
qed

lemma checkpointed_returns: "\<exists>n' es. checkpointed ck n = Inr (n', es)"
  by (simp add: checkpointed_def Let_def ret_def emit_def)

section \<open>The handlers keep the invariant\<close>

lemma handleCheckpointNoValidation_returns: "\<exists>n' es. handleCheckpointNoValidation m n = Inr (n', es)"
  unfolding handleCheckpointNoValidation_def Let_def
  by (auto simp: ret_def intro: checkpointed_returns)

lemma handleCheckpointNoValidation_keeps:
  assumes "checkpoint_ok C n (ck_Number (sck_CheckpointMessage m)) (ck_Node (sck_CheckpointMessage m)) m"
  shows "holds (\<lambda>n' es. keeps C n n') (handleCheckpointNoValidation m n)"
proof -
  define num where "num = ck_Number (sck_CheckpointMessage m)"
  define entry where "entry = (case gget (pendingCheckpoints n) num of Some info \<Rightarrow> info
     | None \<Rightarrow> \<lparr>cp_Number = num, cp_Snapshot = ck_Snapshot (sck_CheckpointMessage m), cp_Proof = []\<rparr>)"
  define entry' where "entry' = entry\<lparr>cp_Proof := gput (ck_Node (sck_CheckpointMessage m)) m (cp_Proof entry)\<rparr>"
  define n1 where "n1 = n\<lparr>pendingCheckpoints := gput num entry' (pendingCheckpoints n)\<rparr>"
  have c: "config n1 = config n" by (simp add: n1_def)
  have "pending_ok C n \<Longrightarrow> cp_Number entry' = num \<and> votes_ok (checkpoint_ok C n num) (cp_Proof entry')"
    using assms by (auto simp: entry'_def entry_def pending_ok_def num_def split: option.splits)
  then have k: "keeps C n n1"
    unfolding keeps_def log_ok_def pending_ok_def messages_ok_def ok_config [OF c]
    by (simp add: n1_def)
  have "handleCheckpointNoValidation m n =
      (if isStable n (sck_CheckpointMessage m) then ret n
       else if isStable n1 (sck_CheckpointMessage m) then checkpointed entry' n1 else ret n1)"
    unfolding handleCheckpointNoValidation_def Let_def num_def entry_def entry'_def n1_def
    by (rule refl)
  with k holds_keeps_trans [OF k checkpointed_keeps] show ?thesis by simp
qed

lemma handleCheckpoint_keeps: "holds (\<lambda>n' es. keeps C n n') (handleCheckpoint C m n)"
  unfolding handleCheckpoint_def
  by (auto intro!: handleCheckpointNoValidation_keeps simp: checkpoint_ok_def split: sum.splits)

lemma handleCheckpointProof_keeps: "holds (\<lambda>n' es. keeps C n n') (handleCheckpointProof C m n)"
proof -
  define n1 where "n1 = n\<lparr>timeoutTimer := map_option (\<lambda>_. newTimer (getTimeout n)) (timeoutTimer n)\<rparr>"
  have "keeps C n n1"
    by (rule keeps_frame) (auto simp: n1_def timers_ok_def)
  then show ?thesis
    unfolding handleCheckpointProof_def Let_def n1_def [symmetric]
    by (auto intro: holds_keeps_trans [OF _ checkpointed_keeps] split: sum.splits)
qed

lemma handleRecvSnapshot_keeps: "holds (\<lambda>n' es. keeps C n n') (handleRecvSnapshot C num st n)"
proof (cases "Checkpoint_Sign C (node_entity n) \<lparr>ck_Number = num, ck_Snapshot = st, ck_Node = node_id n\<rparr>")
  case (Inr m)
  from checkpoint.signed_body [OF Inr] Inr
  have "checkpoint_ok C n (ck_Number (sck_CheckpointMessage m)) (ck_Node (sck_CheckpointMessage m)) m"
    by (simp add: checkpoint_ok_def)
  then show ?thesis unfolding handleRecvSnapshot_def Inr
    by (auto intro!: holds_keeps_andThen handleCheckpointNoValidation_keeps)
qed (simp add: handleRecvSnapshot_def)

lemma tryCheckpoint_keeps: "holds (\<lambda>n' es. n' = n) (tryCheckpoint n)"
  by (simp add: tryCheckpoint_def)

end
