(* ===== verification/Normal_Case.thy ===== *)
theory Normal_Case
  imports Checkpointing
begin

text \<open>
  The normal case of the protocol in src/pbft/node.go: a client request, the leader's
  pre-prepare, the prepares and the commits, up to the delivery of a committed request.
\<close>

section \<open>Operations\<close>

text \<open>
  \<open>handleClientRequest\<close> dereferences its argument before it tests it for nil, so the later
  test never succeeds; \<open>GenerateDigest\<close> never returns an error.
\<close>

definition handleClientRequest :: "pgp \<Rightarrow> string option \<Rightarrow> PBFTNode \<Rightarrow> result" where
  "handleClientRequest C request n =
     (if vci_inProgress (viewChange n) then ret n
      else case request of None \<Rightarrow> Inl NilDeref
      | Some req \<Rightarrow>
        let requestDigest = GenerateDigest req
        in if gget (requests n) requestDigest \<noteq> None then ret n
        else
          let n = n\<lparr>requests := gput requestDigest \<lparr>ri_committed = False\<rparr> (requests n)\<rparr>
          in if isPrimary n then
            let n = n\<lparr>issuedSequenceNumber := add64 (issuedSequenceNumber n) 1\<rparr>;
                num = SlotId (viewNumber n) (issuedSequenceNumber n);
                message = \<lparr>pp_Number = num, pp_RequestDigest = requestDigest\<rparr>
            in case PrePrepare_Sign C (node_entity n) message of
                 Inl err \<Rightarrow> ret n
               | Inr signedMessage \<Rightarrow>
                   emit [Broadcast (RpcPrePrepare
                       \<lparr>fpp_SignedMessage = signedMessage, fpp_Request = req\<rparr>)]
                     (putSlot num \<lparr>s_request = Some req, s_requestDigest = requestDigest,
                       s_preprepare = Some signedMessage, s_prepares = [], s_commits = [],
                       s_prepared = False, s_committed = False\<rparr> n)
          else emit [Broadcast (RpcClientRequest req)] n)"

text \<open>
  The part of \<open>handlePrePrepare\<close> after the four acceptance tests: the slot takes the request
  and the pre-prepare, and the node's own prepare is filed and broadcast.
\<close>

definition acceptPrePrepare :: "pgp \<Rightarrow> FullPrePrepare \<Rightarrow> PBFTNode \<Rightarrow> result" where
  "acceptPrePrepare C preprepare n =
     (let m = spp_PrePrepareMessage (fpp_SignedMessage preprepare);
          num = pp_Number m;
          newSeqNum = SeqNumber num;
          n = (if newSeqNum > issuedSequenceNumber n then n\<lparr>issuedSequenceNumber := newSeqNum\<rparr> else n);
          slot = (slotAt n num)\<lparr>s_request := Some (fpp_Request preprepare),
             s_requestDigest := pp_RequestDigest m,
             s_preprepare := Some (fpp_SignedMessage preprepare)\<rparr>;
          n = putSlot num slot n
      in case Prepare_Sign C (node_entity n)
            \<lparr>p_Number = num, p_RequestDigest = pp_RequestDigest m, p_Node = node_id n\<rparr> of
           Inl err \<Rightarrow> ret n
         | Inr signedMessage \<Rightarrow>
             emit [Broadcast (RpcPrepare signedMessage)]
               (putSlot num (slot\<lparr>s_prepares := gput (node_id n) signedMessage (s_prepares slot)\<rparr>) n))"

definition handlePrePrepare :: "pgp \<Rightarrow> FullPrePrepare \<Rightarrow> PBFTNode \<Rightarrow> result" where
  "handlePrePrepare C preprepare n =
     (if vci_inProgress (viewChange n) \<or> isPrimary n then ret n
      else
        let m = spp_PrePrepareMessage (fpp_SignedMessage preprepare);
            sameView = (ViewNumber (pp_Number m) = viewNumber n)
        in case SignedPrePrepare_SignatureValid C (peerEntities n) (peerEntityMap n)
                  (fpp_SignedMessage preprepare) of
             Inl err \<Rightarrow> ret n
           | Inr sendingNode \<Rightarrow>
             if sameView \<and> sendingNode \<noteq> fst (getPrimary n) then ret n
             else case timeoutTimer n of None \<Rightarrow> Inl NilDeref
             | Some _ \<Rightarrow>
               let n = n\<lparr>timeoutTimer := Some (newTimer (getTimeout n))\<rparr>
               in if m = zeroPrePrepare then ret n
               else if ViewNumber (pp_Number m) \<noteq> viewNumber n then ret n
               else if SeqNumber (pp_Number m) >
                     add64 (SeqNumber (cp_Number (lastCheckpoint n))) (CHECKPOINT * 3) \<or>
                   SeqNumber (pp_Number m) \<le> SeqNumber (cp_Number (lastCheckpoint n)) then ret n
               else if pp_RequestDigest m \<noteq> GenerateDigest (fpp_Request preprepare) then ret n
               else
                 let n = ensureMapping (pp_Number m) n
                 in if s_request (slotAt n (pp_Number m)) \<noteq> None then ret n
                    else acceptPrePrepare C preprepare n)"

text \<open>A digest that does not match the slot's is logged and the vote is counted all the same.\<close>

definition handlePrepare :: "pgp \<Rightarrow> SignedPrepare \<Rightarrow> PBFTNode \<Rightarrow> result" where
  "handlePrepare C message n =
     (if vci_inProgress (viewChange n) then ret n
      else case SignedPrepare_SignatureValid C (peerEntities n) (peerEntityMap n) message of
          Inl err \<Rightarrow> ret n
        | Inr sender \<Rightarrow>
          let prepare = sp_PrepareMessage message; num = p_Number prepare
          in if sender \<noteq> p_Node prepare then ret n
          else
            let slot = slotAt n num;
                slot = slot\<lparr>s_prepares := gput (p_Node prepare) message (s_prepares slot)\<rparr>;
                n = putSlot num slot n
            in if isPrepared n slot then
                 let slot = slot\<lparr>s_prepared := True\<rparr>;
                     n = putSlot num slot n
                 in case Commit_Sign C (node_entity n)
                      \<lparr>c_Number = num, c_RequestDigest = p_RequestDigest prepare, c_Node = node_id n\<rparr> of
                      Inl err \<Rightarrow> ret n
                    | Inr signedMessage \<Rightarrow>
                        emit [Broadcast (RpcCommit signedMessage)]
                          (putSlot num (slot\<lparr>s_commits := gput (node_id n) signedMessage (s_commits slot)\<rparr>) n)
               else ret n)"

definition handleCommit :: "pgp \<Rightarrow> SignedCommit \<Rightarrow> PBFTNode \<Rightarrow> result" where
  "handleCommit C message n =
     (if vci_inProgress (viewChange n) then ret n
      else case SignedCommit_SignatureValid C (peerEntities n) (peerEntityMap n) message of
          Inl err \<Rightarrow> ret n
        | Inr sender \<Rightarrow>
          let commit = sc_CommitMessage message; num = c_Number commit
          in if sender \<noteq> c_Node commit then ret n
          else if Before num (cp_Number (lastCheckpoint n)) then ret n
          else
            let slot = slotAt n num;
                slot = slot\<lparr>s_commits := gput (c_Node commit) message (s_commits slot)\<rparr>;
                nowCommitted = (\<not> s_committed slot \<and> isCommitted n slot);
                slot = (if nowCommitted then slot\<lparr>s_committed := True\<rparr> else slot);
                n = (if nowCommitted \<and> SeqNumber num > sequenceNumber n
                     then n\<lparr>sequenceNumber := SeqNumber num\<rparr> else n);
                n = putSlot num slot n
            in if nowCommitted then andThen (emit [Committed (s_request slot)] n) tryCheckpoint
               else ret n)"

section \<open>The handlers keep the invariant\<close>

lemma handleClientRequest_keeps: "holds (\<lambda>n' es. keeps C n n') (handleClientRequest C r n)"
proof -
  have frame: "keeps C n (n\<lparr>requests := gput d v (requests n)\<rparr>)"
    "keeps C n (n\<lparr>requests := gput d v (requests n), issuedSequenceNumber := i\<rparr>)"
    for d v i by (rule keeps_frame; simp add: requests_grow_def)+
  have new: "keeps C n (putSlot k \<lparr>s_request = Some req, s_requestDigest = d, s_preprepare = Some pp,
      s_prepares = [], s_commits = [], s_prepared = False, s_committed = False\<rparr>
      (n\<lparr>requests := gput d v (requests n), issuedSequenceNumber := i\<rparr>))" for k req d pp v i
    by (rule keeps_trans [OF frame(2) keeps_putSlot]) (simp add: slot_ok_def)
  show ?thesis
    unfolding handleClientRequest_def Let_def
    by (auto simp: frame new split: option.splits sum.splits)
qed

lemma isPrepared_more:
  "isPrepared n s \<Longrightarrow> s_preprepare s' = s_preprepare s \<Longrightarrow>
    length (s_prepares s) \<le> length (s_prepares s') \<Longrightarrow> isPrepared n s'"
  by (simp add: isPrepared_def)

lemma isCommitted_more:
  "isCommitted n s \<Longrightarrow> length (s_commits s) \<le> length (s_commits s') \<Longrightarrow> isCommitted n s'"
  by (simp add: isCommitted_def)

text \<open>Filing an authentic vote, accepting a pre-prepare and setting a flag keep a slot well-formed.\<close>

lemma slot_ok_prepare:
  assumes "slot_ok C n k s" "prepare_ok C n k i m"
  shows "slot_ok C n k (s\<lparr>s_prepares := gput i m (s_prepares s)\<rparr>)"
proof -
  have "length (s_prepares s) \<le> length (gput i m (s_prepares s))"
    using assms(1) gm.size_put_mono by (auto simp: slot_ok_def votes_ok_def)
  with assms show ?thesis
    by (auto simp: slot_ok_def isCommitted_def intro: isPrepared_more)
qed

lemma slot_ok_commit:
  assumes "slot_ok C n k s" "commit_ok C n k i m"
  shows "slot_ok C n k (s\<lparr>s_commits := gput i m (s_commits s)\<rparr>)"
proof -
  have "length (s_commits s) \<le> length (gput i m (s_commits s))"
    using assms(1) gm.size_put_mono by (auto simp: slot_ok_def votes_ok_def)
  with assms show ?thesis
    by (auto simp: slot_ok_def isPrepared_def intro: isCommitted_more)
qed

lemma slot_ok_accept:
  "slot_ok C n k s \<Longrightarrow> slot_ok C n k (s\<lparr>s_request := Some r, s_requestDigest := d, s_preprepare := Some pp\<rparr>)"
  by (auto simp: slot_ok_def isPrepared_def isCommitted_def)

lemma slot_ok_prepared: "slot_ok C n k s \<Longrightarrow> isPrepared n s \<Longrightarrow> slot_ok C n k (s\<lparr>s_prepared := True\<rparr>)"
  by (auto simp: slot_ok_def isPrepared_def isCommitted_def)

lemma slot_ok_committed: "slot_ok C n k s \<Longrightarrow> isCommitted n s \<Longrightarrow> slot_ok C n k (s\<lparr>s_committed := True\<rparr>)"
  by (auto simp: slot_ok_def isPrepared_def isCommitted_def)

lemmas slot_ok_intros = slot_ok_prepare slot_ok_commit slot_ok_accept slot_ok_prepared slot_ok_committed

lemma own_prepare_ok:
  "Prepare_Sign C (node_entity n) \<lparr>p_Number = k, p_RequestDigest = d, p_Node = node_id n\<rparr> = Inr m \<Longrightarrow>
     prepare_ok C n k (node_id n) m"
  using prepare.signed_body by (force simp: prepare_ok_def)

lemma own_commit_ok:
  "Commit_Sign C (node_entity n) \<lparr>c_Number = k, c_RequestDigest = d, c_Node = node_id n\<rparr> = Inr m \<Longrightarrow>
     commit_ok C n k (node_id n) m"
  using commit.signed_body by (force simp: commit_ok_def)

lemma acceptPrePrepare_keeps: "holds (\<lambda>n' es. keeps C n n') (acceptPrePrepare C pp n)"
proof -
  define m where "m = spp_PrePrepareMessage (fpp_SignedMessage pp)"
  define num where "num = pp_Number m"
  define n1 where "n1 = (if SeqNumber num > issuedSequenceNumber n
      then n\<lparr>issuedSequenceNumber := SeqNumber num\<rparr> else n)"
  define slot where "slot = (slotAt n1 num)\<lparr>s_request := Some (fpp_Request pp),
      s_requestDigest := pp_RequestDigest m, s_preprepare := Some (fpp_SignedMessage pp)\<rparr>"
  have n1: "keeps C n n1"
    unfolding n1_def by (simp add: keeps_frame)
  have same: "slotAt n1 num = slotAt n num" "node_id n1 = node_id n" "node_entity n1 = node_entity n"
    by (simp_all add: n1_def slotAt_def)
  have slot: "log_ok C n \<Longrightarrow> slot_ok C n num slot"
    unfolding slot_def same by (intro slot_ok_accept log_ok_slot)
  have eq: "acceptPrePrepare C pp n =
     (case Prepare_Sign C (node_entity n)
            \<lparr>p_Number = num, p_RequestDigest = pp_RequestDigest m, p_Node = node_id n\<rparr> of
        Inl err \<Rightarrow> ret (putSlot num slot n1)
      | Inr sm \<Rightarrow> emit [Broadcast (RpcPrepare sm)]
          (putSlot num (slot\<lparr>s_prepares := gput (node_id n) sm (s_prepares slot)\<rparr>) (putSlot num slot n1)))"
    by (simp add: acceptPrePrepare_def Let_def m_def num_def n1_def slot_def split: sum.splits)
  show ?thesis
    unfolding eq
    by (auto split: sum.splits intro!: keeps_then_put n1 slot slot_ok_prepare own_prepare_ok)
qed

lemma handlePrePrepare_keeps: "holds (\<lambda>n' es. keeps C n n') (handlePrePrepare C pp n)"
proof -
  have t: "keeps C n (n\<lparr>timeoutTimer := Some t\<rparr>)" for t
    by (rule keeps_frame) (auto simp: timers_ok_def)
  show ?thesis
    unfolding handlePrePrepare_def Let_def
    by (auto split: sum.splits option.splits simp: t
        intro!: keeps_trans [OF t keeps_ensureMapping]
          holds_keeps_trans [OF keeps_trans [OF t keeps_ensureMapping] acceptPrePrepare_keeps])
qed

lemma handlePrepare_keeps: "holds (\<lambda>n' es. keeps C n n') (handlePrepare C m n)"
proof -
  define num where "num = p_Number (sp_PrepareMessage m)"
  define node where "node = p_Node (sp_PrepareMessage m)"
  define slot where "slot = (slotAt n num)\<lparr>s_prepares := gput node m (s_prepares (slotAt n num))\<rparr>"
  define n1 where "n1 = putSlot num slot n"
  define slot2 where "slot2 = slot\<lparr>s_prepared := True\<rparr>"
  show ?thesis
  proof (cases "\<not> vci_inProgress (viewChange n) \<and>
      SignedPrepare_SignatureValid C (peerEntities n) (peerEntityMap n) m = Inr node")
    case False
    then show ?thesis
      unfolding handlePrepare_def Let_def by (auto simp: node_def split: sum.splits)
  next
    case True
    then have ok: "prepare_ok C n num node m"
      by (simp add: prepare_ok_def num_def node_def)
    then have slot: "log_ok C n \<Longrightarrow> slot_ok C n num slot"
      unfolding slot_def by (intro slot_ok_prepare log_ok_slot)
    have n1: "keeps C n n1" unfolding n1_def by (rule keeps_putSlot [OF slot])
    have p: "isPrepared n1 slot = isPrepared n slot"
      by (simp add: isPrepared_def n1_def)
    have slot2: "isPrepared n slot \<Longrightarrow> log_ok C n \<Longrightarrow> slot_ok C n num slot2"
      unfolding slot2_def by (intro slot_ok_prepared slot)
    have eq: "handlePrepare C m n =
       (if isPrepared n slot then
          case Commit_Sign C (node_entity n) \<lparr>c_Number = num,
                 c_RequestDigest = p_RequestDigest (sp_PrepareMessage m), c_Node = node_id n\<rparr> of
            Inl err \<Rightarrow> ret (putSlot num slot2 n1)
          | Inr sm \<Rightarrow> emit [Broadcast (RpcCommit sm)]
              (putSlot num (slot2\<lparr>s_commits := gput (node_id n) sm (s_commits slot2)\<rparr>) (putSlot num slot2 n1))
        else ret n1)"
      using True p
      by (simp add: handlePrepare_def Let_def num_def node_def slot_def slot2_def n1_def split: sum.splits)
    show ?thesis
      unfolding eq
      by (auto split: sum.splits intro!: keeps_then_put n1 slot2 slot_ok_commit own_commit_ok)
  qed
qed

lemma handleCommit_keeps: "holds (\<lambda>n' es. keeps C n n') (handleCommit C m n)"
proof -
  define num where "num = c_Number (sc_CommitMessage m)"
  define node where "node = c_Node (sc_CommitMessage m)"
  define slot where "slot = (slotAt n num)\<lparr>s_commits := gput node m (s_commits (slotAt n num))\<rparr>"
  show ?thesis
  proof (cases "\<not> vci_inProgress (viewChange n) \<and>
      SignedCommit_SignatureValid C (peerEntities n) (peerEntityMap n) m = Inr node")
    case False
    then show ?thesis
      unfolding handleCommit_def Let_def by (auto simp: node_def split: sum.splits)
  next
    case True
    then have ok: "commit_ok C n num node m"
      by (simp add: commit_ok_def num_def node_def)
    then have slot: "log_ok C n \<Longrightarrow> slot_ok C n num slot"
      unfolding slot_def by (intro slot_ok_commit log_ok_slot)
    then have slot2: "isCommitted n slot \<Longrightarrow> log_ok C n \<Longrightarrow> slot_ok C n num (slot\<lparr>s_committed := True\<rparr>)"
      by (intro slot_ok_committed)
    have f: "keeps C n (n\<lparr>sequenceNumber := i\<rparr>)" for i by (rule keeps_frame; simp)
    show ?thesis
      using True
      unfolding handleCommit_def Let_def num_def [symmetric] node_def [symmetric] slot_def [symmetric]
      by (auto split: sum.splits simp: tryCheckpoint_def andThen_def
          intro!: keeps_then_put f slot slot2 keeps_putSlot)
  qed
qed

end
