(* ===== verification/Heartbeat.thy ===== *)
theory Heartbeat
  imports Normal_Case
begin

text \<open>
  The heartbeat of src/pbft/node.go: the leader's timer sends every peer the message it needs
  next (a new view, a no-op, a checkpoint, or the next pre-prepare), and the callbacks of
  these calls record how far the peer is.
\<close>

section \<open>Operations\<close>

definition heartbeatMessage :: "pgp \<Rightarrow> int \<Rightarrow> PBFTNode \<Rightarrow> fault + rpc" where
  "heartbeatMessage C peerSequence n =
     (if sequenceNumber n = peerSequence then
        (case PrePrepare_Sign C (node_entity n) zeroPrePrepare of
           Inl err \<Rightarrow> Inl Fatal
         | Inr signedMessage \<Rightarrow>
             Inr (RpcPrePrepare \<lparr>fpp_SignedMessage = signedMessage, fpp_Request = []\<rparr>))
      else if peerSequence < SeqNumber (cp_Number (lastCheckpoint n)) then
        (case CheckpointProofMessage_Sign C (node_entity n)
                \<lparr>cpm_Proof = lastCheckpoint n, cpm_Node = node_id n\<rparr> of
           Inl err \<Rightarrow> Inl Fatal
         | Inr signedMessage \<Rightarrow> Inr (RpcCheckpointProof signedMessage))
      else
        (case gget (log n) (SlotId (viewNumber n) (add64 peerSequence 1)) of
           None \<Rightarrow> Inl NilDeref
         | Some slot \<Rightarrow>
             (case (s_preprepare slot, s_request slot) of
                (Some pp, Some req) \<Rightarrow> Inr (RpcPrePrepare \<lparr>fpp_SignedMessage = pp, fpp_Request = req\<rparr>)
              | _ \<Rightarrow> Inl NilDeref)))"

text \<open>The message \<open>*n.newView\<close>: its \<open>ViewChanges\<close> may be the live map of view-change messages.\<close>

definition currentNewView :: "PBFTNode \<Rightarrow> NewView" where
  "currentNewView n =
     (if newViewShared n then (newView n)\<lparr>nv_ViewChanges := vci_messages (viewChange n)\<rparr> else newView n)"

text \<open>A missing entry of \<open>caughtUp\<close> reads as 0.\<close>

definition caughtUpOf :: "PBFTNode \<Rightarrow> NodeId \<Rightarrow> int" where
  "caughtUpOf n p = (case gget (caughtUp n) p of None \<Rightarrow> 0 | Some s \<Rightarrow> s)"

text \<open>The loop over the peers: it stops early, with what was sent, when a new view cannot be signed.\<close>

fun heartbeats :: "pgp \<Rightarrow> PBFTNode \<Rightarrow> NodeId list \<Rightarrow> fault + effect list" where
  "heartbeats C n [] = Inr []"
| "heartbeats C n (p # rest) =
     (if caughtUpOf n p = 0 then
        (case NewView_Sign C (node_entity n) (currentNewView n) of
           Inl err \<Rightarrow> Inr []
         | Inr signedMessage \<Rightarrow>
             (case heartbeats C n rest of
                Inl f \<Rightarrow> Inl f | Inr es \<Rightarrow> Inr (SendTo p (RpcNewView signedMessage) # es)))
      else
        (case heartbeatMessage C (caughtUpOf n p) n of
           Inl f \<Rightarrow> Inl f
         | Inr msg \<Rightarrow>
             (case heartbeats C n rest of Inl f \<Rightarrow> Inl f | Inr es \<Rightarrow> Inr (SendTo p msg # es))))"

definition sendHeartbeat :: "pgp \<Rightarrow> PBFTNode \<Rightarrow> result" where
  "sendHeartbeat C n =
     (if \<not> isPrimary n then ret n
      else case heartbeats C n (gkeys (peermap n)) of Inl f \<Rightarrow> Inl f | Inr es \<Rightarrow> emit es n)"

text \<open>The callbacks; \<open>err\<close> is the error of the call, if any.\<close>

definition afterNewView :: "NodeId \<Rightarrow> string option \<Rightarrow> PBFTNode \<Rightarrow> PBFTNode" where
  "afterNewView p err n = (if err = None then n\<lparr>caughtUp := gput p 1 (caughtUp n)\<rparr> else n)"

definition afterHeartbeat :: "pgp \<Rightarrow> NodeId \<Rightarrow> SignedPPResponse \<Rightarrow> string option \<Rightarrow> PBFTNode \<Rightarrow> PBFTNode" where
  "afterHeartbeat C p response err n =
     (if err \<noteq> None then n
      else case SignedPPResponse_SignatureValid C (peerEntities n) (peerEntityMap n) response of
          Inl _ \<Rightarrow> n
        | Inr respId \<Rightarrow>
            if respId \<noteq> p then n
            else n\<lparr>caughtUp := gput p (ppr_SeqNumber (sppr_Response response)) (caughtUp n)\<rparr>)"

section \<open>The handlers keep the invariant\<close>

lemma sendHeartbeat_keeps: "holds (\<lambda>n' es. keeps C n n') (sendHeartbeat C n)"
  by (auto simp: sendHeartbeat_def split: sum.splits)

lemma sendHeartbeat_same: "holds (\<lambda>n' es. n' = n) (sendHeartbeat C n)"
  by (auto simp: sendHeartbeat_def split: sum.splits)

lemma afterNewView_keeps: "keeps C n (afterNewView p err n)"
  by (auto simp: afterNewView_def intro!: keeps_frame)

lemma afterHeartbeat_keeps: "keeps C n (afterHeartbeat C p r err n)"
  by (auto simp: afterHeartbeat_def intro!: keeps_frame split: sum.splits)

end
