(* ===== verification/View_Change.thy ===== *)
theory View_Change
  imports Heartbeat
begin

text \<open>
  src/pbft/view_change.go: starting a view change, collecting the votes for a view, what the
  new leader proposes again, and entering the view.
\<close>

section \<open>Starting a view change\<close>

text \<open>
  The loop of \<open>generateProofsSinceCheckpoint\<close>; it dereferences the request and the
  pre-prepare of every prepared slot.
\<close>

fun proofs_loop :: "PBFTNode \<Rightarrow> (SlotId, Slot) gomap \<Rightarrow> PreparedProofMap \<Rightarrow> fault + PreparedProofMap" where
  "proofs_loop n [] proofs = Inr proofs"
| "proofs_loop n ((num, slot) # rest) proofs =
     (if Before (cp_Number (lastCheckpoint n)) num \<and> isPrepared n slot then
        (case (s_request slot, s_preprepare slot) of
           (Some req, Some pp) \<Rightarrow>
             proofs_loop n rest (gput num
               \<lparr>pr_Number = num, pr_Request = req, pr_Preprepare = pp,
                pr_RequestDigest = s_requestDigest slot, pr_Prepares = s_prepares slot\<rparr> proofs)
         | _ \<Rightarrow> Inl NilDeref)
      else proofs_loop n rest proofs)"

definition generateProofsSinceCheckpoint :: "PBFTNode \<Rightarrow> fault + PreparedProofMap" where
  "generateProofsSinceCheckpoint n = proofs_loop n (log n) []"

definition startViewChange :: "pgp \<Rightarrow> int \<Rightarrow> PBFTNode \<Rightarrow> result" where
  "startViewChange C view n =
     (if down n then ret n
      else if vci_viewNumber (viewChange n) > view \<or>
              vci_inProgress (viewChange n) \<and> vci_viewNumber (viewChange n) = view then ret n
      else
        let n = n\<lparr>viewChange := (viewChange n)\<lparr>vci_inProgress := True, vci_viewNumber := view\<rparr>\<rparr>
        in case generateProofsSinceCheckpoint n of
             Inl f \<Rightarrow> Inl f
           | Inr proofs \<Rightarrow>
               (case ViewChange_Sign C (node_entity n)
                   \<lparr>vc_ViewNumber = view, vc_Checkpoint = cp_Number (lastCheckpoint n),
                    vc_CheckpointProof = cp_Proof (lastCheckpoint n), vc_Proofs = proofs,
                    vc_Node = node_id n\<rparr> of
                  Inl err \<Rightarrow> ret n
                | Inr signedMessage \<Rightarrow>
                    emit [Broadcast (RpcViewChange signedMessage)] (stopTimers n)))"

definition enterNewView :: "int \<Rightarrow> PBFTNode \<Rightarrow> PBFTNode" where
  "enterNewView view n =
     startTimers (n\<lparr>viewChange := (viewChange n)\<lparr>vci_inProgress := False\<rparr>, viewNumber := view,
       sequenceNumber := (if SeqNumber (cp_Number (lastCheckpoint n)) > 1
         then SeqNumber (cp_Number (lastCheckpoint n)) else 1)\<rparr>)"

section \<open>What the new leader proposes again\<close>

record requestView =
  rv_request :: string
  rv_requestDigest :: "byte list"
  rv_view :: int

text \<open>The inner loop over the proofs of one view-change message.\<close>

fun collect_proofs ::
  "PreparedProofMap \<Rightarrow> int \<Rightarrow> (int, requestView) gomap \<Rightarrow> int \<times> (int, requestView) gomap" where
  "collect_proofs [] maxS seqNums = (maxS, seqNums)"
| "collect_proofs ((num, proof) # rest) maxS seqNums =
     (let reqInfo = \<lparr>rv_request = pr_Request proof, rv_requestDigest = pr_RequestDigest proof,
            rv_view = ViewNumber num\<rparr>;
          seqNums = (case gget seqNums (SeqNumber num) of
              Some prevReqInfo \<Rightarrow>
                if rv_view reqInfo > rv_view prevReqInfo then gput (SeqNumber num) reqInfo seqNums else seqNums
            | None \<Rightarrow> gput (SeqNumber num) reqInfo seqNums)
      in collect_proofs rest (if maxS < SeqNumber num then SeqNumber num else maxS) seqNums)"

text \<open>The outer loop over the view-change messages.\<close>

fun collect_messages ::
  "(NodeId, SignedViewChange) gomap \<Rightarrow> int \<Rightarrow> int \<Rightarrow> (int, requestView) gomap \<Rightarrow>
     int \<times> int \<times> (int, requestView) gomap" where
  "collect_messages [] minS maxS seqNums = (minS, maxS, seqNums)"
| "collect_messages ((_, vc) # rest) minS maxS seqNums =
     (let ckSeq = SeqNumber (vc_Checkpoint (svc_Message vc));
          minS = (if ckSeq > minS then ckSeq else minS)
      in case collect_proofs (vc_Proofs (svc_Message vc)) maxS seqNums of
           (maxS, seqNums) \<Rightarrow> collect_messages rest minS maxS seqNums)"

text \<open>One round of the loop over the sequence numbers: the request and the digest to propose.\<close>

definition newview_choice :: "(int, requestView) gomap \<Rightarrow> int \<Rightarrow> string \<times> byte list" where
  "newview_choice seqNums s =
     (case gget seqNums s of
        Some reqInfo \<Rightarrow> (rv_request reqInfo, rv_requestDigest reqInfo)
      | None \<Rightarrow> ([], GenerateDigest []))"

definition newview_round :: "pgp \<Rightarrow> int \<Rightarrow> int \<Rightarrow> (int, requestView) gomap \<Rightarrow>
    PBFTNode \<times> NewViewPrePrepareMap \<Rightarrow> fault + PBFTNode \<times> NewViewPrePrepareMap" where
  "newview_round C view s seqNums st =
     (case st of (n, preprepares) \<Rightarrow>
        let slotId = SlotId view s;
            (request, requestDigest) = newview_choice seqNums s
        in case PrePrepare_Sign C (node_entity n) \<lparr>pp_Number = slotId, pp_RequestDigest = requestDigest\<rparr> of
             Inl err \<Rightarrow> Inl Fatal
           | Inr signedMessage \<Rightarrow>
               Inr (putSlot slotId \<lparr>s_request = Some request, s_requestDigest = requestDigest,
                      s_preprepare = Some signedMessage, s_prepares = [], s_commits = [],
                      s_prepared = False, s_committed = False\<rparr> n,
                    gput slotId \<lparr>fpp_SignedMessage = signedMessage, fpp_Request = request\<rparr> preprepares))"

text \<open>
  The loop \<open>for s := minS; s <= maxS; s++\<close>. The counter wraps, so with \<open>maxS\<close> the largest
  \<open>int\<close> the loop never ends: \<open>None\<close>.
\<close>

partial_function (option) newview_loop :: "pgp \<Rightarrow> int \<Rightarrow> int \<Rightarrow> int \<Rightarrow> (int, requestView) gomap \<Rightarrow>
    PBFTNode \<times> NewViewPrePrepareMap \<Rightarrow> (fault + PBFTNode \<times> NewViewPrePrepareMap) option" where
  "newview_loop C view s maxS seqNums st =
     (if s \<le> maxS then
        (case newview_round C view s seqNums st of
           Inl f \<Rightarrow> Some (Inl f)
         | Inr st' \<Rightarrow> newview_loop C view (add64 s 1) maxS seqNums st')
      else Some (Inr st))"

definition generatePrepreparesForNewView ::
  "pgp \<Rightarrow> int \<Rightarrow> PBFTNode \<Rightarrow> fault + PBFTNode \<times> NewViewPrePrepareMap" where
  "generatePrepreparesForNewView C view n =
     (let ck = SeqNumber (cp_Number (lastCheckpoint n))
      in case collect_messages (vci_messages (viewChange n)) ck ck [] of
           (minS, maxS, seqNums) \<Rightarrow>
             (case (if minS < maxS then newview_loop C view minS maxS seqNums (n, []) else Some (Inr (n, []))) of
                None \<Rightarrow> Inl Diverges
              | Some (Inl f) \<Rightarrow> Inl f
              | Some (Inr (n, preprepares)) \<Rightarrow>
                  Inr (if maxS > issuedSequenceNumber n then n\<lparr>issuedSequenceNumber := maxS\<rparr> else n,
                       preprepares)))"

section \<open>Handlers\<close>

text \<open>The loop that counts the messages for later views and finds the lowest of these views.\<close>

fun higher_views :: "int \<Rightarrow> (NodeId, SignedViewChange) gomap \<Rightarrow> nat \<Rightarrow> int \<Rightarrow> nat \<times> int" where
  "higher_views currentView [] higherThanCurrent lowestNewView = (higherThanCurrent, lowestNewView)"
| "higher_views currentView ((_, msg) # rest) higherThanCurrent lowestNewView =
     (let v = vc_ViewNumber (svc_Message msg)
      in if v > currentView then
           higher_views currentView rest (higherThanCurrent + 1) (if v < lowestNewView then v else lowestNewView)
         else higher_views currentView rest higherThanCurrent lowestNewView)"

definition countVotes :: "int \<Rightarrow> (NodeId, SignedViewChange) gomap \<Rightarrow> nat" where
  "countVotes view msgs = length (filter (\<lambda>(_, msg). vc_ViewNumber (svc_Message msg) = view) msgs)"

definition currentView :: "PBFTNode \<Rightarrow> int" where
  "currentView n = (if vci_inProgress (viewChange n) then vci_viewNumber (viewChange n) else viewNumber n)"

text \<open>The new leader's part: build the new view, enter it and announce it.\<close>

definition leadNewView :: "pgp \<Rightarrow> int \<Rightarrow> PBFTNode \<Rightarrow> result" where
  "leadNewView C view n =
     (case generatePrepreparesForNewView C view n of
        Inl f \<Rightarrow> Inl f
      | Inr (n, preprepares) \<Rightarrow>
          let n = n\<lparr>newView := \<lparr>nv_ViewNumber = view, nv_ViewChanges = vci_messages (viewChange n),
                      nv_PrePrepares = preprepares, nv_Node = node_id n\<rparr>,
                    newViewShared := True,
                    caughtUp := fold (\<lambda>p m. gput p 0 m) (gkeys (peermap n)) (caughtUp n)\<rparr>
          in sendHeartbeat C (enterNewView view n))"

definition handleViewChange :: "pgp \<Rightarrow> SignedViewChange \<Rightarrow> PBFTNode \<Rightarrow> result" where
  "handleViewChange C message n =
     (case SignedViewChange_SignatureValid C (peerEntities n) (peerEntityMap n) message of
        Inl err \<Rightarrow> ret n
      | Inr sender \<Rightarrow>
        let vc = svc_Message message
        in if sender \<noteq> vc_Node vc then ret n
        else
          let cur = currentView n;
              n = n\<lparr>viewChange := (viewChange n)\<lparr>vci_messages := gput (vc_Node vc) message (vci_messages (viewChange n))\<rparr>\<rparr>;
              (higherThanCurrent, lowestNewView) =
                higher_views cur (vci_messages (viewChange n)) 0 (vc_ViewNumber vc)
          in if vc_ViewNumber vc > cur \<and> higherThanCurrent \<ge> length (peermap n) div 3 + 1 then
               startViewChange C lowestNewView n
             else if vci_inProgress (viewChange n) \<and>
                  LeaderFor (cluster n) (vc_ViewNumber vc) = Inr (node_id n) \<and>
                  countVotes (vc_ViewNumber vc) (vci_messages (viewChange n)) \<ge> 2 * length (peermap n) div 3 then
               leadNewView C (vc_ViewNumber vc) n
             else ret n)"

text \<open>
  \<open>handleNewView\<close> passes \<open>&preprepare\<close>, the address of its loop variable, to
  \<open>handlePrePrepare\<close>, which stores pointers to two fields of it. With the loop variables of
  Go before 1.22 there is one variable for the whole loop: every slot that accepted its
  pre-prepare in this loop (\<open>aliased\<close>) sees each later assignment of the variable.
\<close>

definition assignLoopVar :: "FullPrePrepare \<Rightarrow> SlotId list \<Rightarrow> PBFTNode \<Rightarrow> PBFTNode" where
  "assignLoopVar pp aliased n =
     fold (\<lambda>k n. putSlot k ((slotAt n k)\<lparr>s_request := Some (fpp_Request pp),
       s_preprepare := Some (fpp_SignedMessage pp)\<rparr>) n) aliased n"

fun newview_preprepares :: "pgp \<Rightarrow> NewViewPrePrepareMap \<Rightarrow> SlotId list \<Rightarrow> PBFTNode \<Rightarrow> result" where
  "newview_preprepares C [] aliased n = ret n"
| "newview_preprepares C ((_, preprepare) # rest) aliased n =
     (let n = assignLoopVar preprepare aliased n;
          num = pp_Number (spp_PrePrepareMessage (fpp_SignedMessage preprepare))
      in if SeqNumber num > sequenceNumber n then
           andThen (handlePrePrepare C preprepare n) (\<lambda>n'.
             newview_preprepares C rest
               (if s_request (slotAt n num) = None \<and> s_request (slotAt n' num) \<noteq> None
                then num # aliased else aliased) n')
         else newview_preprepares C rest aliased n)"

text \<open>The check of the message's signature is commented out in the source.\<close>

definition handleNewView :: "pgp \<Rightarrow> SignedNewView \<Rightarrow> PBFTNode \<Rightarrow> result" where
  "handleNewView C message n =
     (let newViewMessage = snv_Message message; view = nv_ViewNumber newViewMessage
      in if vci_inProgress (viewChange n) \<and> view = vci_viewNumber (viewChange n) \<or> view > currentView n
         then newview_preprepares C (nv_PrePrepares newViewMessage) [] (enterNewView view n)
         else ret n)"

section \<open>The proofs of prepared requests\<close>

lemma proofs_loop_returns:
  assumes "\<And>k s. (k, s) \<in> set entries \<Longrightarrow> slot_ok C n k s"
  shows "\<exists>proofs. proofs_loop n entries acc = Inr proofs"
  using assms
proof (induction entries arbitrary: acc)
  case Nil
  then show ?case by simp
next
  case (Cons e rest)
  obtain num slot where e: "e = (num, slot)" by (cases e)
  have "slot_ok C n num slot" using Cons.prems e by simp
  then have "isPrepared n slot \<Longrightarrow> \<exists>req pp. s_request slot = Some req \<and> s_preprepare slot = Some pp"
    by (auto simp: slot_ok_def isPrepared_def)
  then show ?case using Cons e by (auto split: option.splits)
qed

lemma generateProofs_returns: "log_ok C n \<Longrightarrow> \<exists>proofs. generateProofsSinceCheckpoint n = Inr proofs"
  unfolding generateProofsSinceCheckpoint_def log_ok_def
  by (rule proofs_loop_returns) (auto dest: in_set_gget)

section \<open>The handlers keep the invariant\<close>

lemma keeps_enterNewView: "keeps C n (enterNewView view n)"
  unfolding enterNewView_def by (rule keeps_frame) simp_all

lemma keeps_viewChange: "vci_messages vc = vci_messages (viewChange n) \<Longrightarrow> keeps C n (n\<lparr>viewChange := vc\<rparr>)"
  by (rule keeps_frame) simp_all

lemma keeps_stopTimers: "keeps C n (stopTimers n)"
  by (rule keeps_frame) simp_all

lemma startViewChange_keeps: "holds (\<lambda>n' es. keeps C n n') (startViewChange C view n)"
  unfolding startViewChange_def Let_def
  by (auto split: sum.splits intro: keeps_viewChange keeps_trans [OF keeps_viewChange keeps_stopTimers])

text \<open>What the loop over the sequence numbers changes.\<close>

definition proposes :: "pgp \<Rightarrow> int \<Rightarrow> PBFTNode \<Rightarrow> PBFTNode \<Rightarrow> bool" where
  "proposes C maxS n n' \<longleftrightarrow> keeps C n n' \<and>
     (\<exists>lg. n' = n\<lparr>log := lg\<rparr> \<and>
       (\<forall>k s. gget lg k = Some s \<longrightarrow> gget (log n) k = Some s \<or> SeqNumber k \<le> maxS))"

lemma proposesI:
  "keeps C n (n\<lparr>log := lg\<rparr>) \<Longrightarrow>
    (\<And>k s. gget lg k = Some s \<Longrightarrow> gget (log n) k = Some s \<or> SeqNumber k \<le> maxS) \<Longrightarrow>
    proposes C maxS n (n\<lparr>log := lg\<rparr>)"
  unfolding proposes_def by blast

lemma proposes_refl [simp]: "proposes C maxS n n"
proof -
  have "n = n\<lparr>log := log n\<rparr>" by simp
  then show ?thesis unfolding proposes_def by blast
qed

lemma proposes_trans:
  assumes "proposes C maxS n m" "proposes C maxS m r"
  shows "proposes C maxS n r"
proof -
  from assms(1) obtain lg where m: "m = n\<lparr>log := lg\<rparr>" and 1: "keeps C n m"
    "\<And>k s. gget lg k = Some s \<Longrightarrow> gget (log n) k = Some s \<or> SeqNumber k \<le> maxS"
    unfolding proposes_def by blast
  from assms(2) obtain lg' where r: "r = m\<lparr>log := lg'\<rparr>" and 2: "keeps C m r"
    "\<And>k s. gget lg' k = Some s \<Longrightarrow> gget (log m) k = Some s \<or> SeqNumber k \<le> maxS"
    unfolding proposes_def by blast
  have "r = n\<lparr>log := lg'\<rparr>" using m r by simp
  moreover have "\<And>k s. gget lg' k = Some s \<Longrightarrow> gget (log n) k = Some s \<or> SeqNumber k \<le> maxS"
    using 1(2) 2(2) m by fastforce
  ultimately show ?thesis
    using keeps_trans [OF 1(1) 2(1)] unfolding proposes_def by blast
qed

lemma newview_round_proposes:
  assumes "newview_round C view s seqNums (n, pps) = Inr (n', pps')" "s \<le> maxS"
  shows "proposes C maxS n n'"
proof -
  from assms(1) obtain slot where n': "n' = putSlot (SlotId view s) slot n" and s: "slot_ok C n (SlotId view s) slot"
    by (auto simp: newview_round_def Let_def slot_ok_def split: prod.splits sum.splits)
  have "n' = n\<lparr>log := gput (SlotId view s) slot (log n)\<rparr>"
    using n' by (simp add: putSlot_def)
  then show ?thesis
    using keeps_putSlot [of C n, OF s] n' assms(2) by (auto intro!: proposesI split: if_splits)
qed

lemma newview_loop_proposes:
  assumes "newview_loop C view s maxS seqNums st = Some (Inr st')"
  shows "proposes C maxS (fst st) (fst st')"
proof -
  have "r = Inr st' \<Longrightarrow> proposes C maxS (fst st) (fst st')"
    if "newview_loop C view s maxS seqNums st = Some r" for r
  proof (rule newview_loop.raw_induct [where P = "\<lambda>C view s maxS seqNums st r.
        r = Inr st' \<longrightarrow> proposes C maxS (fst st) (fst st')", rule_format, OF _ that])
    fix f C view s maxS seqNums st r
    assume IH: "\<And>C view s maxS seqNums st r. f C view s maxS seqNums st = Some r \<Longrightarrow>
        r = Inr st' \<Longrightarrow> proposes C maxS (fst st) (fst st')"
      and eq: "(if s \<le> maxS then
        (case newview_round C view s seqNums st of
           Inl f \<Rightarrow> Some (Inl f)
         | Inr st' \<Rightarrow> f C view (add64 s 1) maxS seqNums st') else Some (Inr st)) = Some r"
      and r: "r = Inr st'"
    show "proposes C maxS (fst st) (fst st')"
    proof (cases "s \<le> maxS")
      case False
      with eq r show ?thesis by simp
    next
      case True
      with eq r obtain st1 where r1: "newview_round C view s seqNums st = Inr st1"
        and f: "f C view (add64 s 1) maxS seqNums st1 = Some (Inr st')"
        by (auto split: sum.splits)
      have "proposes C maxS (fst st) (fst st1)"
        using newview_round_proposes [OF _ True] r1 by (metis prod.collapse)
      then show ?thesis using IH [OF f refl] by (rule proposes_trans)
    qed
  qed
  with assms show ?thesis by blast
qed

lemma generatePreprepares_keeps:
  assumes "generatePrepreparesForNewView C view n = Inr (n', pps)"
  shows "keeps C n n' \<and> viewChange n' = viewChange n \<and> caughtUp n' = caughtUp n"
proof -
  from assms obtain maxS n1 where p: "proposes C maxS n n1"
    and n': "n' = n1 \<or> n' = n1\<lparr>issuedSequenceNumber := maxS\<rparr>"
    unfolding generatePrepreparesForNewView_def Let_def
    by (auto split: prod.splits if_splits option.splits sum.splits dest!: newview_loop_proposes)
      (metis proposes_refl)+
  have "keeps C n1 n'" using n' by (auto intro: keeps_frame)
  with p n' show ?thesis unfolding proposes_def by (auto intro: keeps_trans)
qed

lemma leadNewView_keeps: "holds (\<lambda>n' es. keeps C n n') (leadNewView C view n)"
proof (cases "generatePrepreparesForNewView C view n")
  case (Inr r)
  obtain n1 pps where r: "r = (n1, pps)" by (cases r)
  have k1: "keeps C n n1" using generatePreprepares_keeps Inr r by blast
  define n2 where "n2 = n1\<lparr>newView := \<lparr>nv_ViewNumber = view, nv_ViewChanges = vci_messages (viewChange n1),
                      nv_PrePrepares = pps, nv_Node = node_id n1\<rparr>,
                    newViewShared := True,
                    caughtUp := fold (\<lambda>p m. gput p 0 m) (gkeys (peermap n1)) (caughtUp n1)\<rparr>"
  have k2: "keeps C n1 n2" by (rule keeps_frame) (simp_all add: n2_def)
  have "leadNewView C view n = sendHeartbeat C (enterNewView view n2)"
    by (simp add: leadNewView_def Inr r Let_def n2_def)
  then show ?thesis
    using holds_keeps_trans [OF keeps_trans [OF keeps_trans [OF k1 k2] keeps_enterNewView] sendHeartbeat_keeps]
    by simp
qed (simp add: leadNewView_def)

lemma handleViewChange_keeps: "holds (\<lambda>n' es. keeps C n n') (handleViewChange C m n)"
proof -
  define n1 where "n1 = n\<lparr>viewChange := (viewChange n)\<lparr>vci_messages :=
      gput (vc_Node (svc_Message m)) m (vci_messages (viewChange n))\<rparr>\<rparr>"
  have c: "config n1 = config n" by (simp add: n1_def)
  have k: "keeps C n n1" if "SignedViewChange_SignatureValid C (peerEntities n) (peerEntityMap n) m = Inr (vc_Node (svc_Message m))"
    using that unfolding keeps_def log_ok_def pending_ok_def messages_ok_def ok_config [OF c]
    by (auto simp: n1_def viewchange_ok_def)
  show ?thesis
    unfolding handleViewChange_def Let_def n1_def [symmetric]
    by (auto split: sum.splits prod.splits intro: k holds_keeps_trans [OF k startViewChange_keeps]
        holds_keeps_trans [OF k leadNewView_keeps])
qed

lemma slot_ok_loopVar:
  "slot_ok C n k s \<Longrightarrow> slot_ok C n k (s\<lparr>s_request := Some r, s_preprepare := Some pp\<rparr>)"
  by (auto simp: slot_ok_def isPrepared_def isCommitted_def)

lemma assignLoopVar_keeps: "keeps C n (assignLoopVar pp aliased n)"
proof (induction aliased arbitrary: n)
  case Nil
  then show ?case by (simp add: assignLoopVar_def)
next
  case (Cons k aliased)
  have "keeps C n (putSlot k ((slotAt n k)\<lparr>s_request := Some (fpp_Request pp),
       s_preprepare := Some (fpp_SignedMessage pp)\<rparr>) n)"
    by (intro keeps_putSlot slot_ok_loopVar log_ok_slot)
  then show ?case using Cons by (auto simp: assignLoopVar_def intro: keeps_trans)
qed

lemma newview_preprepares_keeps: "holds (\<lambda>n' es. keeps C n n') (newview_preprepares C pps aliased n)"
proof (induction pps arbitrary: aliased n)
  case Nil
  then show ?case by simp
next
  case (Cons e rest)
  show ?case
    by (cases e)
      (auto simp: Let_def intro: holds_keeps_trans [OF assignLoopVar_keeps] Cons
        intro!: holds_keeps_trans [OF assignLoopVar_keeps holds_keeps_andThen [OF handlePrePrepare_keeps]])
qed

lemma handleNewView_keeps: "holds (\<lambda>n' es. keeps C n n') (handleNewView C m n)"
  unfolding handleNewView_def Let_def
  by (auto intro: holds_keeps_trans [OF keeps_enterNewView newview_preprepares_keeps])

end
