(* ===== verification/Main_Loop.thy ===== *)
theory Main_Loop
  imports View_Change
begin

text \<open>
  The main loop of a replica (src/pbft/node.go, \<open>handleMessages\<close>), its debug channel
  (src/pbft/debug.go), the RPC methods that feed the channels, and the step relation of one
  replica: any event in any order, with the invariant that every reachable state satisfies.
\<close>

section \<open>Debug messages\<close>

definition PUT :: int where "PUT = 0"
definition DOWN :: int where "DOWN = 1"
definition UP :: int where "UP = 2"

record DebugMessage =
  dm_Op :: int
  dm_Request :: string

definition handleDebug :: "pgp \<Rightarrow> DebugMessage \<Rightarrow> PBFTNode \<Rightarrow> result" where
  "handleDebug C debug n =
     (if dm_Op debug = PUT then handleClientRequest C (Some (dm_Request debug)) n
      else if dm_Op debug = DOWN then ret (n\<lparr>down := True\<rparr>)
      else if dm_Op debug = UP then ret (n\<lparr>down := False\<rparr>)
      else ret n)"

section \<open>The main loop\<close>

text \<open>
  One event per case of the \<open>select\<close>, and two for the callbacks of the heartbeat calls, which
  run in goroutines of their own.
\<close>

datatype event =
    EvDebug DebugMessage
  | EvPrePrepare FullPrePrepare
  | EvClientRequest "string option"
  | EvPrepare SignedPrepare
  | EvCommit SignedCommit
  | EvCheckpoint SignedCheckpoint
  | EvCheckpointProof SignedCheckpointProof
  | EvViewChange SignedViewChange
  | EvNewView SignedNewView
  | EvSnapshot SlotId "byte list"
  | EvRequestTimeout
  | EvTimer
  | EvNewViewReply NodeId "string option"
  | EvHeartbeatReply NodeId SignedPPResponse "string option"

text \<open>A one-shot timer that fired stays quiet until it is reset; a ticker goes on.\<close>

definition timerFired :: "PBFTNode \<Rightarrow> PBFTNode" where
  "timerFired n =
     (if isPrimary n then n
      else n\<lparr>timeoutTimer := map_option (\<lambda>t. t\<lparr>t_active := False\<rparr>) (timeoutTimer n)\<rparr>)"

definition handleHeartbeatTimeout :: "pgp \<Rightarrow> PBFTNode \<Rightarrow> result" where
  "handleHeartbeatTimeout C n =
     (if vci_inProgress (viewChange n) then ret n
      else if down n then ret n
      else if \<not> isPrimary n then startViewChange C (add64 (viewNumber n) 1) n
      else sendHeartbeat C n)"

fun handleEvent :: "pgp \<Rightarrow> event \<Rightarrow> PBFTNode \<Rightarrow> result" where
  "handleEvent C (EvDebug msg) n = handleDebug C msg n"
| "handleEvent C (EvPrePrepare msg) n = handlePrePrepare C msg n"
| "handleEvent C (EvClientRequest msg) n = handleClientRequest C msg n"
| "handleEvent C (EvPrepare msg) n = handlePrepare C msg n"
| "handleEvent C (EvCommit msg) n = handleCommit C msg n"
| "handleEvent C (EvCheckpoint msg) n = handleCheckpoint C msg n"
| "handleEvent C (EvCheckpointProof msg) n = handleCheckpointProof C msg n"
| "handleEvent C (EvViewChange msg) n = handleViewChange C msg n"
| "handleEvent C (EvNewView msg) n = handleNewView C msg n"
| "handleEvent C (EvSnapshot num st) n = handleRecvSnapshot C num st n"
| "handleEvent C EvRequestTimeout n = startViewChange C (add64 (viewNumber n) 1) n"
| "handleEvent C EvTimer n = handleHeartbeatTimeout C (timerFired n)"
| "handleEvent C (EvNewViewReply p err) n = ret (afterNewView p err n)"
| "handleEvent C (EvHeartbeatReply p r err) n = ret (afterHeartbeat C p r err n)"

text \<open>
  The \<open>select\<close> evaluates \<open>n.getTimer()\<close> in every round, whichever case is taken; a timer event
  needs a timer that is running.
\<close>

definition handleMessages :: "pgp \<Rightarrow> event \<Rightarrow> PBFTNode \<Rightarrow> result" where
  "handleMessages C ev n =
     (case getTimer n of
        Inl f \<Rightarrow> Inl f
      | Inr t \<Rightarrow> if ev = EvTimer \<and> \<not> t_active t then ret n else handleEvent C ev n)"

section \<open>RPC methods\<close>

text \<open>
  A method refuses the call when the node is down and otherwise puts the message on its
  channel. The receiver is a copy of the node, so the sequence number that answers a
  pre-prepare or a checkpoint proof is the one from before the message is handled.
\<close>

definition imDown :: string where
  "imDown = ''I'' @ [char_of (39 :: nat)] @ ''m down''"

definition rpcAck :: "event \<Rightarrow> PBFTNode \<Rightarrow> string + event" where
  "rpcAck ev n = (if down n then Inl imDown else Inr ev)"

definition rpcRespond :: "pgp \<Rightarrow> event \<Rightarrow> PBFTNode \<Rightarrow> string + event \<times> SignedPPResponse option" where
  "rpcRespond C ev n =
     (if down n then Inl imDown
      else let response = \<lparr>ppr_SeqNumber = sequenceNumber n\<rparr>
        in case PPResponse_GetSignature C (node_entity n) response of
             Inl err \<Rightarrow> Inr (ev, None)
           | Inr sig \<Rightarrow> Inr (ev, Some \<lparr>sppr_Response = response, sppr_Signature = sig\<rparr>))"

definition ClientRequest_rpc :: "string \<Rightarrow> PBFTNode \<Rightarrow> string + event" where
  "ClientRequest_rpc req n = rpcAck (EvClientRequest (Some req)) n"

definition PrePrepare_rpc :: "pgp \<Rightarrow> FullPrePrepare \<Rightarrow> PBFTNode \<Rightarrow> string + event \<times> SignedPPResponse option" where
  "PrePrepare_rpc C req n = rpcRespond C (EvPrePrepare req) n"

definition Prepare_rpc :: "SignedPrepare \<Rightarrow> PBFTNode \<Rightarrow> string + event" where
  "Prepare_rpc req n = rpcAck (EvPrepare req) n"

definition Commit_rpc :: "SignedCommit \<Rightarrow> PBFTNode \<Rightarrow> string + event" where
  "Commit_rpc req n = rpcAck (EvCommit req) n"

definition ViewChange_rpc :: "SignedViewChange \<Rightarrow> PBFTNode \<Rightarrow> string + event" where
  "ViewChange_rpc req n = rpcAck (EvViewChange req) n"

definition NewView_rpc :: "SignedNewView \<Rightarrow> PBFTNode \<Rightarrow> string + event" where
  "NewView_rpc req n = rpcAck (EvNewView req) n"

definition Checkpoint_rpc :: "SignedCheckpoint \<Rightarrow> PBFTNode \<Rightarrow> string + event" where
  "Checkpoint_rpc req n = rpcAck (EvCheckpoint req) n"

definition CheckpointProof_rpc ::
  "pgp \<Rightarrow> SignedCheckpointProof \<Rightarrow> PBFTNode \<Rightarrow> string + event \<times> SignedPPResponse option" where
  "CheckpointProof_rpc C req n = rpcRespond C (EvCheckpointProof req) n"

definition Debug_rpc :: "DebugMessage \<Rightarrow> PBFTNode \<Rightarrow> string + event" where
  "Debug_rpc req n = Inr (EvDebug req)"

section \<open>Steps of a replica\<close>

text \<open>
  A replica handles any event, or Go enumerates one of its maps in another order. Messages
  can wait in a channel, so no event depends on \<open>down\<close>.
\<close>

inductive node_step :: "pgp \<Rightarrow> PBFTNode \<Rightarrow> PBFTNode \<Rightarrow> bool" for C where
  message: "handleMessages C ev n = Inr (n', es) \<Longrightarrow> node_step C n n'"
| order: "gsame (log n) lg \<Longrightarrow> gsame (pendingCheckpoints n) pd \<Longrightarrow>
     gsame (vci_messages (viewChange n)) ms \<Longrightarrow>
     node_step C n (n\<lparr>log := lg, pendingCheckpoints := pd,
       viewChange := (viewChange n)\<lparr>vci_messages := ms\<rparr>\<rparr>)"

inductive_cases node_stepE: "node_step C n n'"

definition started :: "PBFTNode \<Rightarrow> bool" where
  "started n \<longleftrightarrow> (\<exists>E hostc clusterc. StartNode E hostc clusterc = Inr n)"

definition reachable :: "pgp \<Rightarrow> PBFTNode \<Rightarrow> bool" where
  "reachable C n \<longleftrightarrow> (\<exists>n0. started n0 \<and> (node_step C)\<^sup>*\<^sup>* n0 n)"

definition node_ok :: "pgp \<Rightarrow> PBFTNode \<Rightarrow> bool" where
  "node_ok C n \<longleftrightarrow> timers_ok n \<and> log_ok C n \<and> pending_ok C n \<and> messages_ok C n \<and>
     (\<forall>v. \<exists>i. LeaderFor (cluster n) v = Inr i)"

lemma keeps_timerFired: "keeps C n (timerFired n)"
  by (rule keeps_frame) (auto simp: timerFired_def timers_ok_def)

lemma handleEvent_keeps: "holds (\<lambda>n' es. keeps C n n') (handleEvent C ev n)"
proof (cases ev)
  case (EvDebug msg)
  have "keeps C n (n\<lparr>down := b\<rparr>)" for b by (rule keeps_frame) simp_all
  then show ?thesis using EvDebug by (simp add: handleDebug_def handleClientRequest_keeps)
next
  case EvTimer
  have "holds (\<lambda>n' es. keeps C (timerFired n) n') (handleHeartbeatTimeout C (timerFired n))"
    by (simp add: handleHeartbeatTimeout_def startViewChange_keeps sendHeartbeat_keeps)
  then show ?thesis using EvTimer by (simp add: holds_keeps_trans [OF keeps_timerFired])
qed (simp_all add: handlePrePrepare_keeps handleClientRequest_keeps handlePrepare_keeps handleCommit_keeps
    handleCheckpoint_keeps handleCheckpointProof_keeps handleViewChange_keeps handleNewView_keeps
    handleRecvSnapshot_keeps startViewChange_keeps afterNewView_keeps afterHeartbeat_keeps)

lemma handleMessages_keeps: "holds (\<lambda>n' es. keeps C n n') (handleMessages C ev n)"
  by (auto simp: handleMessages_def handleEvent_keeps split: sum.splits)

lemma reorder_keeps:
  assumes "gsame (log n) lg" "gsame (pendingCheckpoints n) pd" "gsame (vci_messages (viewChange n)) ms"
  shows "keeps C n (n\<lparr>log := lg, pendingCheckpoints := pd, viewChange := (viewChange n)\<lparr>vci_messages := ms\<rparr>\<rparr>)"
    (is "keeps C n ?n'")
proof -
  have c: "config ?n' = config n" by simp
  have "log_ok C n \<longrightarrow> log_ok C ?n'"
    unfolding log_ok_def ok_config [OF c] using assms(1) by (auto simp: gsame_gget gsame_gwf)
  moreover have "pending_ok C n \<longrightarrow> pending_ok C ?n'"
    unfolding pending_ok_def ok_config [OF c] using assms(2) by (auto simp: gsame_gget gsame_gwf)
  moreover have "messages_ok C n \<longrightarrow> messages_ok C ?n'"
    unfolding messages_ok_def ok_config [OF c] using votes_ok_gsame [OF assms(3)] by simp
  ultimately show ?thesis unfolding keeps_def by simp
qed

lemma node_step_keeps: "node_step C n n' \<Longrightarrow> keeps C n n'"
  by (erule node_stepE) (auto dest: holdsD [OF handleMessages_keeps] intro: reorder_keeps)

lemma node_steps_keep: "(node_step C)\<^sup>*\<^sup>* n n' \<Longrightarrow> keeps C n n'"
  by (rule keeping.steps [OF _ node_step_keeps])

lemma keeps_node_ok: "keeps C n n' \<Longrightarrow> node_ok C n \<Longrightarrow> node_ok C n'"
  by (auto simp: keeps_def node_ok_def config_def)

lemma started_init:
  "started n \<Longrightarrow> \<exists>hostc clusterc ent ps j. n = startTimers (initNode hostc clusterc ent ps) \<and>
     LeaderFor clusterc 0 = Inr j"
  unfolding started_def StartNode_def
  by (force split: sum.split_asm list.split_asm if_split_asm)

lemma started_ok:
  assumes "started n"
  shows "node_ok C n"
proof -
  from started_init [OF assms] obtain hostc clusterc ent ps j
    where n: "n = startTimers (initNode hostc clusterc ent ps)" and j: "LeaderFor clusterc 0 = Inr j"
    by blast
  have "cluster n = clusterc" by (simp add: n startTimers_def initNode_def)
  with j have "\<exists>i. LeaderFor (cluster n) v = Inr i" for v
    using LeaderFor_defined_indep by simp
  then show ?thesis
    unfolding n node_ok_def log_ok_def pending_ok_def messages_ok_def by (simp add: initNode_def)
qed

interpretation replica: step_invariant started "node_step C" "node_ok C" for C
  by unfold_locales (auto intro: started_ok keeps_node_ok node_step_keeps)

lemma reachable_ok: "reachable C n \<Longrightarrow> node_ok C n"
  unfolding reachable_def using replica.reachable by blast

lemma reachable_step: "reachable C n \<Longrightarrow> node_step C n n' \<Longrightarrow> reachable C n'"
  unfolding reachable_def by (meson rtranclp.rtrancl_into_rtrancl)

lemma reachable_event: "reachable C n \<Longrightarrow> handleMessages C ev n = Inr (n', es) \<Longrightarrow> reachable C n'"
  by (blast intro: reachable_step node_step.message)

end
