(* ===== verification/Sha256_Eval.thy ===== *)
theory Sha256_Eval
  imports Sha256
begin

unbundle bit_operations_syntax

text \<open>
  SHA-256 of four bytes, the digest that picks the leader of a view, evaluated for the first
  two views. The compression function is refined to integers below 2^32, on which the
  simplifier computes faster.
\<close>

section \<open>The compression function on integers\<close>

definition norm32 :: "int \<Rightarrow> int" where
  "norm32 x = take_bit 32 x"

definition rotr_i :: "nat \<Rightarrow> int \<Rightarrow> int" where
  "rotr_i k x = drop_bit k x OR norm32 (push_bit (32 - k) x)"

fun round_i :: "int list \<Rightarrow> int \<Rightarrow> int \<Rightarrow> int list" where
  "round_i [a, b, c, d, e, f, g, h] k w =
     (let t1 = norm32 (h + (rotr_i 6 e XOR rotr_i 11 e XOR rotr_i 25 e) + ((e AND f) XOR ((NOT e) AND g)) + k + w);
          t2 = norm32 ((rotr_i 2 a XOR rotr_i 13 a XOR rotr_i 22 a) + ((a AND b) XOR (a AND c) XOR (b AND c)))
      in [norm32 (t1 + t2), a, b, c, norm32 (d + t1), e, f, g])"
| "round_i s k w = s"

fun rounds_i :: "int list \<Rightarrow> int list \<Rightarrow> int list \<Rightarrow> int list" where
  "rounds_i s (k # ks) (w # ws) = rounds_i (round_i s k w) ks ws"
| "rounds_i s _ _ = s"

fun sched_i :: "nat \<Rightarrow> int list \<Rightarrow> int list" where
  "sched_i 0 _ = []"
| "sched_i (Suc n) ws =
     (case ws of
        [] \<Rightarrow> []
      | w # rest \<Rightarrow>
          let x = ws ! 14; y = ws ! 1;
              w' = norm32 ((rotr_i 17 x XOR rotr_i 19 x XOR drop_bit 10 x) + ws ! 9
                 + (rotr_i 7 y XOR rotr_i 18 y XOR drop_bit 3 y) + w)
          in w # sched_i n (rest @ [w']))"

section \<open>It computes what the word version computes\<close>

fun ints_of :: "sha_state \<Rightarrow> int list" where
  "ints_of (Sha a b c d e f g h) = map uint [a, b, c, d, e, f, g, h]"

lemma norm32_uint: "norm32 (uint (x :: word32)) = uint x"
  by (simp add: norm32_def take_bit_int_eq_self_iff uint_lt2p [where x = x, simplified])

lemma uint_add: "uint (x + y :: word32) = norm32 (uint x + uint y)"
  by (simp add: norm32_def uint_word_ariths take_bit_eq_mod)

lemma uint_rotr: "uint (rotr32 k x) = rotr_i k (uint x)"
proof -
  have "uint (drop_bit k x) = drop_bit k (uint x)"
    using norm32_uint [of x] by (simp add: norm32_def unsigned_drop_bit_eq)
  then show ?thesis
    by (simp add: rotr32_def rotr_i_def norm32_def unsigned_or_eq unsigned_push_bit_eq)
qed

lemma uint_not_and: "uint ((NOT x) AND y :: word32) = (NOT (uint x)) AND uint y"
proof -
  have "uint ((NOT x) AND y) = norm32 (NOT (uint x)) AND norm32 (uint y)"
    by (simp add: unsigned_and_eq unsigned_not_eq norm32_def norm32_uint [unfolded norm32_def])
  also have "\<dots> = norm32 ((NOT (uint x)) AND uint y)"
    by (simp add: norm32_def)
  also have "\<dots> = (NOT (uint x)) AND uint y"
    using norm32_uint [of y] by (metis norm32_def bit_eq_iff bit_take_bit_iff bit_and_iff)
  finally show ?thesis .
qed

lemma uint_drop: "uint (drop_bit k x :: word32) = drop_bit k (uint x)"
  using norm32_uint [of x] by (simp add: norm32_def unsigned_drop_bit_eq)

lemma uint_Ch: "uint (sha_Ch x y z) = (uint x AND uint y) XOR ((NOT (uint x)) AND uint z)"
  by (simp only: sha_Ch_def unsigned_xor_eq uint_not_and) (simp only: unsigned_and_eq)

lemmas uint_ops = uint_add uint_rotr uint_drop uint_Ch unsigned_xor_eq unsigned_and_eq
  sha_Maj_def sha_S0_def sha_S1_def sha_s0_def sha_s1_def

lemma round_refines: "ints_of (sha_round s k w) = round_i (ints_of s) (uint k) (uint w)"
  by (cases s) (simp add: Let_def uint_ops norm32_def take_bit_eq_mod mod_simps)

lemma rounds_refine: "ints_of (sha_rounds s ks ws) = rounds_i (ints_of s) (map uint ks) (map uint ws)"
  by (induction s ks ws rule: sha_rounds.induct) (simp_all add: round_refines)

lemma sched_refines: "length ws = 16 \<Longrightarrow> map uint (sha_sched n ws) = sched_i n (map uint ws)"
proof (induction n arbitrary: ws)
  case (Suc n)
  then obtain w rest where ws: "ws = w # rest" "length rest = 15" by (cases ws) auto
  let ?w' = "sha_s1 (ws ! 14) + ws ! 9 + sha_s0 (ws ! 1) + w"
  have "map uint (sha_sched n (rest @ [?w'])) = sched_i n (map uint (rest @ [?w']))"
    using ws by (intro Suc.IH) simp
  with ws show ?case by (simp add: Let_def uint_ops norm32_def take_bit_eq_mod mod_simps)
qed simp

section \<open>The digest\<close>

text \<open>The first word of the state after the rounds, for a message of one word.\<close>

definition first_word :: "int \<Rightarrow> int" where
  "first_word w = hd (rounds_i (map uint [1779033703, 3144134277, 1013904242, 2773480762, 1359893119,
       2600822924, 528734635, 1541459225 :: word32]) (map uint sha_K)
     (sched_i 64 [w, 2147483648, 0, 0, 0, 0, 0, 0, 0, 0, 0, 0, 0, 0, 0, 32]))"

lemma Sum256_word:
  assumes "first_word (uint (hd (be_words [a, b, c, d]))) = uint x"
  shows "take 4 (Sum256 [a, b, c, d]) = be_bytes32 (1779033703 + x)"
proof -
  define w where "w = hd (be_words [a, b, c, d])"
  define ws where "ws = [w, 2147483648, 0, 0, 0, 0, 0, 0, 0, 0, 0, 0, 0, 0, 0, 32 :: word32]"
  have pad: "sha_pad [a, b, c, d] = [a, b, c, d, 0x80] @ replicate 51 0 @ [0, 0, 0, 0, 0, 0, 0, 32]"
    by (simp add: sha_pad_def be_bytes64_def push_bit_eq_mult drop_bit_eq_div)
  have zeros: "replicate 51 (0 :: byte) = [0, 0, 0, 0, 0, 0, 0, 0, 0, 0, 0, 0, 0, 0, 0, 0, 0, 0, 0, 0,
       0, 0, 0, 0, 0, 0, 0, 0, 0, 0, 0, 0, 0, 0, 0, 0, 0, 0, 0, 0, 0, 0, 0, 0, 0, 0, 0, 0, 0, 0, 0]"
    by (simp add: numeral_eq_Suc)
  have ws: "be_words (sha_pad [a, b, c, d]) = ws"
    unfolding pad ws_def w_def zeros by (simp add: push_bit_eq_mult)
  have "sha_blocks sha_init (sha_pad [a, b, c, d]) = sha_block sha_init (sha_pad [a, b, c, d])"
    by (simp add: pad sha_blocks.simps)
  also have "\<dots> = sha_add sha_init (sha_rounds sha_init sha_K (sha_sched 64 ws))"
    by (simp add: sha_block_def ws)
  finally have sum: "Sum256 [a, b, c, d] = sha_out (sha_add sha_init (sha_rounds sha_init sha_K (sha_sched 64 ws)))"
    by (simp only: Sum256_def)
  obtain y b' c' d' e f g h where r: "sha_rounds sha_init sha_K (sha_sched 64 ws) = Sha y b' c' d' e f g h"
    by (cases "sha_rounds sha_init sha_K (sha_sched 64 ws)")
  have "uint y = hd (ints_of (sha_rounds sha_init sha_K (sha_sched 64 ws)))"
    by (simp add: r)
  also have "\<dots> = uint x"
    unfolding rounds_refine using assms
    by (simp add: first_word_def sched_refines ws_def w_def sha_init_def del: sched_i.simps rounds_i.simps)
  finally have "y = x" by (simp only: word_uint_eq_iff)
  then show ?thesis unfolding sum r by (simp add: sha_init_def be_bytes32_def)
qed

lemma first_word_views:
  "first_word 0 = 1966439217" "first_word 16777216 = 4255250187"
  by code_simp+

lemma Sum256_view0: "take 4 (Sum256 [0, 0, 0, 0]) = [0xdf, 0x3f, 0x61, 0x98]"
  using Sum256_word [of 0 0 0 0 1966439217] first_word_views by (simp add: be_bytes32_def)

lemma Sum256_view1: "take 4 (Sum256 [1, 0, 0, 0]) = [0x67, 0xab, 0xdd, 0x72]"
  using Sum256_word [of 1 0 0 0 4255250187] first_word_views by (simp add: be_bytes32_def push_bit_eq_mult)

end
