(* ===== verification/Leaders.thy ===== *)
theory Leaders
  imports Common Sha256_Eval
begin

text \<open>
  The leaders of views 0 and 1, computed: SHA-256 is evaluated on the bytes of the view number.
  The cluster configuration is the one shipped in src/distributepki/cluster.json.
\<close>

lemma le_uint32_take: "le_uint32 (take 4 bs) = le_uint32 bs"
  by (cases bs rule: be_words.cases) (simp_all add: le_uint32_def)

lemma hash_views: "hash [0, 0, 0, 0] = 0x98613fdf" "hash [1, 0, 0, 0] = 0x72ddab67"
proof -
  have "hash [v, 0, 0, 0] = le_uint32 (take 4 (Sum256 [v, 0, 0, 0]))" for v
    by (simp only: hash_def le_uint32_take)
  then show "hash [0, 0, 0, 0] = 0x98613fdf" "hash [1, 0, 0, 0] = 0x72ddab67"
    by (simp_all add: Sum256_view0 Sum256_view1 le_uint32_def)
qed

lemma put_uint32_views: "put_uint32 0 = [0, 0, 0, 0]" "put_uint32 1 = [1, 0, 0, 0]"
  by (simp_all add: put_uint32_def)

lemma LeaderFor_view0:
  "LeaderFor c 0 =
     (let len = (word_of_nat (length (Nodes c)) :: 32 word)
      in if len = 0 then Inl DivideByZero else Inr (cfg_Id (Nodes c ! (2556510175 mod unat len))))"
  by (simp add: LeaderFor_def put_uint32_views hash_views Let_def)

lemma LeaderFor_view1:
  "LeaderFor c 1 =
     (let len = (word_of_nat (length (Nodes c)) :: 32 word)
      in if len = 0 then Inl DivideByZero else Inr (cfg_Id (Nodes c ! (1927129959 mod unat len))))"
  by (simp add: LeaderFor_def put_uint32_views hash_views Let_def)

text \<open>A cluster with the given node ids; the leader depends on nothing else of a node.\<close>

definition localNode :: "NodeId \<Rightarrow> NodeConfig" where
  "localNode i = \<lparr>cfg_ClientPort = 9019 + int i, cfg_Host = ''localhost'', cfg_Id = i,
     cfg_Port = 20000 + int i, cfg_PrivateKeyFile = ''private/node'' @ show_nat i @ ''.key'',
     cfg_PublicKeyFile = ''public/node'' @ show_nat i @ ''.pub'',
     cfg_PassPhraseFile = ''private/passphrase.txt''\<rparr>"

definition localCluster :: "nat \<Rightarrow> ClusterConfig" where
  "localCluster num = \<lparr>Nodes = map localNode [1..<num + 1],
     AuthorityKeyFile = ''../mock_authority/keys/public.key'', Endpoint = ''pbft''\<rparr>"

lemma localNode_id [simp]: "cfg_Id (localNode i) = i"
  by (simp add: localNode_def)

lemma leader_of_four: "LeaderFor (localCluster 4) 0 = Inr 4" "LeaderFor (localCluster 4) 1 = Inr 4"
  by (simp_all add: LeaderFor_view0 LeaderFor_view1 localCluster_def)

text \<open>Node 1 leads view 0 of the cluster of five nodes in cluster.json.\<close>

theorem leader_of_five: "LeaderFor (localCluster 5) 0 = Inr 1"
  by (simp add: LeaderFor_view0 localCluster_def)

text \<open>With the first four nodes, views 0 and 1 have the same leader: a view change away from
  a faulty leader can elect it again.\<close>

theorem same_leader_twice:
  "LeaderFor (localCluster 4) 1 = LeaderFor (localCluster 4) 0 \<and> LeaderFor (localCluster 4) 0 = Inr 4"
  by (simp add: leader_of_four)

end
