(* ===== verification/Scenario.thy ===== *)
theory Scenario
  imports Main_Loop Leaders
begin

text \<open>
  A cluster of four local nodes (f = 1; node 4 leads view 0) with the example signature scheme,
  and a run of it that commits a request and a run that makes a checkpoint stable. The
  witnesses of the properties are states of these runs.
\<close>

section \<open>Four nodes\<close>

definition exKey :: "NodeId \<Rightarrow> entity" where
  "exKey i = \<lparr>Fingerprint = bytes_of (show_nat i), key_material = []\<rparr>"

definition exRead :: "string \<Rightarrow> string + entity list" where
  "exRead path =
     (case find (\<lambda>i. path = cfg_PublicKeyFile (localNode i) \<or> path = cfg_PrivateKeyFile (localNode i))
         [1, 2, 3, 4] of
        None \<Rightarrow> Inl ''no such file'' | Some i \<Rightarrow> Inr [exKey i])"

definition exEnv :: host_env where
  "exEnv = \<lparr>env_Open = Inr, env_KeyRing = exRead, env_ReadFile = (\<lambda>_. Inr '' secret ''),
     Decrypt = (\<lambda>e _. Inr e), Listen = (\<lambda>_. True)\<rparr>"

definition exHost :: "NodeId \<Rightarrow> string" where
  "exHost i = GetHostname (cfg_Host (localNode i)) (cfg_Port (localNode i))"

definition exPeers :: "NodeId list \<Rightarrow> peers" where
  "exPeers is = \<lparr>ps_map = fold (\<lambda>i. gput i (exHost i)) is [], ps_hosts = fold (\<lambda>i. gput (exHost i) i) is [],
     ps_entityMap = fold (\<lambda>i. gput (Fingerprint (exKey i)) i) is [], ps_entities = map exKey is\<rparr>"

definition exNode :: "NodeId \<Rightarrow> PBFTNode" where
  "exNode i = startTimers (initNode (localNode i) (localCluster 4) (exKey i)
     (exPeers (filter (\<lambda>j. j \<noteq> i) [1, 2, 3, 4])))"

lemma nodes_4: "Nodes (localCluster 4) = map localNode [1, 2, 3, 4]"
  by (simp add: localCluster_def upt_conv_Cons numeral_eq_Suc)

lemma show_digit: "n < 10 \<Longrightarrow> show_nat n = [char_of (48 + n)]"
  by (simp add: show_nat.simps)

lemma exRead_public: "i \<in> {1, 2, 3, 4} \<Longrightarrow> exRead (cfg_PublicKeyFile (localNode i)) = Inr [exKey i]"
  by (auto simp: exRead_def localNode_def show_digit)

lemma exRead_private: "i \<in> {1, 2, 3, 4} \<Longrightarrow> exRead (cfg_PrivateKeyFile (localNode i)) = Inr [exKey i]"
  by (auto simp: exRead_def localNode_def show_digit)

lemma exKey_eq: "i \<in> {1, 2, 3, 4} \<Longrightarrow> j \<in> {1, 2, 3, 4} \<Longrightarrow>
    Fingerprint (exKey i) = Fingerprint (exKey j) \<longleftrightarrow> i = j"
  by (auto simp: exKey_def show_digit)

lemma ex_signers:
  "i \<in> {1, 2, 3, 4} \<Longrightarrow> j \<in> {1, 2, 3, 4} \<Longrightarrow> i \<noteq> j \<Longrightarrow> Fingerprint (exKey i) \<noteq> Fingerprint (exKey j)"
  by (simp add: exKey_eq)

lemma ReadPgpKeyFile_exEnv [simp]: "ReadPgpKeyFile exEnv = exRead"
  by (simp add: fun_eq_iff ReadPgpKeyFile_def exEnv_def split: sum.split)

lemma exPeers_1: "StartNode_peers exEnv 1 (Nodes (localCluster 4)) noPeers = Inr (exPeers [2, 3, 4])"
  by (simp add: nodes_4 exRead_public noPeers_def exPeers_def exHost_def Let_def ex_signers)

lemma exPeers_4: "StartNode_peers exEnv 4 (Nodes (localCluster 4)) noPeers = Inr (exPeers [1, 2, 3])"
  by (simp add: nodes_4 exRead_public noPeers_def exPeers_def exHost_def Let_def ex_signers)

lemma exEnv_simps [simp]:
  "ReadPassPhrase exEnv p = Inr ''secret''" "Decrypt exEnv e q = Inr e" "Listen exEnv k"
proof -
  have "TrimSpace '' secret '' = ''secret''" by code_simp
  then show "ReadPassPhrase exEnv p = Inr ''secret''" by (simp add: ReadPassPhrase_def exEnv_def)
qed (simp_all add: exEnv_def)

lemma exNode_start:
  assumes "i = 1 \<or> i = 4"
  shows "StartNode exEnv (localNode i) (localCluster 4) = Inr (exNode i)"
  using assms
proof
  assume "i = 1"
  then show ?thesis
    using exPeers_1 exRead_private [of 1]
    by (simp add: StartNode_def exNode_def leader_of_four)
next
  assume "i = 4"
  then show ?thesis
    using exPeers_4 exRead_private [of 4]
    by (simp add: StartNode_def exNode_def leader_of_four)
qed

lemma exNode_started: "i = 1 \<or> i = 4 \<Longrightarrow> started (exNode i)"
  unfolding started_def using exNode_start by blast

text \<open>Node 1 is a backup, node 4 the leader.\<close>

definition exBackup :: PBFTNode where
  "exBackup = exNode 1"

definition exLeader :: PBFTNode where
  "exLeader = exNode 4"

lemma exBackup_started: "started exBackup"
  unfolding exBackup_def by (rule exNode_started) simp

lemma exLeader_started: "started exLeader"
  unfolding exLeader_def by (rule exNode_started) simp

lemma exBackup_eq:
  "exBackup = (initNode (localNode 1) (localCluster 4) (exKey 1) (exPeers [2, 3, 4]))
     \<lparr>timeoutTimer := Some (newTimer 750000000)\<rparr>"
  by (simp add: exBackup_def exNode_def startTimers_def isPrimary_def initNode_def leader_of_four getTimeout_def
      quot64_def wrap64_def TIMEOUT_def exPeers_def gput_def)

lemma exLeader_eq:
  "exLeader = (initNode (localNode 4) (localCluster 4) (exKey 4) (exPeers [1, 2, 3]))
     \<lparr>heartbeatTicker := Some (newTimer 500000000)\<rparr>"
  by (simp add: exLeader_def exNode_def startTimers_def isPrimary_def initNode_def leader_of_four getTimeout_def
      TIMEOUT_def)

section \<open>A request is committed\<close>

lemma exValid:
  assumes "i \<in> {2, 3, 4}"
  shows "signer_id example_pgp (map exKey [2, 3, 4]) (ps_entityMap (exPeers [2, 3, 4])) doc
     (Fingerprint (exKey i) @ json_Encode doc) = Inr i"
  using assms by (auto simp: signer_id_def example_pgp_def exPeers_def ex_signers)

lemma exSign:
  "PrePrepare_Sign example_pgp e pp = Inr \<lparr>spp_PrePrepareMessage = pp,
     spp_Signature = Fingerprint e @ json_Encode (json_PrePrepare pp)\<rparr>"
  "Prepare_Sign example_pgp e p = Inr \<lparr>sp_PrepareMessage = p,
     sp_Signature = Fingerprint e @ json_Encode (json_Prepare p)\<rparr>"
  "Commit_Sign example_pgp e c = Inr \<lparr>sc_CommitMessage = c,
     sc_Signature = Fingerprint e @ json_Encode (json_Commit c)\<rparr>"
  "Checkpoint_Sign example_pgp e k = Inr \<lparr>sck_CheckpointMessage = k,
     sck_Signature = Fingerprint e @ json_Encode (json_Checkpoint k)\<rparr>"
  "CheckpointProofMessage_Sign example_pgp e cp = Inr \<lparr>scp_Message = cp,
     scp_Signature = Fingerprint e @ json_Encode (json_CheckpointProofMessage cp)\<rparr>"
  "ViewChange_Sign example_pgp e vc = Inr \<lparr>svc_Message = vc,
     svc_Signature = Fingerprint e @ json_Encode (json_ViewChange vc)\<rparr>"
  "NewView_Sign example_pgp e nv = Inr \<lparr>snv_Message = nv,
     snv_Signature = Fingerprint e @ json_Encode (json_NewView nv)\<rparr>"
  by (simp_all add: example_pgp_def PrePrepare_Sign_def Prepare_Sign_def Commit_Sign_def Checkpoint_Sign_def
      CheckpointProofMessage_Sign_def ViewChange_Sign_def NewView_Sign_def)

text \<open>What node \<open>i\<close> signs about slot (0, 2) and the request \<open>op\<close>.\<close>

definition exDigest :: "byte list" where
  "exDigest = GenerateDigest ''op''"

definition exPrePrepare :: FullPrePrepare where
  "exPrePrepare = \<lparr>fpp_SignedMessage = projr (PrePrepare_Sign example_pgp (exKey 4)
       \<lparr>pp_Number = SlotId 0 2, pp_RequestDigest = exDigest\<rparr>), fpp_Request = ''op''\<rparr>"

definition exPrepare :: "NodeId \<Rightarrow> SignedPrepare" where
  "exPrepare i = projr (Prepare_Sign example_pgp (exKey i)
     \<lparr>p_Number = SlotId 0 2, p_RequestDigest = exDigest, p_Node = i\<rparr>)"

definition exCommit :: "NodeId \<Rightarrow> SignedCommit" where
  "exCommit i = projr (Commit_Sign example_pgp (exKey i)
     \<lparr>c_Number = SlotId 0 2, c_RequestDigest = exDigest, c_Node = i\<rparr>)"

text \<open>The slot and the state of node 1 after the pre-prepare, a prepare and a commit of node 3.\<close>

definition exSlot1 :: Slot where
  "exSlot1 = \<lparr>s_request = Some ''op'', s_requestDigest = exDigest,
     s_preprepare = Some (fpp_SignedMessage exPrePrepare), s_prepares = [(1, exPrepare 1)], s_commits = [],
     s_prepared = False, s_committed = False\<rparr>"

definition exSlot2 :: Slot where
  "exSlot2 = exSlot1\<lparr>s_prepares := [(1, exPrepare 1), (3, exPrepare 3)], s_commits := [(1, exCommit 1)],
     s_prepared := True\<rparr>"

definition exSlot3 :: Slot where
  "exSlot3 = exSlot2\<lparr>s_commits := [(1, exCommit 1), (3, exCommit 3)], s_committed := True\<rparr>"

definition exBackup_accepted :: PBFTNode where
  "exBackup_accepted = exBackup\<lparr>issuedSequenceNumber := 2, log := [(SlotId 0 2, exSlot1)]\<rparr>"

definition exBackup_prepared :: PBFTNode where
  "exBackup_prepared = exBackup_accepted\<lparr>log := [(SlotId 0 2, exSlot2)]\<rparr>"

definition exBackup_committed :: PBFTNode where
  "exBackup_committed = exBackup_prepared\<lparr>sequenceNumber := 2, log := [(SlotId 0 2, exSlot3)]\<rparr>"

text \<open>The configuration of node 1, and what its handlers read of it.\<close>

lemma exBackup_fields:
  "node_id exBackup = 1" "node_entity exBackup = exKey 1"
  "peermap exBackup = [(2, exHost 2), (3, exHost 3), (4, exHost 4)]"
  "cluster exBackup = localCluster 4"
  "peerEntityMap exBackup = ps_entityMap (exPeers [2, 3, 4])" "peerEntities exBackup = map exKey [2, 3, 4]"
  "requests exBackup = []" "log exBackup = []" "viewNumber exBackup = 0"
  "sequenceNumber exBackup = 1" "issuedSequenceNumber exBackup = 1"
  "viewChange exBackup = \<lparr>vci_messages = [], vci_inProgress = False, vci_viewNumber = 0\<rparr>"
  "lastCheckpoint exBackup = initCheckpoint" "pendingCheckpoints exBackup = []"
  "timeoutTimer exBackup = Some (newTimer 750000000)" "down exBackup = False"
  unfolding exBackup_eq by (simp_all add: initNode_def exPeers_def gput_def)

lemma exBackup_not_primary: "\<not> isPrimary exBackup"
  by (simp add: isPrimary_def exBackup_fields leader_of_four)

lemma exBackup_getTimer: "getTimer exBackup = Inr (newTimer 750000000)"
  by (simp add: getTimer_def exBackup_not_primary exBackup_fields)

lemma exBackup_getPrimary: "getPrimary exBackup = (4, exHost 4)"
  by (simp add: getPrimary_def exBackup_fields leader_of_four gget_def)

lemma exBackup_getTimeout: "getTimeout exBackup = 750000000"
  by (simp add: getTimeout_def exBackup_not_primary exBackup_fields TIMEOUT_def wrap64_def quot64_def)

lemmas exBackup_simps = exBackup_fields exBackup_not_primary exBackup_getTimer exBackup_getPrimary
  exBackup_getTimeout

lemma exBackup_timer: "exBackup\<lparr>timeoutTimer := Some (newTimer 750000000)\<rparr> = exBackup"
  by (simp add: exBackup_eq)

text \<open>The definitions a step of the runs unfolds.\<close>

lemmas ex_step = handleMessages_def getTimer_def Let_def ensureMapping_def slotAt_def putSlot_def
  gput_def gget_def emptySlot_def exSign initCheckpoint_def add64_def wrap64_def CHECKPOINT_def andThen_def
  ret_def emit_def

lemma ex_accepted:
  "handleMessages example_pgp (EvPrePrepare exPrePrepare) exBackup =
     Inr (exBackup_accepted, [Broadcast (RpcPrepare (exPrepare 1))])"
  using exValid [of 4]
  by (simp add: ex_step exBackup_simps exBackup_timer handlePrePrepare_def acceptPrePrepare_def
      SignedPrePrepare_SignatureValid_def zeroPrePrepare_def exPrePrepare_def exPrepare_def
      exBackup_accepted_def exSlot1_def exDigest_def)

lemma ex_prepared:
  "handleMessages example_pgp (EvPrepare (exPrepare 3)) exBackup_accepted =
     Inr (exBackup_prepared, [Broadcast (RpcCommit (exCommit 1))])"
  using exValid [of 3]
  by (simp add: ex_step exBackup_simps handlePrepare_def SignedPrepare_SignatureValid_def isPrepared_def
      exPrepare_def exCommit_def exBackup_accepted_def exBackup_prepared_def exSlot1_def exSlot2_def)

lemma ex_committed:
  "handleMessages example_pgp (EvCommit (exCommit 3)) exBackup_prepared =
     Inr (exBackup_committed, [Committed (Some ''op'')])"
  using exValid [of 3]
  by (simp add: ex_step exBackup_simps handleCommit_def SignedCommit_SignatureValid_def isCommitted_def
      Before_def tryCheckpoint_def
      exCommit_def exBackup_accepted_def exBackup_prepared_def exBackup_committed_def exSlot1_def
      exSlot2_def exSlot3_def)

lemma exBackup_reachable: "reachable C exBackup"
  unfolding reachable_def using exBackup_started by blast

lemma exBackup_accepted_reachable: "reachable example_pgp exBackup_accepted"
  by (rule reachable_event [OF exBackup_reachable ex_accepted])

lemma exBackup_prepared_reachable: "reachable example_pgp exBackup_prepared"
  by (rule reachable_event [OF exBackup_accepted_reachable ex_prepared])

lemma exBackup_committed_reachable: "reachable example_pgp exBackup_committed"
  by (rule reachable_event [OF exBackup_prepared_reachable ex_committed])

section \<open>A checkpoint becomes stable\<close>

definition exCheckpoint :: "NodeId \<Rightarrow> SignedCheckpoint" where
  "exCheckpoint i = projr (Checkpoint_Sign example_pgp (exKey i)
     \<lparr>ck_Number = SlotId 0 100, ck_Snapshot = [1], ck_Node = i\<rparr>)"

definition exProof :: "NodeId list \<Rightarrow> CheckpointProof" where
  "exProof is = \<lparr>cp_Number = SlotId 0 100, cp_Snapshot = [1], cp_Proof = map (\<lambda>i. (i, exCheckpoint i)) is\<rparr>"

definition exBackup_votes :: "NodeId list \<Rightarrow> PBFTNode" where
  "exBackup_votes is = exBackup\<lparr>pendingCheckpoints := [(SlotId 0 100, exProof is)]\<rparr>"

definition exBackup_stable :: PBFTNode where
  "exBackup_stable = exBackup\<lparr>lastCheckpoint := exProof [2, 3, 4], sequenceNumber := 100\<rparr>"

lemmas ex_checkpoint = ex_step exBackup_simps handleCheckpoint_def handleCheckpointNoValidation_def
  SignedCheckpoint_SignatureValid_def isStable_def proofSize_def BeforeOrEqual_def Before_def
  exCheckpoint_def exProof_def exBackup_votes_def exBackup_stable_def

lemma ex_vote2:
  "handleMessages example_pgp (EvCheckpoint (exCheckpoint 2)) exBackup = Inr (exBackup_votes [2], [])"
  using exValid [of 2] by (simp add: ex_checkpoint)

lemma ex_vote3:
  "handleMessages example_pgp (EvCheckpoint (exCheckpoint 3)) (exBackup_votes [2]) = Inr (exBackup_votes [2, 3], [])"
  using exValid [of 3] by (simp add: ex_checkpoint)

lemma ex_vote4:
  "handleCheckpoint example_pgp (exCheckpoint 4) (exBackup_votes [2, 3]) = Inr (exBackup_stable, [Snapshotted [1]])"
  using exValid [of 4] by (simp add: ex_checkpoint checkpointed_def gkeys_def gdel_def)

lemma exBackup_votes_reachable: "reachable example_pgp (exBackup_votes [2, 3])"
  by (rule reachable_event [OF reachable_event [OF exBackup_reachable ex_vote2] ex_vote3])

section \<open>The leader proposes a request\<close>

lemma exLeader_fields:
  "node_id exLeader = 4" "node_entity exLeader = exKey 4"
  "peermap exLeader = [(1, exHost 1), (2, exHost 2), (3, exHost 3)]" "cluster exLeader = localCluster 4"
  "requests exLeader = []" "log exLeader = []" "viewNumber exLeader = 0"
  "sequenceNumber exLeader = 1" "issuedSequenceNumber exLeader = 1"
  "viewChange exLeader = \<lparr>vci_messages = [], vci_inProgress = False, vci_viewNumber = 0\<rparr>"
  "heartbeatTicker exLeader = Some (newTimer 500000000)"
  "caughtUp exLeader = [(1, 1), (2, 1), (3, 1)]"
  unfolding exLeader_eq by (simp_all add: initNode_def exPeers_def gput_def)

lemma exLeader_primary: "isPrimary exLeader"
  by (simp add: isPrimary_def exLeader_fields leader_of_four)

definition exLeader_proposed :: PBFTNode where
  "exLeader_proposed = exLeader\<lparr>requests := [(exDigest, \<lparr>ri_committed = False\<rparr>)], issuedSequenceNumber := 2,
     log := [(SlotId 0 2, exSlot1\<lparr>s_prepares := []\<rparr>)]\<rparr>"

lemma ex_proposed:
  "handleClientRequest example_pgp (Some ''op'') exLeader =
     Inr (exLeader_proposed, [Broadcast (RpcPrePrepare exPrePrepare)])"
  by (simp add: ex_step handleClientRequest_def exLeader_fields exLeader_primary exLeader_proposed_def
      exSlot1_def exPrePrepare_def exDigest_def)

section \<open>A view change\<close>

definition exViewChange :: "NodeId \<Rightarrow> SignedViewChange" where
  "exViewChange i = projr (ViewChange_Sign example_pgp (exKey i)
     \<lparr>vc_ViewNumber = 1, vc_Checkpoint = SlotId 0 0, vc_CheckpointProof = [], vc_Proofs = [], vc_Node = i\<rparr>)"

text \<open>Node 1 has a message of node \<open>i\<close>, then joins with a message of node 3.\<close>

definition exBackup_asked :: "NodeId \<Rightarrow> PBFTNode" where
  "exBackup_asked i = exBackup\<lparr>viewChange := \<lparr>vci_messages = [(i, exViewChange i)],
     vci_inProgress = False, vci_viewNumber = 0\<rparr>\<rparr>"

definition exBackup_joined :: PBFTNode where
  "exBackup_joined = stopTimers (exBackup\<lparr>viewChange := \<lparr>vci_messages = [(2, exViewChange 2), (3, exViewChange 3)],
     vci_inProgress = True, vci_viewNumber = 1\<rparr>\<rparr>)"

lemmas ex_viewchange = ex_step handleViewChange_def currentView_def SignedViewChange_SignatureValid_def
  startViewChange_def generateProofsSinceCheckpoint_def exViewChange_def

lemma ex_asked:
  "handleMessages example_pgp (EvViewChange (exViewChange 2)) exBackup = Inr (exBackup_asked 2, [])"
  using exValid [of 2] by (simp add: ex_viewchange exBackup_simps exBackup_asked_def)

lemma exBackup_asked_reachable: "reachable example_pgp (exBackup_asked 2)"
  by (rule reachable_event [OF exBackup_reachable ex_asked])

lemma ex_joined:
  "handleViewChange example_pgp (exViewChange 3) (exBackup_asked 2) =
     Inr (exBackup_joined, [Broadcast (RpcViewChange (exViewChange 1))])"
  using exValid [of 3] by (simp add: ex_viewchange exBackup_simps exBackup_asked_def exBackup_joined_def)

text \<open>Node 4, the leader of views 0 and 1, in the view change to view 1 and after it.\<close>

lemma exValid4:
  assumes "i \<in> {1, 2, 3}"
  shows "signer_id example_pgp (map exKey [1, 2, 3]) (ps_entityMap (exPeers [1, 2, 3])) doc
     (Fingerprint (exKey i) @ json_Encode doc) = Inr i"
  using assms by (auto simp: signer_id_def example_pgp_def exPeers_def ex_signers)

lemma exLeader_more:
  "lastCheckpoint exLeader = initCheckpoint" "down exLeader = False" "timeoutTimer exLeader = None"
  "peerEntityMap exLeader = ps_entityMap (exPeers [1, 2, 3])" "peerEntities exLeader = map exKey [1, 2, 3]"
  unfolding exLeader_eq by (simp_all add: initNode_def exPeers_def gput_def)

definition exLeader_asked :: PBFTNode where
  "exLeader_asked = exLeader\<lparr>viewChange := \<lparr>vci_messages = [(2, exViewChange 2)],
     vci_inProgress = False, vci_viewNumber = 0\<rparr>\<rparr>"

definition exLeader_changing :: PBFTNode where
  "exLeader_changing = stopTimers (exLeader\<lparr>viewChange := \<lparr>vci_messages = [(2, exViewChange 2), (3, exViewChange 3)],
     vci_inProgress = True, vci_viewNumber = 1\<rparr>\<rparr>)"

lemma ex_leader_asked:
  "handleMessages example_pgp (EvViewChange (exViewChange 2)) exLeader = Inr (exLeader_asked, [])"
  using exValid4 [of 2]
  by (simp add: ex_viewchange exLeader_fields exLeader_more exLeader_primary exLeader_asked_def)

lemma ex_leader_changing:
  "handleMessages example_pgp (EvViewChange (exViewChange 3)) exLeader_asked =
     Inr (exLeader_changing, [Broadcast (RpcViewChange (exViewChange 4))])"
  using exValid4 [of 3]
  by (simp add: ex_viewchange exLeader_fields exLeader_more exLeader_primary exLeader_asked_def exLeader_changing_def)

lemma exLeader_reachable: "reachable C exLeader"
  unfolding reachable_def using exLeader_started by blast

lemma exLeader_changing_reachable: "reachable example_pgp exLeader_changing"
  by (rule reachable_event [OF reachable_event [OF exLeader_reachable ex_leader_asked] ex_leader_changing])

definition exNewView :: NewView where
  "exNewView = \<lparr>nv_ViewNumber = 1, nv_ViewChanges = [(2, exViewChange 2), (3, exViewChange 3), (1, exViewChange 1)],
     nv_PrePrepares = [], nv_Node = 4\<rparr>"

definition exSignedNewView :: SignedNewView where
  "exSignedNewView = projr (NewView_Sign example_pgp (exKey 4) exNewView)"

definition exLeader_leads :: PBFTNode where
  "exLeader_leads = exLeader\<lparr>viewNumber := 1,
     viewChange := \<lparr>vci_messages = nv_ViewChanges exNewView, vci_inProgress = False, vci_viewNumber = 1\<rparr>,
     caughtUp := [(1, 0), (2, 0), (3, 0)], newView := exNewView, newViewShared := True\<rparr>"

lemma ex_leads:
  "handleViewChange example_pgp (exViewChange 1) exLeader_changing =
     Inr (exLeader_leads, [SendTo 1 (RpcNewView exSignedNewView), SendTo 2 (RpcNewView exSignedNewView),
       SendTo 3 (RpcNewView exSignedNewView)])"
  using exValid4 [of 1] leader_of_four
  by (simp add: ex_viewchange exLeader_fields exLeader_more exLeader_changing_def
      stopTimers_def leadNewView_def generatePrepreparesForNewView_def countVotes_def enterNewView_def
      startTimers_def sendHeartbeat_def exLeader_leads_def exSignedNewView_def exNewView_def isPrimary_def
      currentNewView_def caughtUpOf_def gkeys_def)
    (simp add: exLeader_eq initNode_def getTimeout_def isPrimary_def TIMEOUT_def)

end
