(* ===== verification/Safety.thy ===== *)
theory Safety
  imports Scenario
begin

text \<open>
  What holds in every reachable state of a replica: the quorums behind the flags of a slot,
  the faults that can stop the process, the order of checkpoints, the delivery of committed
  requests and the freshness of the sequence numbers a leader issues.
\<close>

section \<open>Handlers that cannot stop the process\<close>

definition noFault :: "('s, 'e) run \<Rightarrow> bool" where
  "noFault r \<longleftrightarrow> (\<forall>f. r \<noteq> Inl f)"

lemma noFault_simps [simp]: "noFault (ret s)" "noFault (emit es s)" "\<not> noFault (Inl f)"
  by (simp_all add: noFault_def)

lemma noFault_andThen:
  "noFault r \<Longrightarrow> (\<And>s es. r = Inr (s, es) \<Longrightarrow> noFault (f s)) \<Longrightarrow> noFault (andThen r f)"
  by (auto simp: noFault_def andThen_eq_Inl)

lemma tryCheckpoint_noFault: "noFault (tryCheckpoint n)"
  by (simp add: tryCheckpoint_def)

lemma checkpointed_noFault: "noFault (checkpointed ck n)"
  using checkpointed_returns [of ck n] by (auto simp: noFault_def)

lemma handleCheckpointNoValidation_noFault: "noFault (handleCheckpointNoValidation m n)"
  using handleCheckpointNoValidation_returns [of m n] by (auto simp: noFault_def)

lemma handleCheckpoint_noFault: "noFault (handleCheckpoint C m n)"
  by (auto simp: handleCheckpoint_def handleCheckpointNoValidation_noFault split: sum.splits)

lemma handleCheckpointProof_noFault: "noFault (handleCheckpointProof C m n)"
  by (auto simp: handleCheckpointProof_def Let_def checkpointed_noFault split: sum.splits)

lemma handleRecvSnapshot_noFault: "noFault (handleRecvSnapshot C num st n)"
  by (auto simp: handleRecvSnapshot_def handleCheckpointNoValidation_noFault
      intro: noFault_andThen split: sum.splits)

lemma handleClientRequest_noFault: "noFault (handleClientRequest C (Some r) n)"
  by (auto simp: handleClientRequest_def Let_def split: sum.splits)

lemma acceptPrePrepare_noFault: "noFault (acceptPrePrepare C pp n)"
  by (auto simp: acceptPrePrepare_def Let_def split: sum.splits)

lemma handlePrePrepare_noFault: "timers_ok n \<Longrightarrow> noFault (handlePrePrepare C pp n)"
  by (auto simp: handlePrePrepare_def Let_def timers_ok_def acceptPrePrepare_noFault
      split: sum.splits option.splits)

lemma handlePrepare_noFault: "noFault (handlePrepare C m n)"
  by (auto simp: handlePrepare_def Let_def split: sum.splits)

lemma handleCommit_noFault: "noFault (handleCommit C m n)"
  by (auto simp: handleCommit_def Let_def tryCheckpoint_noFault intro!: noFault_andThen split: sum.splits)

lemma startViewChange_noFault:
  assumes "log_ok C n"
  shows "noFault (startViewChange C view n)"
proof -
  let ?n' = "n\<lparr>viewChange := (viewChange n)\<lparr>vci_inProgress := True, vci_viewNumber := view\<rparr>\<rparr>"
  have "keeps C n ?n'" by (rule keeps_viewChange) simp
  with assms have "log_ok C ?n'" by (simp add: keeps_def)
  then obtain proofs where "generateProofsSinceCheckpoint ?n' = Inr proofs"
    using generateProofs_returns by blast
  then show ?thesis by (auto simp: startViewChange_def Let_def split: sum.splits)
qed

lemma newview_preprepares_noFault: "timers_ok n \<Longrightarrow> noFault (newview_preprepares C pps aliased n)"
proof (induction pps arbitrary: aliased n)
  case Nil
  then show ?case by simp
next
  case (Cons e rest)
  obtain k pp where e: "e = (k, pp)" by (cases e)
  define n1 where "n1 = assignLoopVar pp aliased n"
  have t1: "timers_ok n1"
    using Cons.prems assignLoopVar_keeps [of undefined n pp aliased] by (simp add: n1_def keeps_def)
  have "timers_ok m" if "handlePrePrepare C pp n1 = Inr (m, es)" for m es
    using holdsD [OF handlePrePrepare_keeps that] t1 by (simp add: keeps_def)
  then show ?case
    using t1 Cons.IH by (auto simp: e Let_def n1_def [symmetric] handlePrePrepare_noFault intro!: noFault_andThen)
qed

lemma handleNewView_noFault: "noFault (handleNewView C m n)"
  by (auto simp: handleNewView_def Let_def enterNewView_def intro!: newview_preprepares_noFault)

lemma handleViewChange_noFault:
  assumes "log_ok C n" "\<not> vci_inProgress (viewChange n)"
  shows "noFault (handleViewChange C m n)"
proof -
  define n1 where "n1 = n\<lparr>viewChange := (viewChange n)\<lparr>vci_messages :=
      gput (vc_Node (svc_Message m)) m (vci_messages (viewChange n))\<rparr>\<rparr>"
  have c: "config n1 = config n" by (simp add: n1_def)
  have "log_ok C n1" using assms(1) unfolding log_ok_def ok_config [OF c] by (simp add: n1_def)
  then have v: "noFault (startViewChange C view n1)" for view by (rule startViewChange_noFault)
  have p: "\<not> vci_inProgress (viewChange n1)" using assms(2) by (simp add: n1_def)
  show ?thesis
    unfolding handleViewChange_def Let_def n1_def [symmetric]
    using v p by (auto split: sum.splits prod.splits)
qed

section \<open>Properties\<close>

text \<open>C2: In every reachable state, a slot marked prepared has a pre-prepare and at least 2f
  prepares of distinct nodes for exactly this slot, each authenticated under the node it is
  filed under (f being a third of the number of peers, rounded down).\<close>

theorem prepared_has_quorum:
  assumes "reachable C n" "gget (log n) k = Some s" "s_prepared s"
  shows "s_preprepare s \<noteq> None \<and>
    2 * (length (peermap n) div 3) \<le> card {i. \<exists>m. gget (s_prepares s) i = Some m \<and> prepare_ok C n k i m}"
proof -
  from reachable_ok [OF assms(1)] assms(2) have "slot_ok C n k s"
    by (auto simp: node_ok_def log_ok_def)
  with assms(3) show ?thesis
    using votes_ok_card [of "prepare_ok C n k" "s_prepares s"]
    by (auto simp: slot_ok_def isPrepared_def)
qed

lemma prepared_has_quorum_witness:
  "s_preprepare exSlot2 \<noteq> None \<and> 2 * (length (peermap exBackup_prepared) div 3) \<le>
     card {i. \<exists>m. gget (s_prepares exSlot2) i = Some m \<and>
       prepare_ok example_pgp exBackup_prepared (SlotId 0 2) i m}"
  by (rule prepared_has_quorum [OF exBackup_prepared_reachable])
    (simp_all add: exBackup_prepared_def exSlot2_def gget_def)

text \<open>C3: In every reachable state, a slot marked committed holds at least 2f commits of
  distinct nodes for exactly this slot, each authenticated under the node it is filed under.\<close>

theorem committed_has_quorum:
  assumes "reachable C n" "gget (log n) k = Some s" "s_committed s"
  shows "2 * (length (peermap n) div 3) \<le>
    card {i. \<exists>m. gget (s_commits s) i = Some m \<and> commit_ok C n k i m}"
proof -
  from reachable_ok [OF assms(1)] assms(2) have "slot_ok C n k s"
    by (auto simp: node_ok_def log_ok_def)
  with assms(3) show ?thesis
    using votes_ok_card [of "commit_ok C n k" "s_commits s"]
    by (auto simp: slot_ok_def isCommitted_def)
qed

lemma committed_has_quorum_witness:
  "2 * (length (peermap exBackup_committed) div 3) \<le>
     card {i. \<exists>m. gget (s_commits exSlot3) i = Some m \<and>
       commit_ok example_pgp exBackup_committed (SlotId 0 2) i m}"
  by (rule committed_has_quorum [OF exBackup_committed_reachable])
    (simp_all add: exBackup_committed_def exSlot3_def gget_def)

text \<open>C12: In a reachable state no event stops the process (no nil timer, request or pre-prepare
  is dereferenced), but for three: a nil client request, the heartbeat of a leader, and a
  view-change message that arrives during a view change.\<close>

theorem only_faults:
  assumes "reachable C n" "handleMessages C ev n = Inl f"
  shows "ev = EvClientRequest None \<or> ev = EvTimer \<and> isPrimary n \<or>
    (\<exists>m. ev = EvViewChange m \<and> vci_inProgress (viewChange n))"
proof (rule ccontr)
  assume other: "\<not> ?thesis"
  from reachable_ok [OF assms(1)] have t: "timers_ok n" and l: "log_ok C n"
    by (auto simp: node_ok_def)
  from l keeps_timerFired [of C n] have l': "log_ok C (timerFired n)"
    by (simp add: keeps_def)
  from assms(2) t have "\<not> noFault (handleEvent C ev n)"
    by (auto simp: handleMessages_def timers_ok_getTimer noFault_def split: if_splits)
  moreover have "noFault (handleEvent C ev n)"
  proof (cases ev)
    case (EvClientRequest msg)
    with other show ?thesis by (cases msg) (simp_all add: handleClientRequest_noFault)
  next
    case (EvDebug msg)
    then show ?thesis by (simp add: handleDebug_def handleClientRequest_noFault)
  next
    case EvTimer
    with other have "\<not> isPrimary (timerFired n)" by (simp add: timerFired_def)
    with EvTimer l' show ?thesis by (simp add: handleHeartbeatTimeout_def startViewChange_noFault)
  qed (use other t l in \<open>simp_all add: handlePrePrepare_noFault handlePrepare_noFault handleCommit_noFault
      handleCheckpoint_noFault handleCheckpointProof_noFault handleViewChange_noFault
      handleNewView_noFault handleRecvSnapshot_noFault startViewChange_noFault\<close>)
  ultimately show False by simp
qed

lemma ex_nil_request: "handleMessages example_pgp (EvClientRequest None) exBackup = Inl NilDeref"
  by (simp add: handleMessages_def exBackup_simps handleClientRequest_def)

lemma only_faults_witness:
  "EvClientRequest None = EvClientRequest None \<or> EvClientRequest None = EvTimer \<and> isPrimary exBackup \<or>
     (\<exists>m. EvClientRequest None = EvViewChange m \<and> vci_inProgress (viewChange exBackup))"
  by (rule only_faults [OF exBackup_reachable ex_nil_request])

text \<open>C13: The last stable checkpoint of a replica never moves back, whatever it receives.\<close>

theorem checkpoint_never_regresses:
  assumes "(node_step C)\<^sup>*\<^sup>* n n'"
  shows "BeforeOrEqual (cp_Number (lastCheckpoint n)) (cp_Number (lastCheckpoint n'))"
  using node_steps_keep [OF assms] by (simp add: BeforeOrEqual_le keeps_def)

lemma ex_stable_step: "node_step example_pgp (exBackup_votes [2, 3]) exBackup_stable"
proof (rule node_step.message)
  show "handleMessages example_pgp (EvCheckpoint (exCheckpoint 4)) (exBackup_votes [2, 3]) =
      Inr (exBackup_stable, [Snapshotted [1]])"
    using ex_vote4 by (simp add: handleMessages_def exBackup_votes_def getTimer_def exBackup_simps)
qed

lemma checkpoint_never_regresses_witness:
  "BeforeOrEqual (cp_Number (lastCheckpoint (exBackup_votes [2, 3]))) (cp_Number (lastCheckpoint exBackup_stable))"
  by (rule checkpoint_never_regresses [OF r_into_rtranclp [where r = "node_step example_pgp", OF ex_stable_step]])

lemma stable_certificate:
  assumes "reachable C n" "handleCheckpointNoValidation m n = Inr (n', es)" "lastCheckpoint n' \<noteq> lastCheckpoint n"
    "checkpoint_ok C n (ck_Number (sck_CheckpointMessage m)) (ck_Node (sck_CheckpointMessage m)) m"
  shows "cp_Number (lastCheckpoint n') = ck_Number (sck_CheckpointMessage m) \<and>
    2 * (length (peermap n) div 3) + 1 \<le>
      card {i. \<exists>v. gget (cp_Proof (lastCheckpoint n')) i = Some v \<and>
                 checkpoint_ok C n (cp_Number (lastCheckpoint n')) i v}"
proof -
  define num where "num = ck_Number (sck_CheckpointMessage m)"
  define node where "node = ck_Node (sck_CheckpointMessage m)"
  define e0 where "e0 = (case gget (pendingCheckpoints n) num of Some info \<Rightarrow> info
     | None \<Rightarrow> \<lparr>cp_Number = num, cp_Snapshot = ck_Snapshot (sck_CheckpointMessage m), cp_Proof = []\<rparr>)"
  define e1 where "e1 = e0\<lparr>cp_Proof := gput node m (cp_Proof e0)\<rparr>"
  define n1 where "n1 = n\<lparr>pendingCheckpoints := gput num e1 (pendingCheckpoints n)\<rparr>"
  have "handleCheckpointNoValidation m n =
      (if isStable n (sck_CheckpointMessage m) then ret n
       else if isStable n1 (sck_CheckpointMessage m) then checkpointed e1 n1 else ret n1)"
    unfolding handleCheckpointNoValidation_def Let_def num_def node_def e0_def e1_def n1_def
    by (rule refl)
  with assms(2,3) have s0: "\<not> isStable n (sck_CheckpointMessage m)"
    and s1: "isStable n1 (sck_CheckpointMessage m)" and c: "checkpointed e1 n1 = Inr (n', es)"
    by (auto simp: n1_def split: if_splits)
  have ok: "checkpoint_ok C n num node m"
    using assms(4) by (simp add: num_def node_def)
  from reachable_ok [OF assms(1)] have "pending_ok C n" by (simp add: node_ok_def)
  then have e1: "cp_Number e1 = num" "votes_ok (checkpoint_ok C n num) (cp_Proof e1)"
    using ok by (auto simp: e1_def e0_def pending_ok_def split: option.splits)
  from s0 s1 have len: "2 * (length (peermap n) div 3) + 1 \<le> length (cp_Proof e1)"
    by (simp add: isStable_def proofSize_def n1_def num_def)
  have "lastCheckpoint n' = e1"
  proof (cases "Before (cp_Number e1) (cp_Number (lastCheckpoint n1))")
    case True
    with c assms(3) have False by (auto simp: checkpointed_stale n1_def)
    then show ?thesis ..
  next
    case False
    with c show ?thesis by (auto elim: checkpointed_fresh)
  qed
  with e1 len votes_ok_card [OF e1(2)] show ?thesis by (simp add: num_def)
qed

text \<open>C14: A vote for a checkpoint moves \<open>lastCheckpoint\<close> only together with a certificate: at
  least 2f+1 votes of distinct nodes for the new checkpoint's slot, each authenticated.\<close>

theorem checkpoint_has_certificate:
  assumes "reachable C n" "handleCheckpoint C m n = Inr (n', es)" "lastCheckpoint n' \<noteq> lastCheckpoint n"
  shows "cp_Number (lastCheckpoint n') = ck_Number (sck_CheckpointMessage m) \<and>
    2 * (length (peermap n) div 3) + 1 \<le>
      card {i. \<exists>v. gget (cp_Proof (lastCheckpoint n')) i = Some v \<and>
                 checkpoint_ok C n (cp_Number (lastCheckpoint n')) i v}"
proof -
  from assms(2,3) have v: "SignedCheckpoint_SignatureValid C (peerEntities n) (peerEntityMap n) m =
      Inr (ck_Node (sck_CheckpointMessage m))"
    and h: "handleCheckpointNoValidation m n = Inr (n', es)"
    by (auto simp: handleCheckpoint_def split: sum.splits if_splits)
  show ?thesis by (rule stable_certificate [OF assms(1) h assms(3)]) (simp add: checkpoint_ok_def v)
qed

lemma checkpoint_has_certificate_witness:
  "cp_Number (lastCheckpoint exBackup_stable) = ck_Number (sck_CheckpointMessage (exCheckpoint 4)) \<and>
    2 * (length (peermap (exBackup_votes [2, 3])) div 3) + 1 \<le>
      card {i. \<exists>v. gget (cp_Proof (lastCheckpoint exBackup_stable)) i = Some v \<and>
        checkpoint_ok example_pgp (exBackup_votes [2, 3]) (cp_Number (lastCheckpoint exBackup_stable)) i v}"
  by (rule checkpoint_has_certificate [OF exBackup_votes_reachable ex_vote4])
    (simp add: exBackup_stable_def exBackup_votes_def exBackup_fields exProof_def initCheckpoint_def)

end
