(* ===== verification/Delivery.thy ===== *)
theory Delivery
  imports Safety
begin

text \<open>
  When a request is handed to the key node, and which sequence numbers a leader issues.
\<close>

section \<open>Handlers that deliver nothing\<close>

definition quiet :: "'s \<Rightarrow> effect list \<Rightarrow> bool" where
  "quiet n es \<longleftrightarrow> (\<forall>r. Committed r \<notin> set es)"

lemma quiet_simps [simp]:
  "quiet n []" "quiet n (Broadcast m # es) = quiet n es" "quiet n (SendTo p m # es) = quiet n es"
  "quiet n (SnapshotRequested k # es) = quiet n es" "quiet n (Snapshotted s # es) = quiet n es"
  "\<not> quiet n (Committed r # es)" "quiet n (es @ es') \<longleftrightarrow> quiet n es \<and> quiet n es'"
  by (auto simp: quiet_def)

lemma quiet_andThen: "holds quiet r \<Longrightarrow> (\<And>s. holds quiet (f s)) \<Longrightarrow> holds quiet (andThen r f)"
  by (rule holds_andThenI [where P = quiet and Q = "\<lambda>_. quiet"]) (auto simp: quiet_def)

lemma checkpointed_quiet: "holds quiet (checkpointed ck n)"
  by (simp add: checkpointed_def Let_def)

lemma handleCheckpointNoValidation_quiet: "holds quiet (handleCheckpointNoValidation m n)"
  by (simp add: handleCheckpointNoValidation_def Let_def checkpointed_quiet)

lemma handleCheckpoint_quiet: "holds quiet (handleCheckpoint C m n)"
  by (auto simp: handleCheckpoint_def handleCheckpointNoValidation_quiet split: sum.splits)

lemma handleCheckpointProof_quiet: "holds quiet (handleCheckpointProof C m n)"
  by (auto simp: handleCheckpointProof_def Let_def checkpointed_quiet split: sum.splits)

lemma handleRecvSnapshot_quiet: "holds quiet (handleRecvSnapshot C num st n)"
  by (auto simp: handleRecvSnapshot_def intro!: quiet_andThen handleCheckpointNoValidation_quiet split: sum.splits)

lemma handleClientRequest_quiet: "holds quiet (handleClientRequest C r n)"
  by (auto simp: handleClientRequest_def Let_def split: option.splits sum.splits)

lemma acceptPrePrepare_quiet: "holds quiet (acceptPrePrepare C pp n)"
  by (auto simp: acceptPrePrepare_def Let_def split: sum.splits)

lemma handlePrePrepare_quiet: "holds quiet (handlePrePrepare C pp n)"
  by (auto simp: handlePrePrepare_def Let_def acceptPrePrepare_quiet split: option.splits sum.splits)

lemma handlePrepare_quiet: "holds quiet (handlePrepare C m n)"
  by (auto simp: handlePrepare_def Let_def split: sum.splits)

lemma heartbeats_quiet: "heartbeats C n ps = Inr es \<Longrightarrow> quiet n es"
  by (induction ps arbitrary: es) (auto split: if_splits sum.splits)

lemma sendHeartbeat_quiet: "holds quiet (sendHeartbeat C n)"
  by (auto simp: sendHeartbeat_def heartbeats_quiet split: sum.splits)

lemma startViewChange_quiet: "holds quiet (startViewChange C v n)"
  by (auto simp: startViewChange_def Let_def split: sum.splits)

lemma leadNewView_quiet: "holds quiet (leadNewView C v n)"
  by (auto simp: leadNewView_def Let_def sendHeartbeat_quiet split: sum.splits prod.splits)

lemma handleViewChange_quiet: "holds quiet (handleViewChange C m n)"
  by (auto simp: handleViewChange_def Let_def startViewChange_quiet leadNewView_quiet
      split: sum.splits prod.splits)

lemma newview_preprepares_quiet: "holds quiet (newview_preprepares C pps aliased n)"
proof (induction pps arbitrary: aliased n)
  case (Cons e rest)
  then show ?case by (cases e) (auto simp: Let_def intro!: quiet_andThen handlePrePrepare_quiet)
qed simp

lemma handleNewView_quiet: "holds quiet (handleNewView C m n)"
  by (simp add: handleNewView_def Let_def newview_preprepares_quiet)

lemma handleEvent_quiet: "\<nexists>m. ev = EvCommit m \<Longrightarrow> holds quiet (handleEvent C ev n)"
  by (cases ev)
    (simp_all add: handlePrePrepare_quiet handleClientRequest_quiet handlePrepare_quiet
      handleCheckpoint_quiet handleCheckpointProof_quiet handleViewChange_quiet handleNewView_quiet
      handleRecvSnapshot_quiet startViewChange_quiet handleDebug_def handleHeartbeatTimeout_def
      sendHeartbeat_quiet)

lemma handleMessages_quiet: "\<nexists>m. ev = EvCommit m \<Longrightarrow> holds quiet (handleMessages C ev n)"
  by (auto simp: handleMessages_def handleEvent_quiet split: sum.splits)

section \<open>Delivery\<close>

lemma handleCommit_delivery:
  assumes "handleCommit C m n = Inr (n', es)" "Committed r \<in> set es"
  shows "\<not> s_committed (slotAt n (c_Number (sc_CommitMessage m))) \<and>
    s_committed (slotAt n' (c_Number (sc_CommitMessage m))) \<and>
    isCommitted n (slotAt n' (c_Number (sc_CommitMessage m))) \<and>
    r = s_request (slotAt n (c_Number (sc_CommitMessage m))) \<and>
    (\<exists>rest. es = Committed r # rest \<and> quiet n rest)"
  using assms
  by (auto simp: handleCommit_def Let_def andThen_def emit_def tryCheckpoint_def ret_def isCommitted_def
      split: sum.splits if_splits)

section \<open>Sequence numbers\<close>

text \<open>Every slot that holds a request has a sequence number that was issued.\<close>

definition issued_ok :: "PBFTNode \<Rightarrow> bool" where
  "issued_ok n \<longleftrightarrow> (\<forall>k s. gget (log n) k = Some s \<longrightarrow> s_request s \<noteq> None \<longrightarrow> SeqNumber k \<le> issuedSequenceNumber n)"

definition advances :: "PBFTNode \<Rightarrow> PBFTNode \<Rightarrow> bool" where
  "advances n n' \<longleftrightarrow> issuedSequenceNumber n \<le> issuedSequenceNumber n' \<and> (issued_ok n \<longrightarrow> issued_ok n')"

lemma advances_refl [simp]: "advances n n"
  by (simp add: advances_def)

lemma advances_trans: "advances n m \<Longrightarrow> advances m r \<Longrightarrow> advances n r"
  by (auto simp: advances_def)

interpretation advancing: run_preorder advances
  by unfold_locales (auto intro: advances_trans)

lemmas holds_advances_trans = advancing.holds_trans

lemma advances_log:
  "issuedSequenceNumber n' = issuedSequenceNumber n \<Longrightarrow>
    (\<And>k s. gget (log n') k = Some s \<Longrightarrow> gget (log n) k = Some s) \<Longrightarrow> advances n n'"
  by (fastforce simp: advances_def issued_ok_def)

lemma advances_put:
  assumes "advances n m" "s_request s \<noteq> None \<Longrightarrow> issued_ok n \<Longrightarrow> SeqNumber k \<le> issuedSequenceNumber m"
  shows "advances n (putSlot k s m)"
  using assms by (auto simp: advances_def issued_ok_def)

lemma issued_ok_slot:
  "s_request (slotAt n k) = Some r \<Longrightarrow> issued_ok n \<Longrightarrow> SeqNumber k \<le> issuedSequenceNumber n"
  by (auto simp: issued_ok_def slotAt_def split: option.splits)

lemma advances_raise: "issuedSequenceNumber n \<le> i \<Longrightarrow> advances n (n\<lparr>issuedSequenceNumber := i\<rparr>)"
  unfolding advances_def issued_ok_def by (fastforce intro: order_trans)

lemma advances_ensureMapping: "advances n (ensureMapping k n)"
  by (auto simp: ensureMapping_def intro: advances_put split: option.splits)

lemma checkpointed_advances: "holds (\<lambda>m es. advances n m) (checkpointed ck n)"
  unfolding checkpointed_def Let_def
  by (auto simp: gget_fold_gdel split: if_splits intro!: advances_log)

lemma handleCheckpointNoValidation_advances: "holds (\<lambda>m es. advances n m) (handleCheckpointNoValidation m' n)"
  unfolding handleCheckpointNoValidation_def Let_def
  by (auto intro: advances_log intro!: holds_advances_trans [OF _ checkpointed_advances])

lemma handleCheckpoint_advances: "holds (\<lambda>m es. advances n m) (handleCheckpoint C m' n)"
  by (auto simp: handleCheckpoint_def handleCheckpointNoValidation_advances split: sum.splits)

lemma handleCheckpointProof_advances: "holds (\<lambda>m es. advances n m) (handleCheckpointProof C m' n)"
  unfolding handleCheckpointProof_def Let_def
  by (auto split: sum.splits intro: advances_log intro!: holds_advances_trans [OF _ checkpointed_advances])

lemma handleRecvSnapshot_advances: "holds (\<lambda>m es. advances n m) (handleRecvSnapshot C num st n)"
  unfolding handleRecvSnapshot_def
  by (auto split: sum.splits intro!: holds_andThenI [OF handleCheckpointNoValidation_advances,
      where Q = "\<lambda>s t es. t = s"])

lemma acceptPrePrepare_advances: "holds (\<lambda>m es. advances n m) (acceptPrePrepare C pp n)"
proof -
  define num where "num = pp_Number (spp_PrePrepareMessage (fpp_SignedMessage pp))"
  define n1 where "n1 = (if SeqNumber num > issuedSequenceNumber n
      then n\<lparr>issuedSequenceNumber := SeqNumber num\<rparr> else n)"
  have a: "advances n n1" and le: "SeqNumber num \<le> issuedSequenceNumber n1"
    by (auto simp: n1_def advances_raise)
  show ?thesis
    unfolding acceptPrePrepare_def Let_def num_def [symmetric] n1_def [symmetric]
    by (auto split: sum.splits intro!: advances_put a simp: le)
qed

lemma handlePrePrepare_advances: "holds (\<lambda>m es. advances n m) (handlePrePrepare C pp n)"
proof -
  have t: "advances n (n\<lparr>timeoutTimer := Some t\<rparr>)" for t by (rule advances_log) simp_all
  show ?thesis
    unfolding handlePrePrepare_def Let_def
    by (auto split: sum.splits option.splits simp: t
        intro!: advances_trans [OF t advances_ensureMapping]
          holds_advances_trans [OF advances_trans [OF t advances_ensureMapping] acceptPrePrepare_advances])
qed

lemma handlePrepare_advances: "holds (\<lambda>m es. advances n m) (handlePrepare C m' n)"
  unfolding handlePrepare_def Let_def
  by (auto split: sum.splits intro!: advances_put intro: issued_ok_slot)

lemma handleCommit_advances: "holds (\<lambda>m es. advances n m) (handleCommit C m' n)"
proof -
  have q: "advances n (n\<lparr>sequenceNumber := i\<rparr>)" for i by (rule advances_log) simp_all
  show ?thesis
    unfolding handleCommit_def Let_def
    by (auto split: sum.splits simp: andThen_def emit_def tryCheckpoint_def ret_def
        intro!: advances_put q intro: issued_ok_slot)
qed

lemma startViewChange_advances: "holds (\<lambda>m es. advances n m) (startViewChange C view n)"
  unfolding startViewChange_def Let_def
  by (auto split: sum.splits intro!: advances_log)

lemma generatePreprepares_advances:
  assumes "generatePrepreparesForNewView C view n = Inr (n', pps)"
  shows "advances n n'"
proof -
  from assms obtain maxS n1 where p: "proposes C maxS n n1"
    and n': "n' = (if maxS > issuedSequenceNumber n1 then n1\<lparr>issuedSequenceNumber := maxS\<rparr> else n1)"
    unfolding generatePrepreparesForNewView_def Let_def
    by (auto split: prod.splits if_splits option.splits sum.splits dest!: newview_loop_proposes)
      (metis proposes_refl order_less_imp_not_less less_irrefl)+
  from p obtain lg where n1: "n1 = n\<lparr>log := lg\<rparr>"
    and lg: "\<And>k s. gget lg k = Some s \<Longrightarrow> gget (log n) k = Some s \<or> SeqNumber k \<le> maxS"
    unfolding proposes_def by blast
  have "issuedSequenceNumber n' = max maxS (issuedSequenceNumber n)" "log n' = lg"
    using n' n1 by auto
  with lg show ?thesis unfolding advances_def issued_ok_def by fastforce
qed

lemma leadNewView_advances: "holds (\<lambda>m es. advances n m) (leadNewView C view n)"
proof (rule holdsI)
  fix m es assume "leadNewView C view n = Inr (m, es)"
  then obtain n1 pps where g: "generatePrepreparesForNewView C view n = Inr (n1, pps)"
    and m: "sendHeartbeat C (enterNewView view (n1\<lparr>newView := \<lparr>nv_ViewNumber = view,
       nv_ViewChanges = vci_messages (viewChange n1), nv_PrePrepares = pps, nv_Node = node_id n1\<rparr>,
       newViewShared := True,
       caughtUp := fold (\<lambda>p m. gput p 0 m) (gkeys (peermap n1)) (caughtUp n1)\<rparr>)) = Inr (m, es)"
    by (auto simp: leadNewView_def Let_def split: sum.splits)
  from holdsD [OF sendHeartbeat_same m] have "advances n1 m"
    by (auto simp: enterNewView_def intro: advances_log)
  with generatePreprepares_advances [OF g] show "advances n m" by (rule advances_trans)
qed

lemma handleViewChange_advances: "holds (\<lambda>m es. advances n m) (handleViewChange C msg n)"
proof -
  define n1 where "n1 = n\<lparr>viewChange := (viewChange n)\<lparr>vci_messages :=
      gput (vc_Node (svc_Message msg)) msg (vci_messages (viewChange n))\<rparr>\<rparr>"
  have a: "advances n n1" unfolding n1_def by (rule advances_log) simp_all
  show ?thesis
    unfolding handleViewChange_def Let_def n1_def [symmetric]
    by (auto split: sum.splits prod.splits intro: a holds_advances_trans [OF a startViewChange_advances]
        holds_advances_trans [OF a leadNewView_advances])
qed

text \<open>A slot that holds a request goes on holding one.\<close>

definition requests_stay :: "PBFTNode \<Rightarrow> PBFTNode \<Rightarrow> bool" where
  "requests_stay n m \<longleftrightarrow> (\<forall>k. s_request (slotAt n k) \<noteq> None \<longrightarrow> s_request (slotAt m k) \<noteq> None)"

lemma handlePrePrepare_requests_stay: "holds (\<lambda>m es. requests_stay n m) (handlePrePrepare C pp n)"
proof -
  have num: "slotAt (n'\<lparr>issuedSequenceNumber := i\<rparr>) k = slotAt n' k" for n' i k
    by (simp add: slotAt_def)
  have "holds (\<lambda>m es. requests_stay n m) (acceptPrePrepare C pp n')"
    if "\<And>k. slotAt n' k = slotAt n k" for n'
    using that by (auto simp: num requests_stay_def acceptPrePrepare_def Let_def split: sum.splits)
  moreover have "slotAt (n\<lparr>timeoutTimer := t\<rparr>) k = slotAt n k" for k t
    by (simp add: slotAt_def)
  ultimately show ?thesis
    unfolding handlePrePrepare_def Let_def
    by (auto simp: requests_stay_def split: sum.splits option.splits)
qed

lemma assignLoopVar_advances:
  "\<forall>k\<in>set aliased. s_request (slotAt n k) \<noteq> None \<Longrightarrow>
     advances n (assignLoopVar pp aliased n) \<and>
     (\<forall>k\<in>set aliased. s_request (slotAt (assignLoopVar pp aliased n) k) \<noteq> None)"
proof (induction aliased arbitrary: n)
  case Nil
  then show ?case by (simp add: assignLoopVar_def)
next
  case (Cons k aliased)
  define n1 where "n1 = putSlot k ((slotAt n k)\<lparr>s_request := Some (fpp_Request pp),
       s_preprepare := Some (fpp_SignedMessage pp)\<rparr>) n"
  have a: "advances n n1"
    unfolding n1_def using Cons.prems by (auto intro!: advances_put intro: issued_ok_slot)
  have "\<forall>k'\<in>set aliased. s_request (slotAt n1 k') \<noteq> None"
    using Cons.prems by (simp add: n1_def)
  from Cons.IH [OF this] have IH: "advances n1 (assignLoopVar pp aliased n1)"
    "\<forall>k'\<in>set aliased. s_request (slotAt (assignLoopVar pp aliased n1) k') \<noteq> None" by auto
  have stay: "s_request (slotAt m k) \<noteq> None \<Longrightarrow> s_request (slotAt (assignLoopVar pp ks m) k) \<noteq> None"
    for m ks by (induction ks arbitrary: m) (auto simp: assignLoopVar_def)
  have "assignLoopVar pp (k # aliased) n = assignLoopVar pp aliased n1"
    by (simp add: assignLoopVar_def n1_def)
  moreover have "s_request (slotAt n1 k) \<noteq> None" by (simp add: n1_def)
  ultimately show ?case using a IH stay by (auto intro: advances_trans)
qed

lemma newview_preprepares_advances:
  "\<forall>k\<in>set aliased. s_request (slotAt n k) \<noteq> None \<Longrightarrow>
     holds (\<lambda>m es. advances n m) (newview_preprepares C pps aliased n)"
proof (induction pps arbitrary: aliased n)
  case Nil
  then show ?case by simp
next
  case (Cons e rest)
  obtain x pp where e: "e = (x, pp)" by (cases e)
  define n1 where "n1 = assignLoopVar pp aliased n"
  define num where "num = pp_Number (spp_PrePrepareMessage (fpp_SignedMessage pp))"
  from assignLoopVar_advances [OF Cons.prems, of pp]
  have a: "advances n n1" and al: "\<forall>k\<in>set aliased. s_request (slotAt n1 k) \<noteq> None"
    by (auto simp: n1_def)
  show ?case
  proof (cases "SeqNumber num > sequenceNumber n1")
    case False
    then show ?thesis
      using holds_advances_trans [OF a Cons.IH [OF al]] by (simp add: e Let_def n1_def num_def)
  next
    case True
    have "advances n1 m" if "andThen (handlePrePrepare C pp n1) (\<lambda>n'. newview_preprepares C rest
        (if s_request (slotAt n1 num) = None \<and> s_request (slotAt n' num) \<noteq> None
         then num # aliased else aliased) n') = Inr (m, es)" for m es
    proof -
      from that obtain n2 es1 es2 where h: "handlePrePrepare C pp n1 = Inr (n2, es1)"
        and r: "newview_preprepares C rest (if s_request (slotAt n1 num) = None \<and>
            s_request (slotAt n2 num) \<noteq> None then num # aliased else aliased) n2 = Inr (m, es2)"
        by (auto simp: andThen_eq_Inr)
      have "\<forall>k\<in>set (if s_request (slotAt n1 num) = None \<and> s_request (slotAt n2 num) \<noteq> None
          then num # aliased else aliased). s_request (slotAt n2 k) \<noteq> None"
        using al holdsD [OF handlePrePrepare_requests_stay h] by (auto simp: requests_stay_def)
      from holdsD [OF Cons.IH [OF this] r] holdsD [OF handlePrePrepare_advances h]
      show ?thesis by (blast intro: advances_trans)
    qed
    then have "holds (\<lambda>m es. advances n1 m) (andThen (handlePrePrepare C pp n1)
        (\<lambda>n'. newview_preprepares C rest
        (if s_request (slotAt n1 num) = None \<and> s_request (slotAt n' num) \<noteq> None
         then num # aliased else aliased) n'))"
      by (rule holdsI)
    moreover have "newview_preprepares C (e # rest) aliased n = andThen (handlePrePrepare C pp n1)
        (\<lambda>n'. newview_preprepares C rest
        (if s_request (slotAt n1 num) = None \<and> s_request (slotAt n' num) \<noteq> None
         then num # aliased else aliased) n')"
      unfolding e newview_preprepares.simps Let_def n1_def [symmetric] num_def [symmetric]
      using True by (simp only: if_True)
    ultimately show ?thesis by (simp only: holds_advances_trans [OF a])
  qed
qed

lemma handleNewView_advances: "holds (\<lambda>m es. advances n m) (handleNewView C msg n)"
proof -
  have a: "advances n (enterNewView view n)" for view
    by (rule advances_log) (simp_all add: enterNewView_def)
  show ?thesis
    unfolding handleNewView_def Let_def
    by (auto intro!: holds_advances_trans [OF a newview_preprepares_advances])
qed

lemma handleClientRequest_advances:
  assumes "int64 (issuedSequenceNumber n)" "issuedSequenceNumber n < maxInt64"
  shows "holds (\<lambda>m es. advances n m) (handleClientRequest C r n)"
proof -
  have i: "add64 (issuedSequenceNumber n) 1 = issuedSequenceNumber n + 1"
    using assms by (rule add64_succ)
  have f: "advances n (n\<lparr>requests := rq\<rparr>)" for rq by (rule advances_log) simp_all
  have "advances n (n\<lparr>requests := rq, issuedSequenceNumber := issuedSequenceNumber n + 1\<rparr>)" for rq
    using advances_trans [OF f advances_raise] by simp
  then show ?thesis
    unfolding handleClientRequest_def Let_def
    by (auto simp: i f split: option.splits sum.splits intro!: advances_put)
qed

lemma handleEvent_advances:
  assumes "int64 (issuedSequenceNumber n)" "issuedSequenceNumber n < maxInt64"
  shows "holds (\<lambda>m es. advances n m) (handleEvent C ev n)"
proof (cases ev)
  case (EvDebug msg)
  have "advances n (n\<lparr>down := b\<rparr>)" for b by (rule advances_log) simp_all
  then show ?thesis using EvDebug assms by (simp add: handleDebug_def handleClientRequest_advances)
next
  case EvTimer
  have a: "advances n (timerFired n)"
    by (cases "isPrimary n") (auto simp: timerFired_def intro!: advances_log)
  have s: "holds (\<lambda>m es. advances n' m) (sendHeartbeat C n')" for n'
    using sendHeartbeat_same [of n' C] by (auto simp: holds_def split: sum.splits)
  show ?thesis
    using holds_advances_trans [OF a startViewChange_advances] holds_advances_trans [OF a s] a EvTimer
    by (simp add: handleHeartbeatTimeout_def)
next
  case (EvNewViewReply p err)
  then show ?thesis by (auto simp: afterNewView_def intro: advances_log)
next
  case (EvHeartbeatReply p r err)
  then show ?thesis by (auto simp: afterHeartbeat_def intro: advances_log split: sum.splits)
qed (simp_all add: assms handlePrePrepare_advances handleClientRequest_advances handlePrepare_advances
    handleCommit_advances handleCheckpoint_advances handleCheckpointProof_advances
    handleViewChange_advances handleNewView_advances handleRecvSnapshot_advances startViewChange_advances)

text \<open>Steps of a replica that has not used up the 64-bit sequence numbers.\<close>

definition bounded_step :: "pgp \<Rightarrow> PBFTNode \<Rightarrow> PBFTNode \<Rightarrow> bool" where
  "bounded_step C n n' \<longleftrightarrow> node_step C n n' \<and> issuedSequenceNumber n < maxInt64"

definition numbers_ok :: "PBFTNode \<Rightarrow> bool" where
  "numbers_ok n \<longleftrightarrow> 1 \<le> issuedSequenceNumber n \<and> issued_ok n \<and> gwf (log n)"

lemma numbers_ok_step:
  assumes "bounded_step C n n'" "numbers_ok n \<and> node_ok C n"
  shows "numbers_ok n' \<and> node_ok C n'"
proof -
  from assms have st: "node_step C n n'" and i: "int64 (issuedSequenceNumber n)" "issuedSequenceNumber n < maxInt64"
    by (auto simp: bounded_step_def numbers_ok_def int64_def)
  have "advances n n'"
    using st
  proof (cases rule: node_step.cases)
    case (message ev es)
    then have "n' = n \<or> handleEvent C ev n = Inr (n', es)"
      by (auto simp: handleMessages_def split: sum.splits if_splits)
    then show ?thesis using holdsD [OF handleEvent_advances [OF i]] by auto
  next
    case (order lg pd ms)
    have "advances n n'"
      if "gwf (log n)"
      unfolding advances_def using that order by (auto simp: issued_ok_def gsame_gget gsame_gwf)
    then show ?thesis using assms(2) by (simp add: numbers_ok_def)
  qed
  moreover have "node_ok C n'" using node_step_keeps [OF st] assms(2) by (blast intro: keeps_node_ok)
  ultimately show ?thesis
    using assms(2) by (auto simp: numbers_ok_def advances_def node_ok_def log_ok_def)
qed

lemma started_numbers_ok: "started n \<Longrightarrow> numbers_ok n \<and> node_ok C n"
  using started_ok by (auto dest!: started_init simp: numbers_ok_def issued_ok_def initNode_def)

interpretation issuing: step_invariant started "bounded_step C" "\<lambda>n. numbers_ok n \<and> node_ok C n" for C
  by unfold_locales (use started_numbers_ok numbers_ok_step in blast)+

text \<open>C15: A pre-prepare that a leader broadcasts for a client request is for its current view and
  for the next sequence number, which is larger than that of every slot in its log that holds a
  request: no number is issued twice (as long as 64 bits are enough).\<close>

theorem leader_issues_fresh_numbers:
  assumes "started n0" "(bounded_step C)\<^sup>*\<^sup>* n0 n" "issuedSequenceNumber n < maxInt64"
    "handleClientRequest C r n = Inr (n', es)" "Broadcast (RpcPrePrepare pp) \<in> set es"
  shows "isPrimary n \<and>
    pp_Number (spp_PrePrepareMessage (fpp_SignedMessage pp)) = SlotId (viewNumber n) (issuedSequenceNumber n + 1) \<and>
    SeqNumber ` {k. s_request (slotAt n k) \<noteq> None} \<subseteq> {..issuedSequenceNumber n}"
proof -
  from issuing.reachable [OF assms(1,2)] have ok: "numbers_ok n" by simp
  with assms(3) have i: "add64 (issuedSequenceNumber n) 1 = issuedSequenceNumber n + 1"
    by (intro add64_succ) (auto simp: numbers_ok_def int64_def)
  from assms(4,5) have "isPrimary n \<and>
      pp_Number (spp_PrePrepareMessage (fpp_SignedMessage pp)) = SlotId (viewNumber n) (issuedSequenceNumber n + 1)"
    by (auto simp: handleClientRequest_def Let_def i dest: pre_prepare.signed_body
        split: if_splits option.splits sum.splits)
  moreover have "SeqNumber ` {k. s_request (slotAt n k) \<noteq> None} \<subseteq> {..issuedSequenceNumber n}"
    using ok issued_ok_slot by (fastforce simp: numbers_ok_def)
  ultimately show ?thesis by blast
qed

lemma leader_issues_fresh_numbers_witness:
  "isPrimary exLeader \<and>
    pp_Number (spp_PrePrepareMessage (fpp_SignedMessage exPrePrepare)) =
      SlotId (viewNumber exLeader) (issuedSequenceNumber exLeader + 1) \<and>
    SeqNumber ` {k. s_request (slotAt exLeader k) \<noteq> None} \<subseteq> {..issuedSequenceNumber exLeader}"
  by (rule leader_issues_fresh_numbers [OF exLeader_started rtranclp.rtrancl_refl _ ex_proposed])
    (simp_all add: exLeader_fields maxInt64_def)

end
