(* ===== verification/Acceptance.thy ===== *)
theory Acceptance
  imports Delivery
begin

text \<open>
  What a replica accepts in the normal case: which pre-prepares, which votes, which client
  requests, and what it ignores during a view change.
\<close>

section \<open>Pre-prepares\<close>

lemma acceptPrePrepare_effect:
  assumes "acceptPrePrepare C pp n = Inr (n', es)"
  defines "m \<equiv> spp_PrePrepareMessage (fpp_SignedMessage pp)"
  shows "(\<forall>k. k \<noteq> pp_Number m \<longrightarrow> slotAt n' k = slotAt n k) \<and>
    s_request (slotAt n' (pp_Number m)) = Some (fpp_Request pp) \<and>
    s_requestDigest (slotAt n' (pp_Number m)) = pp_RequestDigest m \<and>
    s_preprepare (slotAt n' (pp_Number m)) = Some (fpp_SignedMessage pp)"
proof -
  have num: "slotAt (n\<lparr>issuedSequenceNumber := i\<rparr>) k = slotAt n k" for i k
    by (simp add: slotAt_def)
  show ?thesis
    using assms by (auto simp: acceptPrePrepare_def Let_def num m_def split: sum.splits if_splits)
qed

text \<open>The state a pre-prepare is judged in: it differs from the old one in the timer only.\<close>

lemma handlePrePrepare_cases:
  assumes "handlePrePrepare C pp n = Inr (n', es)"
  defines "m \<equiv> spp_PrePrepareMessage (fpp_SignedMessage pp)"
  obtains (ignored) "\<And>k. slotAt n' k = slotAt n k"
  | (accepted) n1 where "acceptPrePrepare C pp n1 = Inr (n', es)" "\<And>k. slotAt n1 k = slotAt n k"
      "\<not> vci_inProgress (viewChange n)" "\<not> isPrimary n"
      "SignedPrePrepare_SignatureValid C (peerEntities n) (peerEntityMap n) (fpp_SignedMessage pp) =
         Inr (fst (getPrimary n))"
      "ViewNumber (pp_Number m) = viewNumber n"
      "SeqNumber (cp_Number (lastCheckpoint n)) < SeqNumber (pp_Number m)"
      "SeqNumber (pp_Number m) \<le> add64 (SeqNumber (cp_Number (lastCheckpoint n))) (CHECKPOINT * 3)"
      "pp_RequestDigest m = GenerateDigest (fpp_Request pp)"
      "s_request (slotAt n (pp_Number m)) = None"
proof -
  let ?n1 = "ensureMapping (pp_Number m) (n\<lparr>timeoutTimer := Some (newTimer (getTimeout n))\<rparr>)"
  have same: "slotAt (n\<lparr>timeoutTimer := t\<rparr>) k = slotAt n k" for t k
    by (simp add: slotAt_def)
  have "(\<forall>k. slotAt n' k = slotAt n k) \<or> acceptPrePrepare C pp ?n1 = Inr (n', es) \<and>
      \<not> vci_inProgress (viewChange n) \<and> \<not> isPrimary n \<and>
      SignedPrePrepare_SignatureValid C (peerEntities n) (peerEntityMap n) (fpp_SignedMessage pp) =
         Inr (fst (getPrimary n)) \<and>
      ViewNumber (pp_Number m) = viewNumber n \<and>
      SeqNumber (cp_Number (lastCheckpoint n)) < SeqNumber (pp_Number m) \<and>
      SeqNumber (pp_Number m) \<le> add64 (SeqNumber (cp_Number (lastCheckpoint n))) (CHECKPOINT * 3) \<and>
      pp_RequestDigest m = GenerateDigest (fpp_Request pp) \<and>
      s_request (slotAt n (pp_Number m)) = None"
    using assms(1) unfolding handlePrePrepare_def Let_def m_def
    by (auto simp: same not_less not_le split: if_splits option.splits sum.splits)
  then show ?thesis
  proof
    assume "\<forall>k. slotAt n' k = slotAt n k"
    then show ?thesis by (intro ignored) simp
  next
    assume "acceptPrePrepare C pp ?n1 = Inr (n', es) \<and> \<not> vci_inProgress (viewChange n) \<and> \<not> isPrimary n \<and>
      SignedPrePrepare_SignatureValid C (peerEntities n) (peerEntityMap n) (fpp_SignedMessage pp) =
         Inr (fst (getPrimary n)) \<and>
      ViewNumber (pp_Number m) = viewNumber n \<and>
      SeqNumber (cp_Number (lastCheckpoint n)) < SeqNumber (pp_Number m) \<and>
      SeqNumber (pp_Number m) \<le> add64 (SeqNumber (cp_Number (lastCheckpoint n))) (CHECKPOINT * 3) \<and>
      pp_RequestDigest m = GenerateDigest (fpp_Request pp) \<and>
      s_request (slotAt n (pp_Number m)) = None"
    then show ?thesis by (intro accepted [of ?n1]) (simp_all add: same)
  qed
qed

text \<open>C16: A pre-prepare changes the request of a slot only if the slot held none, the pre-prepare
  is signed by the primary of the current view, its number is of this view and between the two
  water marks, and the digest is that of the request, which is what the slot then holds.\<close>

theorem accepted_preprepare_authentic:
  assumes "handlePrePrepare C pp n = Inr (n', es)" "s_request (slotAt n' k) \<noteq> s_request (slotAt n k)"
  shows "k = pp_Number (spp_PrePrepareMessage (fpp_SignedMessage pp)) \<and>
    s_request (slotAt n k) = None \<and> s_request (slotAt n' k) = Some (fpp_Request pp) \<and>
    s_requestDigest (slotAt n' k) = GenerateDigest (fpp_Request pp) \<and>
    s_preprepare (slotAt n' k) = Some (fpp_SignedMessage pp) \<and>
    SignedPrePrepare_SignatureValid C (peerEntities n) (peerEntityMap n) (fpp_SignedMessage pp) =
      Inr (fst (getPrimary n)) \<and>
    \<not> vci_inProgress (viewChange n) \<and> \<not> isPrimary n \<and> ViewNumber k = viewNumber n \<and>
    SeqNumber (cp_Number (lastCheckpoint n)) < SeqNumber k \<and>
    SeqNumber k \<le> add64 (SeqNumber (cp_Number (lastCheckpoint n))) 300"
  using assms(1)
proof (cases rule: handlePrePrepare_cases)
  case ignored
  with assms(2) show ?thesis by simp
next
  case (accepted n1)
  from acceptPrePrepare_effect [OF accepted(1)] assms(2) accepted(2)
  have k: "k = pp_Number (spp_PrePrepareMessage (fpp_SignedMessage pp))" by metis
  with acceptPrePrepare_effect [OF accepted(1)] accepted show ?thesis
    by (simp add: CHECKPOINT_def)
qed

lemma accepted_preprepare_authentic_witness:
  "SlotId 0 2 = pp_Number (spp_PrePrepareMessage (fpp_SignedMessage exPrePrepare)) \<and>
    s_request (slotAt exBackup (SlotId 0 2)) = None \<and>
    s_request (slotAt exBackup_accepted (SlotId 0 2)) = Some (fpp_Request exPrePrepare) \<and>
    s_requestDigest (slotAt exBackup_accepted (SlotId 0 2)) = GenerateDigest (fpp_Request exPrePrepare) \<and>
    s_preprepare (slotAt exBackup_accepted (SlotId 0 2)) = Some (fpp_SignedMessage exPrePrepare) \<and>
    SignedPrePrepare_SignatureValid example_pgp (peerEntities exBackup) (peerEntityMap exBackup)
      (fpp_SignedMessage exPrePrepare) = Inr (fst (getPrimary exBackup)) \<and>
    \<not> vci_inProgress (viewChange exBackup) \<and> \<not> isPrimary exBackup \<and> ViewNumber (SlotId 0 2) = viewNumber exBackup \<and>
    SeqNumber (cp_Number (lastCheckpoint exBackup)) < SeqNumber (SlotId 0 2) \<and>
    SeqNumber (SlotId 0 2) \<le> add64 (SeqNumber (cp_Number (lastCheckpoint exBackup))) 300"
proof (rule accepted_preprepare_authentic)
  show "handlePrePrepare example_pgp exPrePrepare exBackup = Inr (exBackup_accepted, [Broadcast (RpcPrepare (exPrepare 1))])"
    using ex_accepted by (simp add: handleMessages_def exBackup_simps)
  show "s_request (slotAt exBackup_accepted (SlotId 0 2)) \<noteq> s_request (slotAt exBackup (SlotId 0 2))"
    by (simp add: exBackup_accepted_def exSlot1_def slotAt_def exBackup_fields gget_def)
qed

section \<open>Votes\<close>

text \<open>The digest of a prepare is not compared with the slot's: the vote that completes the
  quorum makes the node sign and broadcast a commit for the digest of that vote, whatever
  request the slot holds.\<close>

theorem prepare_digest_unchecked:
  assumes "\<not> vci_inProgress (viewChange n)"
    "SignedPrepare_SignatureValid C (peerEntities n) (peerEntityMap n) m = Inr (p_Node (sp_PrepareMessage m))"
    "isPrepared n ((slotAt n (p_Number (sp_PrepareMessage m)))
       \<lparr>s_prepares := gput (p_Node (sp_PrepareMessage m)) m (s_prepares (slotAt n (p_Number (sp_PrepareMessage m))))\<rparr>)"
    "Commit_Sign C (node_entity n) \<lparr>c_Number = p_Number (sp_PrepareMessage m),
       c_RequestDigest = p_RequestDigest (sp_PrepareMessage m), c_Node = node_id n\<rparr> = Inr c"
  shows "\<exists>n'. handlePrepare C m n = Inr (n', [Broadcast (RpcCommit c)]) \<and>
    c_RequestDigest (sc_CommitMessage c) = p_RequestDigest (sp_PrepareMessage m) \<and>
    s_prepared (slotAt n' (p_Number (sp_PrepareMessage m))) \<and>
    s_requestDigest (slotAt n' (p_Number (sp_PrepareMessage m))) =
      s_requestDigest (slotAt n (p_Number (sp_PrepareMessage m)))"
proof -
  have p: "isPrepared (putSlot k s' n) s = isPrepared n s" for k s' s
    by (simp add: isPrepared_def)
  show ?thesis
    using assms commit.signed_body [OF assms(4)] by (simp add: handlePrepare_def Let_def p emit_def)
qed

text \<open>A prepare of node 3 for the same slot and the zero digest.\<close>

definition exForeignPrepare :: SignedPrepare where
  "exForeignPrepare = projr (Prepare_Sign example_pgp (exKey 3)
     \<lparr>p_Number = SlotId 0 2, p_RequestDigest = zeroDigest, p_Node = 3\<rparr>)"

definition exForeignCommit :: SignedCommit where
  "exForeignCommit = projr (Commit_Sign example_pgp (exKey 1)
     \<lparr>c_Number = SlotId 0 2, c_RequestDigest = zeroDigest, c_Node = 1\<rparr>)"

lemma prepare_digest_unchecked_witness:
  "\<exists>n'. handlePrepare example_pgp exForeignPrepare exBackup_accepted = Inr (n', [Broadcast (RpcCommit exForeignCommit)]) \<and>
    c_RequestDigest (sc_CommitMessage exForeignCommit) = p_RequestDigest (sp_PrepareMessage exForeignPrepare) \<and>
    s_prepared (slotAt n' (p_Number (sp_PrepareMessage exForeignPrepare))) \<and>
    s_requestDigest (slotAt n' (p_Number (sp_PrepareMessage exForeignPrepare))) =
      s_requestDigest (slotAt exBackup_accepted (p_Number (sp_PrepareMessage exForeignPrepare)))"
  by (rule prepare_digest_unchecked)
    (use exValid [of 3] in \<open>simp_all add: exBackup_accepted_def exBackup_simps exSlot1_def isPrepared_def slotAt_def
      gput_def gget_def exForeignPrepare_def exForeignCommit_def exSign SignedPrepare_SignatureValid_def\<close>)

text \<open>A commit quorum that completes before the pre-prepare arrived delivers nil to the key
  node, and the slot is committed: its request will not be delivered any more.\<close>

theorem early_commit_delivers_nil:
  assumes "\<not> vci_inProgress (viewChange n)"
    "SignedCommit_SignatureValid C (peerEntities n) (peerEntityMap n) m = Inr (c_Node (sc_CommitMessage m))"
    "\<not> Before (c_Number (sc_CommitMessage m)) (cp_Number (lastCheckpoint n))"
    "s_request (slotAt n (c_Number (sc_CommitMessage m))) = None"
    "\<not> s_committed (slotAt n (c_Number (sc_CommitMessage m)))"
    "isCommitted n ((slotAt n (c_Number (sc_CommitMessage m)))
       \<lparr>s_commits := gput (c_Node (sc_CommitMessage m)) m (s_commits (slotAt n (c_Number (sc_CommitMessage m))))\<rparr>)"
  shows "\<exists>n' es. handleCommit C m n = Inr (n', Committed None # es) \<and>
    s_committed (slotAt n' (c_Number (sc_CommitMessage m))) \<and>
    s_request (slotAt n' (c_Number (sc_CommitMessage m))) = None"
  using assms by (auto simp: handleCommit_def Let_def andThen_def emit_def ret_def tryCheckpoint_def isCommitted_def)

definition exBackup_early :: PBFTNode where
  "exBackup_early = exBackup\<lparr>log := [(SlotId 0 2, emptySlot\<lparr>s_commits := [(2, exCommit 2)]\<rparr>)]\<rparr>"

lemma early_commit_delivers_nil_witness:
  "\<exists>n' es. handleCommit example_pgp (exCommit 3) exBackup_early = Inr (n', Committed None # es) \<and>
    s_committed (slotAt n' (c_Number (sc_CommitMessage (exCommit 3)))) \<and>
    s_request (slotAt n' (c_Number (sc_CommitMessage (exCommit 3)))) = None"
  by (rule early_commit_delivers_nil)
    (use exValid [of 3] in \<open>simp_all add: exBackup_early_def exBackup_simps isCommitted_def slotAt_def Before_def
      gput_def gget_def exCommit_def exSign SignedCommit_SignatureValid_def initCheckpoint_def\<close>)

section \<open>Client requests\<close>

text \<open>C36: Once a node that is not in a view change has handled a client request, it ignores
  every later copy of it, in every later state: a request first seen as a backup is not
  proposed when the node becomes the leader.\<close>

theorem request_handled_once:
  assumes "handleClientRequest C (Some r) n = Inr (n1, es)" "\<not> vci_inProgress (viewChange n)"
    "(node_step C)\<^sup>*\<^sup>* n1 n2"
  shows "handleClientRequest C (Some r) n2 = ret n2"
proof -
  have "gget (requests n1) (GenerateDigest r) \<noteq> None"
    using assms(1,2) by (auto simp: handleClientRequest_def Let_def putSlot_def split: if_splits sum.splits)
  with node_steps_keep [OF assms(3)] have "gget (requests n2) (GenerateDigest r) \<noteq> None"
    unfolding keeps_def requests_grow_def by blast
  then show ?thesis by (simp add: handleClientRequest_def Let_def)
qed

lemma request_handled_once_witness:
  "handleClientRequest example_pgp (Some ''op'') exLeader_proposed = ret exLeader_proposed"
  by (rule request_handled_once [OF ex_proposed _ rtranclp.rtrancl_refl]) (simp add: exLeader_fields)

section \<open>During a view change and between views\<close>

text \<open>During a view change a replica ignores client requests, pre-prepares, prepares,
  commits and its heartbeat timer: none of them changes its state but for the timer that fired,
  and none is answered.\<close>

theorem view_change_blocks:
  assumes "vci_inProgress (viewChange n)"
  shows "handleEvent C (EvClientRequest r) n = ret n \<and> handleEvent C (EvPrePrepare pp) n = ret n \<and>
    handleEvent C (EvPrepare p) n = ret n \<and> handleEvent C (EvCommit c) n = ret n \<and>
    handleEvent C EvTimer n = ret (timerFired n)"
  using assms by (simp add: handleClientRequest_def handlePrePrepare_def handlePrepare_def handleCommit_def
      handleHeartbeatTimeout_def timerFired_def)

definition exBackup_changing :: PBFTNode where
  "exBackup_changing = exBackup\<lparr>viewChange := (viewChange exBackup)\<lparr>vci_inProgress := True, vci_viewNumber := 1\<rparr>\<rparr>"

lemma view_change_blocks_witness:
  "handleEvent example_pgp (EvClientRequest None) exBackup_changing = ret exBackup_changing \<and>
    handleEvent example_pgp (EvPrePrepare exPrePrepare) exBackup_changing = ret exBackup_changing \<and>
    handleEvent example_pgp (EvPrepare (exPrepare 3)) exBackup_changing = ret exBackup_changing \<and>
    handleEvent example_pgp (EvCommit (exCommit 3)) exBackup_changing = ret exBackup_changing \<and>
    handleEvent example_pgp EvTimer exBackup_changing = ret (timerFired exBackup_changing)"
  by (rule view_change_blocks) (simp add: exBackup_changing_def)

text \<open>In every view but view 0, a heartbeat (the empty pre-prepare) restarts the timeout of a
  backup whichever peer has signed it: one peer can keep the backups from ever suspecting the
  leader.\<close>

theorem any_peer_restarts_timeout:
  assumes "\<not> vci_inProgress (viewChange n)" "\<not> isPrimary n" "viewNumber n \<noteq> 0" "timeoutTimer n = Some t"
    "spp_PrePrepareMessage (fpp_SignedMessage pp) = zeroPrePrepare"
    "SignedPrePrepare_SignatureValid C (peerEntities n) (peerEntityMap n) (fpp_SignedMessage pp) = Inr peer"
  shows "handlePrePrepare C pp n = ret (n\<lparr>timeoutTimer := Some (newTimer (getTimeout n))\<rparr>)"
  using assms by (simp add: handlePrePrepare_def Let_def zeroPrePrepare_def)

definition exBackup_view1 :: PBFTNode where
  "exBackup_view1 = exBackup\<lparr>viewNumber := 1\<rparr>"

definition exHeartbeat :: "NodeId \<Rightarrow> FullPrePrepare" where
  "exHeartbeat i = \<lparr>fpp_SignedMessage = projr (PrePrepare_Sign example_pgp (exKey i) zeroPrePrepare),
     fpp_Request = []\<rparr>"

lemma exBackup_view1_not_primary: "\<not> isPrimary exBackup_view1"
  by (simp add: exBackup_view1_def isPrimary_def exBackup_fields leader_of_four [unfolded One_nat_def])

text \<open>Node 4 leads view 1; the heartbeat is one of node 3.\<close>

lemma any_peer_restarts_timeout_witness:
  "handlePrePrepare example_pgp (exHeartbeat 3) exBackup_view1 =
     ret (exBackup_view1\<lparr>timeoutTimer := Some (newTimer (getTimeout exBackup_view1))\<rparr>)"
  by (rule any_peer_restarts_timeout [where peer = 3 and t = "newTimer 750000000"])
    (use exValid [of 3] exBackup_view1_not_primary in \<open>simp_all add: exBackup_view1_def exBackup_fields exHeartbeat_def
      exSign SignedPrePrepare_SignatureValid_def\<close>)

end
