(* ===== verification/New_View.thy ===== *)
theory New_View
  imports Acceptance
begin

text \<open>
  Properties of a view change: when a replica joins one, when the new leader enters the view,
  what it proposes again, and what a backup accepts as a new view.
\<close>

section \<open>Counting the messages for later views\<close>

lemma Min_insert_min: "finite S \<Longrightarrow> Min (insert (min a b) S) = Min (insert b (insert (a :: int) S))"
  by (cases "S = {}") (auto simp: min.commute min.left_commute)

lemma higher_views_spec:
  "higher_views cur msgs c low = (c', low') \<Longrightarrow>
     c' = c + length (filter (\<lambda>(_, m). vc_ViewNumber (svc_Message m) > cur) msgs) \<and>
     low' = Min (insert low {vc_ViewNumber (svc_Message m) |i m. (i, m) \<in> set msgs \<and> vc_ViewNumber (svc_Message m) > cur})"
proof (induction msgs arbitrary: c low)
  case Nil
  then show ?case by simp
next
  case (Cons e msgs)
  obtain i m where e: "e = (i, m)" by (cases e)
  let ?v = "vc_ViewNumber (svc_Message m)"
  let ?S = "\<lambda>l. {vc_ViewNumber (svc_Message m) |i m. (i, m) \<in> set l \<and> vc_ViewNumber (svc_Message m) > cur}"
  have fin: "finite (?S l)" for l
  proof (rule finite_subset)
    show "?S l \<subseteq> (\<lambda>(i, m). vc_ViewNumber (svc_Message m)) ` set l" by force
  qed simp
  show ?case
  proof (cases "?v > cur")
    case True
    have S: "?S (e # msgs) = insert ?v (?S msgs)" using True e by auto
    have "Min (insert (min ?v low) (?S msgs)) = Min (insert low (insert ?v (?S msgs)))"
      by (rule Min_insert_min [OF fin])
    moreover have "(if ?v < low then ?v else low) = min ?v low" by auto
    ultimately show ?thesis using Cons.IH [of "c + 1" "min ?v low"] Cons.prems True
      unfolding S by (simp add: e Let_def)
  next
    case False
    have "?S (e # msgs) = ?S msgs" using False e by auto
    then show ?thesis using Cons False by (simp add: e Let_def)
  qed
qed

lemma length_filter_voters:
  assumes "gwf msgs"
  shows "length (filter (\<lambda>(_, m). P m) msgs) = card {i. \<exists>m. gget msgs i = Some m \<and> P m}"
proof -
  have d: "distinct (map fst (filter (\<lambda>(_, m). P m) msgs))"
    using assms by (simp add: gwf_def distinct_map_filter)
  have "fst ` set (filter (\<lambda>(_, m). P m) msgs) = {i. \<exists>m. gget msgs i = Some m \<and> P m}"
    using assms by (force dest: in_set_gget gget_in_set)
  with distinct_card [OF d] show ?thesis by simp
qed

section \<open>Joining a view change\<close>

lemma startViewChange_out:
  assumes "startViewChange C view n = Inr (n', es)" "Broadcast (RpcViewChange m) \<in> set es"
  shows "vc_ViewNumber (svc_Message m) = view \<and> vci_inProgress (viewChange n') \<and> vci_viewNumber (viewChange n') = view"
  using assms by (auto simp: startViewChange_def Let_def dest: view_change.signed_body
      split: if_splits sum.splits)

lemma heartbeats_no_view_change: "heartbeats C n ps = Inr es \<Longrightarrow> Broadcast msg \<notin> set es"
  by (induction ps arbitrary: es) (auto split: if_splits sum.splits)

lemma leadNewView_no_broadcast: "leadNewView C view n = Inr (n', es) \<Longrightarrow> Broadcast msg \<notin> set es"
  by (auto simp: leadNewView_def Let_def sendHeartbeat_def dest: heartbeats_no_view_change
      split: sum.splits prod.splits if_splits)

text \<open>C19: A view-change message makes a replica broadcast its own only when authentic messages
  of at least f+1 distinct nodes ask for views above its current one; it asks for the lowest of
  these views.\<close>

theorem joins_with_f_plus_one:
  assumes "reachable C n" "handleViewChange C m n = Inr (n', es)" "Broadcast (RpcViewChange own) \<in> set es"
  shows "length (peermap n) div 3 + 1 \<le>
      card {i. \<exists>v. gget (vci_messages (viewChange n')) i = Some v \<and> viewchange_ok C n i v \<and>
                 vc_ViewNumber (svc_Message v) > currentView n} \<and>
    vc_ViewNumber (svc_Message own) =
      Min {vc_ViewNumber (svc_Message v) |i v. gget (vci_messages (viewChange n')) i = Some v \<and>
                 vc_ViewNumber (svc_Message v) > currentView n}"
proof -
  define vc where "vc = svc_Message m"
  define cur where "cur = currentView n"
  define msgs where "msgs = gput (vc_Node vc) m (vci_messages (viewChange n))"
  define n1 where "n1 = n\<lparr>viewChange := (viewChange n)\<lparr>vci_messages := msgs\<rparr>\<rparr>"
  obtain c low where h: "higher_views cur msgs 0 (vc_ViewNumber vc) = (c, low)"
    by (cases "higher_views cur msgs 0 (vc_ViewNumber vc)")
  have h': "higher_views cur (vci_messages (viewChange n1)) 0 (vc_ViewNumber vc) = (c, low)"
    using h by (simp add: n1_def)
  have "SignedViewChange_SignatureValid C (peerEntities n) (peerEntityMap n) m = Inr (vc_Node vc) \<and>
      vc_ViewNumber vc > cur \<and> c \<ge> length (peermap n1) div 3 + 1 \<and> startViewChange C low n1 = Inr (n', es)"
    using assms(2,3) leadNewView_no_broadcast
    unfolding handleViewChange_def Let_def vc_def [symmetric] cur_def [symmetric] msgs_def [symmetric]
      n1_def [symmetric] h'
    by (fastforce split: sum.splits if_splits)
  then have sig: "SignedViewChange_SignatureValid C (peerEntities n) (peerEntityMap n) m = Inr (vc_Node vc)"
    and up: "vc_ViewNumber vc > cur" and c: "c \<ge> length (peermap n) div 3 + 1"
    and st: "startViewChange C low n1 = Inr (n', es)" by (auto simp: n1_def)
  from st have msgs': "vci_messages (viewChange n') = msgs"
    by (auto simp: startViewChange_def Let_def n1_def split: if_splits sum.splits)
  have ok: "votes_ok (viewchange_ok C n) msgs"
    using reachable_ok [OF assms(1)] sig
    by (auto simp: msgs_def node_ok_def messages_ok_def viewchange_ok_def vc_def)
  then have wf: "gwf msgs" by (rule votes_ok_gwf)
  let ?S = "{vc_ViewNumber (svc_Message v) |i v. (i, v) \<in> set msgs \<and> vc_ViewNumber (svc_Message v) > cur}"
  have set_eq: "(i, v) \<in> set msgs \<longleftrightarrow> gget msgs i = Some v" for i v
    using wf in_set_gget gget_in_set by metis
  have "gget msgs (vc_Node vc) = Some m" by (simp add: msgs_def)
  with up have "vc_ViewNumber vc \<in> ?S" unfolding set_eq vc_def by blast
  then have "insert (vc_ViewNumber vc) ?S = ?S" by blast
  with higher_views_spec [OF h] have low: "low = Min ?S"
    and cnt: "c = length (filter (\<lambda>(_, m). vc_ViewNumber (svc_Message m) > cur) msgs)" by auto
  have "{i. \<exists>v. gget msgs i = Some v \<and> vc_ViewNumber (svc_Message v) > cur} =
      {i. \<exists>v. gget msgs i = Some v \<and> viewchange_ok C n i v \<and> vc_ViewNumber (svc_Message v) > cur}"
    using ok by (auto simp: votes_ok_def)
  with c cnt length_filter_voters [OF wf, of "\<lambda>m. vc_ViewNumber (svc_Message m) > cur"] low
    startViewChange_out [OF st assms(3)]
  show ?thesis unfolding msgs' cur_def [symmetric] set_eq by simp
qed

lemma joins_with_f_plus_one_witness:
  "length (peermap (exBackup_asked 2)) div 3 + 1 \<le>
      card {i. \<exists>v. gget (vci_messages (viewChange exBackup_joined)) i = Some v \<and>
                 viewchange_ok example_pgp (exBackup_asked 2) i v \<and>
                 vc_ViewNumber (svc_Message v) > currentView (exBackup_asked 2)} \<and>
    vc_ViewNumber (svc_Message (exViewChange 1)) =
      Min {vc_ViewNumber (svc_Message v) |i v. gget (vci_messages (viewChange exBackup_joined)) i = Some v \<and>
                 vc_ViewNumber (svc_Message v) > currentView (exBackup_asked 2)}"
  by (rule joins_with_f_plus_one [OF exBackup_asked_reachable ex_joined]) simp

section \<open>Leading a new view\<close>

lemma leadNewView_enters:
  assumes "leadNewView C view n = Inr (n', es)"
  shows "viewNumber n' = view \<and> vci_messages (viewChange n') = vci_messages (viewChange n) \<and>
    \<not> vci_inProgress (viewChange n')"
proof -
  from assms obtain n1 pps where g: "generatePrepreparesForNewView C view n = Inr (n1, pps)"
    and m: "sendHeartbeat C (enterNewView view (n1\<lparr>newView := \<lparr>nv_ViewNumber = view,
       nv_ViewChanges = vci_messages (viewChange n1), nv_PrePrepares = pps, nv_Node = node_id n1\<rparr>,
       newViewShared := True,
       caughtUp := fold (\<lambda>p m. gput p 0 m) (gkeys (peermap n1)) (caughtUp n1)\<rparr>)) = Inr (n', es)"
    by (auto simp: leadNewView_def Let_def split: sum.splits)
  from generatePreprepares_keeps [OF g] have "viewChange n1 = viewChange n" by blast
  with holdsD [OF sendHeartbeat_same m] show ?thesis by (auto simp: enterNewView_def)
qed

lemma startViewChange_same:
  "startViewChange C view n = Inr (n', es) \<Longrightarrow>
     viewNumber n' = viewNumber n \<and> vci_messages (viewChange n') = vci_messages (viewChange n)"
  by (auto simp: startViewChange_def Let_def split: if_splits sum.splits)

text \<open>C18: Only the leader of a view enters it because of a view-change message, only while it is
  in a view change itself, and only when authentic messages of at least two thirds of the peers
  ask for exactly this view.\<close>

theorem leads_with_quorum:
  assumes "reachable C n" "handleViewChange C m n = Inr (n', es)" "viewNumber n' \<noteq> viewNumber n"
  shows "vci_inProgress (viewChange n) \<and> LeaderFor (cluster n) (viewNumber n') = Inr (node_id n) \<and>
    2 * length (peermap n) div 3 \<le>
      card {i. \<exists>v. gget (vci_messages (viewChange n')) i = Some v \<and> viewchange_ok C n i v \<and>
                 vc_ViewNumber (svc_Message v) = viewNumber n'}"
proof -
  define vc where "vc = svc_Message m"
  define cur where "cur = currentView n"
  define msgs where "msgs = gput (vc_Node vc) m (vci_messages (viewChange n))"
  define n1 where "n1 = n\<lparr>viewChange := (viewChange n)\<lparr>vci_messages := msgs\<rparr>\<rparr>"
  obtain c low where h: "higher_views cur (vci_messages (viewChange n1)) 0 (vc_ViewNumber vc) = (c, low)"
    by (cases "higher_views cur (vci_messages (viewChange n1)) 0 (vc_ViewNumber vc)")
  have n1: "viewNumber n1 = viewNumber n" by (simp add: n1_def)
  have "SignedViewChange_SignatureValid C (peerEntities n) (peerEntityMap n) m = Inr (vc_Node vc) \<and>
      vci_inProgress (viewChange n1) \<and> LeaderFor (cluster n1) (vc_ViewNumber vc) = Inr (node_id n1) \<and>
      countVotes (vc_ViewNumber vc) (vci_messages (viewChange n1)) \<ge> 2 * length (peermap n1) div 3 \<and>
      leadNewView C (vc_ViewNumber vc) n1 = Inr (n', es)"
    using assms(2,3) startViewChange_same [of C low n1 n' es] n1
    unfolding handleViewChange_def Let_def vc_def [symmetric] cur_def [symmetric] msgs_def [symmetric]
      n1_def [symmetric] h
    by (auto split: sum.splits if_splits)
  then have sig: "SignedViewChange_SignatureValid C (peerEntities n) (peerEntityMap n) m = Inr (vc_Node vc)"
    and p: "vci_inProgress (viewChange n)" "LeaderFor (cluster n) (vc_ViewNumber vc) = Inr (node_id n)"
    and votes: "countVotes (vc_ViewNumber vc) msgs \<ge> 2 * length (peermap n) div 3"
    and l: "leadNewView C (vc_ViewNumber vc) n1 = Inr (n', es)" by (auto simp: n1_def)
  have ok: "votes_ok (viewchange_ok C n) msgs"
    using reachable_ok [OF assms(1)] sig
    by (auto simp: msgs_def node_ok_def messages_ok_def viewchange_ok_def vc_def)
  from leadNewView_enters [OF l] have n': "viewNumber n' = vc_ViewNumber vc" "vci_messages (viewChange n') = msgs"
    by (auto simp: n1_def)
  have "{i. \<exists>v. gget msgs i = Some v \<and> vc_ViewNumber (svc_Message v) = vc_ViewNumber vc} =
      {i. \<exists>v. gget msgs i = Some v \<and> viewchange_ok C n i v \<and> vc_ViewNumber (svc_Message v) = vc_ViewNumber vc}"
    using ok by (auto simp: votes_ok_def)
  with p votes n' length_filter_voters [OF votes_ok_gwf [OF ok], of "\<lambda>m. vc_ViewNumber (svc_Message m) = vc_ViewNumber vc"]
  show ?thesis by (simp add: countVotes_def)
qed

lemma leads_with_quorum_witness:
  "vci_inProgress (viewChange exLeader_changing) \<and>
    LeaderFor (cluster exLeader_changing) (viewNumber exLeader_leads) = Inr (node_id exLeader_changing) \<and>
    2 * length (peermap exLeader_changing) div 3 \<le>
      card {i. \<exists>v. gget (vci_messages (viewChange exLeader_leads)) i = Some v \<and>
                 viewchange_ok example_pgp exLeader_changing i v \<and>
                 vc_ViewNumber (svc_Message v) = viewNumber exLeader_leads}"
  by (rule leads_with_quorum [OF exLeader_changing_reachable ex_leads])
    (simp add: exLeader_leads_def exLeader_changing_def exLeader_fields)

section \<open>Entering a view on a new-view message\<close>

text \<open>A new-view message is never checked: its signature and its sender do not matter.\<close>

theorem new_view_unauthenticated:
  "handleNewView C \<lparr>snv_Message = (snv_Message msg)\<lparr>nv_Node := i\<rparr>, snv_Signature = sig\<rparr> n = handleNewView C msg n"
  by (simp add: handleNewView_def Let_def)

lemma handlePrePrepare_view: "holds (\<lambda>m es. viewNumber m = viewNumber n) (handlePrePrepare C pp n)"
proof -
  have "viewNumber (ensureMapping k n) = viewNumber n" for k n
    by (simp add: ensureMapping_def split: option.splits)
  then show ?thesis
    unfolding handlePrePrepare_def acceptPrePrepare_def Let_def by (auto split: sum.splits option.splits)
qed

lemma assignLoopVar_view: "viewNumber (assignLoopVar pp ks n) = viewNumber n"
  by (induction ks arbitrary: n) (auto simp: assignLoopVar_def)

lemma newview_preprepares_view: "holds (\<lambda>m es. viewNumber m = viewNumber n) (newview_preprepares C pps aliased n)"
proof (induction pps arbitrary: aliased n)
  case (Cons e rest)
  obtain k pp where e: "e = (k, pp)" by (cases e)
  have step: "holds (\<lambda>m es. viewNumber m = viewNumber nd)
      (andThen (handlePrePrepare C pp nd) (\<lambda>n'. newview_preprepares C rest (ks n') n'))" for ks nd
    by (rule holds_andThenI [OF handlePrePrepare_view, where Q = "\<lambda>s m es. viewNumber m = viewNumber s"])
      (simp_all add: Cons.IH)
  show ?case
    unfolding e newview_preprepares.simps Let_def
    using step [where nd = "assignLoopVar pp aliased n"] Cons.IH [where n = "assignLoopVar pp aliased n"]
    by (simp add: assignLoopVar_view)
qed simp

text \<open>So any peer (or nobody in particular: nothing is authenticated) takes a running replica to
  any view above its current one with a single message.\<close>

theorem any_new_view_is_entered:
  assumes "reachable C n" "view > currentView n"
  shows "\<exists>n' es. handleNewView C \<lparr>snv_Message = \<lparr>nv_ViewNumber = view, nv_ViewChanges = [], nv_PrePrepares = pps,
      nv_Node = i\<rparr>, snv_Signature = sig\<rparr> n = Inr (n', es) \<and> viewNumber n' = view"
    (is "\<exists>n' es. ?r = Inr (n', es) \<and> _")
proof -
  have "noFault ?r" by (rule handleNewView_noFault)
  then obtain n' es where r: "?r = Inr (n', es)"
    unfolding noFault_def by (metis sum.exhaust surj_pair)
  with assms(2) have "newview_preprepares C pps [] (enterNewView view n) = Inr (n', es)"
    by (simp add: handleNewView_def)
  from holdsD [OF newview_preprepares_view this] r show ?thesis by (simp add: enterNewView_def)
qed

lemma any_new_view_is_entered_witness:
  "\<exists>n' es. handleNewView example_pgp \<lparr>snv_Message = \<lparr>nv_ViewNumber = 1000, nv_ViewChanges = [], nv_PrePrepares = [],
      nv_Node = 77\<rparr>, snv_Signature = []\<rparr> exBackup = Inr (n', es) \<and> viewNumber n' = 1000"
  by (rule any_new_view_is_entered [OF exBackup_reachable]) (simp add: currentView_def exBackup_fields)

end
