(* ===== verification/View_Zero.thy ===== *)
theory View_Zero
  imports New_View
begin

text \<open>
  What one replica contributes to the agreement on the requests of view 0: which handlers can
  change the request of a slot of view 0, and which pre-prepares and view changes a replica
  sends. \<open>Cluster\<close> puts the replicas together.
\<close>

section \<open>What is sent\<close>

definition sent_rpcs :: "effect list \<Rightarrow> rpc set" where
  "sent_rpcs es = {m. Broadcast m \<in> set es \<or> (\<exists>p. SendTo p m \<in> set es)}"

lemma sent_rpcs_simps [simp]:
  "sent_rpcs [] = {}" "sent_rpcs (Broadcast m # es) = insert m (sent_rpcs es)"
  "sent_rpcs (SendTo p m # es) = insert m (sent_rpcs es)" "sent_rpcs (Committed r # es) = sent_rpcs es"
  "sent_rpcs (SnapshotRequested k # es) = sent_rpcs es" "sent_rpcs (Snapshotted b # es) = sent_rpcs es"
  "sent_rpcs (es @ es') = sent_rpcs es \<union> sent_rpcs es'"
  by (auto simp: sent_rpcs_def)

text \<open>The pre-prepares a message carries: its own, or the proposals of a new view.\<close>

fun signed_preprepares :: "rpc \<Rightarrow> SignedPrePrepare set" where
  "signed_preprepares (RpcPrePrepare pp) = {fpp_SignedMessage pp}"
| "signed_preprepares (RpcNewView nv) = (\<lambda>(k, pp). fpp_SignedMessage pp) ` set (nv_PrePrepares (snv_Message nv))"
| "signed_preprepares _ = {}"

text \<open>The proposals for view 0 among them; the empty heartbeat is none.\<close>

definition proposals0 :: "rpc set \<Rightarrow> SignedPrePrepare set" where
  "proposals0 ms = {spp. (\<exists>m\<in>ms. spp \<in> signed_preprepares m) \<and> ViewNumber (pp_Number (spp_PrePrepareMessage spp)) = 0 \<and>
     spp_PrePrepareMessage spp \<noteq> zeroPrePrepare}"

lemma proposals0_simps [simp]: "proposals0 {} = {}" "proposals0 (A \<union> B) = proposals0 A \<union> proposals0 B"
  by (auto simp: proposals0_def)

definition mute :: "effect list \<Rightarrow> bool" where
  "mute es \<longleftrightarrow> proposals0 (sent_rpcs es) = {} \<and> (\<forall>m. RpcViewChange m \<notin> sent_rpcs es)"

lemma mute_simps [simp]:
  "mute []" "mute (Committed r # es) = mute es" "mute (SnapshotRequested k # es) = mute es"
  "mute (Snapshotted b # es) = mute es" "mute (Broadcast (RpcPrepare p) # es) = mute es"
  "mute (Broadcast (RpcCommit c) # es) = mute es" "mute (Broadcast (RpcCheckpoint ck) # es) = mute es"
  "mute (Broadcast (RpcClientRequest req) # es) = mute es" "mute (es @ es') \<longleftrightarrow> mute es \<and> mute es'"
  by (auto simp: mute_def proposals0_def)

section \<open>Replicas that behave\<close>

text \<open>A slot as far as agreement goes: its request and its pre-prepare.\<close>

definition held :: "PBFTNode \<Rightarrow> SlotId \<Rightarrow> string option \<times> SignedPrePrepare option" where
  "held n k = (s_request (slotAt n k), s_preprepare (slotAt n k))"

abbreviation led :: "PBFTNode \<Rightarrow> int \<Rightarrow> bool" where
  "led n v \<equiv> LeaderFor (cluster n) v = Inr (node_id n)"

abbreviation view_of :: "SignedPrePrepare \<Rightarrow> int" where
  "view_of spp \<equiv> ViewNumber (pp_Number (spp_PrePrepareMessage spp))"

text \<open>
  The views of a replica never go below 0, it asks only for views above 0, the slots of the
  views it leads hold pre-prepares of their own view, and what it announced is for a later view.
\<close>

definition good :: "PBFTNode \<Rightarrow> bool" where
  "good n \<longleftrightarrow> 0 \<le> viewNumber n \<and> viewNumber n \<le> maxInt64 \<and>
     0 \<le> vci_viewNumber (viewChange n) \<and> (vci_inProgress (viewChange n) \<longrightarrow> 1 \<le> vci_viewNumber (viewChange n)) \<and>
     (\<forall>k spp. led n (ViewNumber k) \<longrightarrow> snd (held n k) = Some spp \<longrightarrow> view_of spp = ViewNumber k) \<and>
     (\<forall>(k, pp)\<in>set (nv_PrePrepares (newView n)). 1 \<le> view_of (fpp_SignedMessage pp))"

definition tame :: "PBFTNode \<Rightarrow> PBFTNode \<Rightarrow> effect list \<Rightarrow> bool" where
  "tame n n' es \<longleftrightarrow> config n' = config n \<and> good n' \<and>
     vci_messages (viewChange n') = vci_messages (viewChange n) \<and>
     (\<forall>s. held n' (SlotId 0 s) \<in> {held n (SlotId 0 s), (None, None)}) \<and>
     (\<forall>spp\<in>proposals0 (sent_rpcs es). \<exists>s. snd (held n (SlotId 0 s)) = Some spp) \<and>
     (\<forall>m. RpcViewChange m \<in> sent_rpcs es \<longrightarrow> 1 \<le> vc_ViewNumber (svc_Message m))"

lemma tame_refl: "good n \<Longrightarrow> mute es \<Longrightarrow> tame n n es"
  by (auto simp: tame_def mute_def)

lemma tame_trans:
  assumes "tame n m es" "tame m r es'"
  shows "tame n r (es @ es')"
proof -
  have "\<exists>s. snd (held n (SlotId 0 s)) = Some spp" if spp: "spp \<in> proposals0 (sent_rpcs es')" for spp
  proof -
    from assms(2) spp obtain s where s: "snd (held m (SlotId 0 s)) = Some spp" by (auto simp: tame_def)
    from assms(1) have "held m (SlotId 0 s) \<in> {held n (SlotId 0 s), (None, None)}" by (simp add: tame_def)
    with s show ?thesis by auto
  qed
  moreover have "held r (SlotId 0 s) \<in> {held n (SlotId 0 s), (None, None)}" for s
    using assms unfolding tame_def by (metis insert_iff singletonD)
  ultimately show ?thesis using assms unfolding tame_def by (simp add: ball_Un)
qed

lemma tame_good: "tame n m es \<Longrightarrow> good m"
  by (simp add: tame_def)

lemma holds_tame_trans:
  "tame n m [] \<Longrightarrow> holds (\<lambda>r es. tame m r es) run \<Longrightarrow> holds (\<lambda>r es. tame n r es) run"
  using tame_trans [of n m "[]"] by (auto simp: holds_def split: sum.splits)

lemma holds_tame_andThen:
  assumes "holds (tame n) r" "\<And>m. good m \<Longrightarrow> holds (tame m) (f m)"
  shows "holds (tame n) (andThen r f)"
proof (rule holds_andThen, rule holdsI, rule holdsI)
  fix s es t es' assume "r = Inr (s, es)" "f s = Inr (t, es')"
  with assms(1) have "tame n s es" by simp
  with assms(2) [OF tame_good [OF this]] \<open>f s = Inr (t, es')\<close> show "tame n t (es @ es')"
    by (auto intro: tame_trans)
qed

section \<open>Handlers that touch no proposal\<close>

definition steady :: "PBFTNode \<Rightarrow> PBFTNode \<Rightarrow> bool" where
  "steady n n' \<longleftrightarrow> config n' = config n \<and> viewNumber n' = viewNumber n \<and>
     viewChange n' = viewChange n \<and> newView n' = newView n \<and>
     (\<forall>k. held n' k \<in> {held n k, (None, None)})"

lemma steady_refl [simp]: "steady n n"
  by (simp add: steady_def)

lemma steady_trans: "steady n m \<Longrightarrow> steady m r \<Longrightarrow> steady n r"
  unfolding steady_def by (metis insert_iff singletonD)

lemma holds_steady_trans:
  "steady n m \<Longrightarrow> holds (\<lambda>r es. steady m r \<and> mute es) run \<Longrightarrow> holds (\<lambda>r es. steady n r \<and> mute es) run"
  by (auto simp: holds_def intro: steady_trans split: sum.splits)

lemma steady_tame:
  assumes "steady n n'" "good n" "mute es"
  shows "tame n n' es"
proof -
  have c: "cluster n' = cluster n" "node_id n' = node_id n" using assms(1) by (auto simp: steady_def config_def)
  have "view_of spp = ViewNumber k" if "led n' (ViewNumber k)" "snd (held n' k) = Some spp" for k spp
  proof -
    from assms(1) have "held n' k \<in> {held n k, (None, None)}" by (simp add: steady_def)
    with that c assms(2) show ?thesis by (auto simp: good_def)
  qed
  with assms show ?thesis by (auto simp: tame_def good_def steady_def mute_def)
qed

lemma holds_steady_tame: "holds (\<lambda>m es. steady n m \<and> mute es) r \<Longrightarrow> good n \<Longrightarrow> holds (tame n) r"
  by (auto simp: holds_def intro: steady_tame split: sum.splits)

lemma steadyI:
  "config n' = config n \<Longrightarrow> viewNumber n' = viewNumber n \<Longrightarrow>
    viewChange n' = viewChange n \<Longrightarrow> newView n' = newView n \<Longrightarrow>
    (\<And>k s. gget (log n') k = Some s \<Longrightarrow> gget (log n) k = Some s) \<Longrightarrow> steady n n'"
  by (auto simp: steady_def held_def slotAt_def emptySlot_def split: option.splits)

lemma held_put: "held (putSlot k s n) k' = (if k' = k then (s_request s, s_preprepare s) else held n k')"
  by (simp add: held_def)

lemma held_upd [simp]:
  "held (n\<lparr>sequenceNumber := i\<rparr>) = held n" "held (n\<lparr>issuedSequenceNumber := i\<rparr>) = held n"
  "held (n\<lparr>timeoutTimer := t\<rparr>) = held n" "held (n\<lparr>requests := rq\<rparr>) = held n" "held (n\<lparr>viewChange := vc\<rparr>) = held n"
  "held (n\<lparr>newView := nv\<rparr>) = held n" "held (n\<lparr>newViewShared := b\<rparr>) = held n" "held (n\<lparr>caughtUp := cu\<rparr>) = held n"
  "held (n\<lparr>viewNumber := i\<rparr>) = held n" "held (n\<lparr>pendingCheckpoints := pd\<rparr>) = held n"
  by (simp_all add: fun_eq_iff held_def slotAt_def)

lemma newView_put [simp]: "newView (putSlot k s n) = newView n" "cluster (putSlot k s n) = cluster n"
  by (simp_all add: putSlot_def)

lemma steady_put:
  "steady n m \<Longrightarrow> (s_request s, s_preprepare s) = held n k \<Longrightarrow> steady n (putSlot k s m)"
  by (auto simp: steady_def held_put)

lemma checkpointed_steady: "holds (\<lambda>m es. steady n m \<and> mute es) (checkpointed ck n)"
  unfolding checkpointed_def Let_def
  by (auto simp: gget_fold_gdel split: if_splits intro!: steadyI)

lemma handleCheckpointNoValidation_steady: "holds (\<lambda>m es. steady n m \<and> mute es) (handleCheckpointNoValidation m' n)"
  unfolding handleCheckpointNoValidation_def Let_def
  by (auto intro: steadyI intro!: holds_steady_trans [OF _ checkpointed_steady])

lemma handleCheckpoint_steady: "holds (\<lambda>m es. steady n m \<and> mute es) (handleCheckpoint C m' n)"
  by (auto simp: handleCheckpoint_def handleCheckpointNoValidation_steady split: sum.splits)

lemma handleCheckpointProof_steady: "holds (\<lambda>m es. steady n m \<and> mute es) (handleCheckpointProof C m' n)"
  unfolding handleCheckpointProof_def Let_def
  by (auto split: sum.splits intro: steadyI intro!: holds_steady_trans [OF _ checkpointed_steady])

lemma handleRecvSnapshot_steady: "holds (\<lambda>m es. steady n m \<and> mute es) (handleRecvSnapshot C num st n)"
  unfolding handleRecvSnapshot_def
  by (auto split: sum.splits intro!: holds_andThenI [OF handleCheckpointNoValidation_steady,
      where Q = "\<lambda>s t es. t = s \<and> mute es"])

lemma handlePrepare_steady: "holds (\<lambda>m es. steady n m \<and> mute es) (handlePrepare C m' n)"
  unfolding handlePrepare_def Let_def
  by (auto split: sum.splits intro!: steady_put simp: held_def)

lemma handleCommit_steady: "holds (\<lambda>m es. steady n m \<and> mute es) (handleCommit C m' n)"
proof -
  have q: "steady n (n\<lparr>sequenceNumber := i\<rparr>)" for i by (rule steadyI) simp_all
  show ?thesis
    unfolding handleCommit_def Let_def
    by (auto split: sum.splits simp: andThen_def emit_def tryCheckpoint_def ret_def held_def
        intro!: steady_put q)
qed

lemma afterHeartbeat_steady: "steady n (afterHeartbeat C p r err n)"
  by (auto simp: afterHeartbeat_def intro: steadyI split: sum.splits)

lemma afterNewView_steady: "steady n (afterNewView p err n)"
  by (auto simp: afterNewView_def intro: steadyI)

lemma timerFired_steady: "steady n (timerFired n)"
  by (auto simp: timerFired_def intro!: steadyI)

section \<open>Client requests and pre-prepares\<close>

lemma isPrimary_led: "isPrimary n \<longleftrightarrow> led n (viewNumber n)"
  by (simp add: isPrimary_def)

text \<open>A slot that a replica may write without leaving the good states.\<close>

lemma tame_write:
  assumes "good n" "mute es" "viewNumber n' = viewNumber n" "viewChange n' = viewChange n" "newView n' = newView n"
    "config n' = config n" "\<And>k'. k' \<noteq> k \<Longrightarrow> held n' k' = held n k'" "ViewNumber k \<noteq> 0"
    "\<And>spp. led n (ViewNumber k) \<Longrightarrow> snd (held n' k) = Some spp \<Longrightarrow> view_of spp = ViewNumber k"
  shows "tame n n' es"
proof -
  have c: "cluster n' = cluster n" "node_id n' = node_id n" using assms(6) by (auto simp: config_def)
  have "view_of spp = ViewNumber k'" if "led n' (ViewNumber k')" "snd (held n' k') = Some spp" for k' spp
    using that assms(1,7,9) c by (cases "k' = k") (auto simp: good_def)
  moreover have "held n' (SlotId 0 s) = held n (SlotId 0 s)" for s
    using assms(7,8) by (metis SlotId.sel(1))
  ultimately show ?thesis using assms(1-6) by (simp add: tame_def good_def mute_def)
qed

text \<open>What a client request does at the leader of view 0.\<close>

definition issues0 :: "PBFTNode \<Rightarrow> string \<Rightarrow> PBFTNode \<Rightarrow> effect list \<Rightarrow> bool" where
  "issues0 n r n' es \<longleftrightarrow> viewNumber n = 0 \<and> isPrimary n \<and> config n' = config n \<and> good n' \<and> viewChange n' = viewChange n \<and>
     (\<exists>spp k. k = SlotId 0 (add64 (issuedSequenceNumber n) 1) \<and> pp_Number (spp_PrePrepareMessage spp) = k \<and>
        pp_RequestDigest (spp_PrePrepareMessage spp) = GenerateDigest r \<and>
        es = [Broadcast (RpcPrePrepare \<lparr>fpp_SignedMessage = spp, fpp_Request = r\<rparr>)] \<and>
        issuedSequenceNumber n' = SeqNumber k \<and> held n' k = (Some r, Some spp) \<and>
        (\<forall>k'. k' \<noteq> k \<longrightarrow> held n' k' = held n k'))"

lemma handleClientRequest_cases:
  assumes "handleClientRequest C r n = Inr (n', es)" "good n"
  shows "tame n n' es \<or> (\<exists>req. r = Some req \<and> issues0 n req n' es)"
proof (cases "\<exists>req. r = Some req \<and> isPrimary n \<and> es \<noteq> []")
  case False
  with assms(1) have "steady n n' \<and> mute es"
    by (auto simp: handleClientRequest_def Let_def split: if_splits option.splits sum.splits intro!: steadyI)
  then show ?thesis using assms(2) steady_tame by blast
next
  case True
  then obtain req where r: "r = Some req" "isPrimary n" "es \<noteq> []" by blast
  define k where "k = SlotId (viewNumber n) (add64 (issuedSequenceNumber n) 1)"
  from assms(1) r obtain spp where
      es: "es = [Broadcast (RpcPrePrepare \<lparr>fpp_SignedMessage = spp, fpp_Request = req\<rparr>)]"
    and b: "spp_PrePrepareMessage spp = \<lparr>pp_Number = k, pp_RequestDigest = GenerateDigest req\<rparr>"
    and n': "config n' = config n" "viewNumber n' = viewNumber n" "viewChange n' = viewChange n" "newView n' = newView n"
      "issuedSequenceNumber n' = SeqNumber k" "held n' k = (Some req, Some spp)" "\<And>k'. k' \<noteq> k \<Longrightarrow> held n' k' = held n k'"
    by (auto simp: handleClientRequest_def Let_def k_def held_put dest: pre_prepare.signed_body
        split: if_splits option.splits sum.splits)
  have c: "cluster n' = cluster n" "node_id n' = node_id n" using n'(1) by (auto simp: config_def)
  have "view_of s = ViewNumber k'" if "led n' (ViewNumber k')" "snd (held n' k') = Some s" for k' s
    using that assms(2) n'(6,7) b c by (cases "k' = k") (auto simp: good_def)
  then have g: "good n'" using assms(2) n'(2-4) by (simp add: good_def)
  show ?thesis
  proof (cases "viewNumber n = 0")
    case True
    then have "issues0 n req n' es" using r(2) es b n' g by (simp add: issues0_def k_def)
    then show ?thesis using r(1) by blast
  next
    case False
    then have "held n' (SlotId 0 s) = held n (SlotId 0 s)" for s
      using n'(7) by (simp add: k_def)
    moreover have "proposals0 (sent_rpcs es) = {}" using False by (auto simp: es proposals0_def b k_def)
    ultimately show ?thesis using g n'(1,3) by (auto simp: tame_def es)
  qed
qed

text \<open>What a backup accepts in view 0.\<close>

definition accepts0 :: "pgp \<Rightarrow> PBFTNode \<Rightarrow> FullPrePrepare \<Rightarrow> PBFTNode \<Rightarrow> effect list \<Rightarrow> bool" where
  "accepts0 C n pp n' es \<longleftrightarrow> (let spp = fpp_SignedMessage pp; k = pp_Number (spp_PrePrepareMessage spp)
     in viewNumber n = 0 \<and> \<not> isPrimary n \<and> config n' = config n \<and> good n' \<and> viewChange n' = viewChange n \<and> mute es \<and> ViewNumber k = 0 \<and>
        spp_PrePrepareMessage spp \<noteq> zeroPrePrepare \<and>
        SignedPrePrepare_SignatureValid C (peerEntities n) (peerEntityMap n) spp = Inr (fst (getPrimary n)) \<and>
        pp_RequestDigest (spp_PrePrepareMessage spp) = GenerateDigest (fpp_Request pp) \<and>
        held n' k = (Some (fpp_Request pp), Some spp) \<and> (\<forall>k'. k' \<noteq> k \<longrightarrow> held n' k' = held n k'))"

lemma handlePrePrepare_frame:
  "holds (\<lambda>m es. mute es \<and> viewNumber m = viewNumber n \<and> viewChange m = viewChange n \<and> newView m = newView n \<and>
     config m = config n) (handlePrePrepare C pp n)"
proof -
  have e: "viewNumber (ensureMapping k m) = viewNumber m" "viewChange (ensureMapping k m) = viewChange m"
    "newView (ensureMapping k m) = newView m" for k m
    by (simp_all add: ensureMapping_def split: option.splits)
  have "holds (\<lambda>r es. mute es \<and> viewNumber r = viewNumber m \<and> viewChange r = viewChange m \<and> newView r = newView m \<and>
      config r = config m) (acceptPrePrepare C pp m)" for m
    unfolding acceptPrePrepare_def Let_def by (auto split: sum.splits)
  note a = this [of "ensureMapping k (n\<lparr>timeoutTimer := u\<rparr>)" for k u]
  show ?thesis
    unfolding handlePrePrepare_def Let_def using a by (auto simp: e split: sum.splits option.splits)
qed

lemma handlePrePrepare_zero:
  "handlePrePrepare C pp n = Inr (n', es) \<Longrightarrow> spp_PrePrepareMessage (fpp_SignedMessage pp) = zeroPrePrepare \<Longrightarrow>
    held n' = held n"
  by (auto simp: handlePrePrepare_def Let_def ret_def split: if_splits sum.splits option.splits)

lemma handlePrePrepare_result:
  assumes "handlePrePrepare C pp n = Inr (n', es)" "good n"
  shows "tame n n' es \<or> accepts0 C n pp n' es"
    and "held n' k \<noteq> held n k \<Longrightarrow> ViewNumber k = viewNumber n \<and> \<not> isPrimary n"
proof -
  define m where "m = spp_PrePrepareMessage (fpp_SignedMessage pp)"
  note f = holdsD [OF handlePrePrepare_frame assms(1)]
  have "(tame n n' es \<or> accepts0 C n pp n' es) \<and> (\<forall>k. held n' k \<noteq> held n k \<longrightarrow> ViewNumber k = viewNumber n \<and> \<not> isPrimary n)"
    using assms(1)
  proof (cases rule: handlePrePrepare_cases)
    case ignored
    then have "held n' = held n" by (simp add: held_def fun_eq_iff)
    with f have "steady n n' \<and> mute es" by (simp add: steady_def)
    with assms(2) \<open>held n' = held n\<close> show ?thesis by (simp add: steady_tame)
  next
    case (accepted n1)
    have other: "\<forall>k'. k' \<noteq> pp_Number m \<longrightarrow> held n' k' = held n k'"
      and this': "held n' (pp_Number m) = (Some (fpp_Request pp), Some (fpp_SignedMessage pp))"
      using acceptPrePrepare_effect [OF accepted(1)] accepted(2) by (simp_all add: held_def m_def)
    have nl: "\<not> led n (ViewNumber (pp_Number m))"
      using accepted(4,6) by (simp add: isPrimary_led m_def)
    have "tame n n' es \<or> accepts0 C n pp n' es"
    proof (cases "viewNumber n = 0")
      case False
      have "tame n n' es"
        by (rule tame_write [where k = "pp_Number m"]) (use assms(2) f other nl accepted(6) False in \<open>auto simp: m_def\<close>)
      then show ?thesis ..
    next
      case True
      have "m \<noteq> zeroPrePrepare"
      proof
        assume z: "m = zeroPrePrepare"
        then have "held n' = held n" using handlePrePrepare_zero [OF assms(1)] by (simp add: m_def)
        with this' accepted(10) show False by (auto simp: held_def m_def)
      qed
      moreover have "good n'"
      proof -
        have c: "cluster n' = cluster n" "node_id n' = node_id n" using f by (auto simp: config_def)
        have "view_of s = ViewNumber k'" if "led n' (ViewNumber k')" "snd (held n' k') = Some s" for k' s
          using that assms(2) other nl c by (cases "k' = pp_Number m") (auto simp: good_def)
        then show ?thesis using assms(2) f by (simp add: good_def)
      qed
      ultimately have "accepts0 C n pp n' es"
        using True f other this' accepted by (simp add: accepts0_def m_def Let_def)
      then show ?thesis ..
    qed
    moreover have "ViewNumber k = viewNumber n \<and> \<not> isPrimary n" if "held n' k \<noteq> held n k" for k
      using that other accepted(4,6) unfolding m_def by metis
    ultimately show ?thesis by blast
  qed
  then show "tame n n' es \<or> accepts0 C n pp n' es"
    and "held n' k \<noteq> held n k \<Longrightarrow> ViewNumber k = viewNumber n \<and> \<not> isPrimary n" by blast+
qed

section \<open>View changes\<close>

lemma startViewChange_tame:
  assumes "good n" "view \<noteq> 0"
  shows "holds (tame n) (startViewChange C view n)"
proof (rule holdsI)
  fix n' es assume r: "startViewChange C view n = Inr (n', es)"
  show "tame n n' es"
  proof (cases "down n \<or> vci_viewNumber (viewChange n) > view \<or>
      vci_inProgress (viewChange n) \<and> vci_viewNumber (viewChange n) = view")
    case True
    then have "startViewChange C view n = ret n" 
      by (cases "down n") (simp_all only: startViewChange_def if_True if_False simp_thms)
    with r assms(1) show ?thesis by (simp add: ret_def tame_refl)
  next
    case False
    with assms have v: "1 \<le> view" by (simp add: good_def)
    from False r have n': "config n' = config n" "viewNumber n' = viewNumber n" "held n' = held n" "newView n' = newView n"
      "viewChange n' = (viewChange n)\<lparr>vci_inProgress := True, vci_viewNumber := view\<rparr>"
      and es: "es = [] \<or> (\<exists>m. es = [Broadcast (RpcViewChange m)] \<and> vc_ViewNumber (svc_Message m) = view)"
      by (auto simp: startViewChange_def Let_def stopTimers_def fun_eq_iff held_def slotAt_def config_def
          dest: view_change.signed_body split: sum.splits if_splits)
    have c: "cluster n' = cluster n" "node_id n' = node_id n" using n'(1) by (auto simp: config_def)
    with n' v assms(1) have "good n'" by (simp add: good_def)
    with n' es v show ?thesis by (auto simp: tame_def proposals0_def)
  qed
qed

lemma heartbeatMessage_proposals:
  assumes "heartbeatMessage C p n = Inr msg" "good n" "isPrimary n"
  shows "(\<forall>spp\<in>proposals0 {msg}. \<exists>s. snd (held n (SlotId 0 s)) = Some spp) \<and> (\<forall>m. msg \<noteq> RpcViewChange m)"
proof -
  define k where "k = SlotId (viewNumber n) (add64 p 1)"
  from assms(1) consider (noop) spp where "msg = RpcPrePrepare \<lparr>fpp_SignedMessage = spp, fpp_Request = []\<rparr>"
      "spp_PrePrepareMessage spp = zeroPrePrepare"
    | (behind) m where "msg = RpcCheckpointProof m"
    | (slot) spp req where "msg = RpcPrePrepare \<lparr>fpp_SignedMessage = spp, fpp_Request = req\<rparr>" "snd (held n k) = Some spp"
    by (auto simp: heartbeatMessage_def k_def held_def slotAt_def dest: pre_prepare.signed_body
        split: if_splits sum.splits option.splits)
  then show ?thesis
  proof cases
    case slot
    have "led n (ViewNumber k)" using assms(3) by (simp add: k_def isPrimary_led)
    with slot(2) assms(2) have v: "view_of spp = ViewNumber k" by (simp add: good_def)
    have "\<exists>s. snd (held n (SlotId 0 s)) = Some spp" if "view_of spp = 0"
      using that v slot(2) by (auto simp: k_def)
    with slot(1) show ?thesis by (auto simp: proposals0_def)
  qed (auto simp: proposals0_def)
qed

lemma currentNewView_preprepares: "nv_PrePrepares (currentNewView n) = nv_PrePrepares (newView n)"
  by (simp add: currentNewView_def)

lemma newView_mute:
  assumes "good n" "NewView_Sign C e (currentNewView n) = Inr m"
  shows "proposals0 {RpcNewView m} = {}"
proof -
  from new_view.signed_body [OF assms(2)] have "nv_PrePrepares (snv_Message m) = nv_PrePrepares (newView n)"
    by (simp add: currentNewView_preprepares)
  with assms(1) show ?thesis by (fastforce simp: proposals0_def good_def)
qed

lemma heartbeats_tame:
  "heartbeats C n ps = Inr es \<Longrightarrow> good n \<Longrightarrow> isPrimary n \<Longrightarrow> tame n n es"
proof (induction ps arbitrary: es)
  case Nil
  then show ?case by (simp add: tame_refl)
next
  case (Cons p ps)
  have step: "tame n n (SendTo p msg # es')"
    if "tame n n es'" "\<forall>spp\<in>proposals0 {msg}. \<exists>s. snd (held n (SlotId 0 s)) = Some spp" "\<forall>m. msg \<noteq> RpcViewChange m" for msg es'
  proof -
    have "proposals0 (sent_rpcs (SendTo p msg # es')) = proposals0 {msg} \<union> proposals0 (sent_rpcs es')"
      by (auto simp: proposals0_def)
    then show ?thesis using that by (auto simp: tame_def)
  qed
  show ?case
  proof (cases "caughtUpOf n p = 0")
    case True
    with Cons.prems consider "es = []"
      | m es' where "NewView_Sign C (node_entity n) (currentNewView n) = Inr m" "heartbeats C n ps = Inr es'"
          "es = SendTo p (RpcNewView m) # es'"
      by (auto split: sum.splits)
    then show ?thesis
    proof cases
      case 1
      with Cons.prems show ?thesis by (simp add: tame_refl)
    next
      case 2
      with newView_mute [OF Cons.prems(2) 2(1)] Cons step show ?thesis by simp
    qed
  next
    case False
    with Cons.prems obtain msg es' where "heartbeatMessage C (caughtUpOf n p) n = Inr msg" "heartbeats C n ps = Inr es'"
      "es = SendTo p msg # es'" by (auto split: sum.splits)
    with heartbeatMessage_proposals Cons step show ?thesis by blast
  qed
qed

lemma sendHeartbeat_tame: "good n \<Longrightarrow> holds (tame n) (sendHeartbeat C n)"
  by (auto simp: sendHeartbeat_def heartbeats_tame tame_refl split: sum.splits)

text \<open>The proposals of a new leader are for its view.\<close>

definition proposes_view :: "int \<Rightarrow> PBFTNode \<times> NewViewPrePrepareMap \<Rightarrow> PBFTNode \<times> NewViewPrePrepareMap \<Rightarrow> bool" where
  "proposes_view view st st' \<longleftrightarrow>
     (\<exists>lg. fst st' = (fst st)\<lparr>log := lg\<rparr>) \<and>
     (\<forall>k. held (fst st') k \<noteq> held (fst st) k \<longrightarrow>
        ViewNumber k = view \<and> (\<forall>spp. snd (held (fst st') k) = Some spp \<longrightarrow> view_of spp = view)) \<and>
     ((\<forall>(k, pp)\<in>set (snd st). view_of (fpp_SignedMessage pp) = view) \<longrightarrow>
      (\<forall>(k, pp)\<in>set (snd st'). view_of (fpp_SignedMessage pp) = view))"

lemma proposes_view_refl: "proposes_view view st st"
proof -
  have "fst st = (fst st)\<lparr>log := log (fst st)\<rparr>" by simp
  then show ?thesis unfolding proposes_view_def by blast
qed

lemma proposes_view_trans:
  assumes "proposes_view view st st1" "proposes_view view st1 st2"
  shows "proposes_view view st st2"
proof -
  from assms obtain l1 l2 where l: "fst st1 = (fst st)\<lparr>log := l1\<rparr>" "fst st2 = (fst st1)\<lparr>log := l2\<rparr>"
    unfolding proposes_view_def by blast
  then have "fst st2 = (fst st)\<lparr>log := l2\<rparr>" by simp
  moreover have "ViewNumber k = view \<and> (\<forall>spp. snd (held (fst st2) k) = Some spp \<longrightarrow> view_of spp = view)"
    if "held (fst st2) k \<noteq> held (fst st) k" for k
    using that assms unfolding proposes_view_def by metis
  moreover have "(\<forall>(k, pp)\<in>set (snd st). view_of (fpp_SignedMessage pp) = view) \<longrightarrow>
      (\<forall>(k, pp)\<in>set (snd st2). view_of (fpp_SignedMessage pp) = view)"
    using assms unfolding proposes_view_def by blast
  ultimately show ?thesis unfolding proposes_view_def by blast
qed

lemma newview_round_view:
  assumes "newview_round C view s seqNums st = Inr st'"
  shows "proposes_view view st st'"
proof -
  obtain n pps where st: "st = (n, pps)" by (cases st)
  from assms st obtain slot spp req where
      n': "fst st' = putSlot (SlotId view s) slot n" and "s_preprepare slot = Some spp"
    and pps: "snd st' = gput (SlotId view s) \<lparr>fpp_SignedMessage = spp, fpp_Request = req\<rparr> pps"
    and v: "view_of spp = view"
    by (auto simp: newview_round_def Let_def dest: pre_prepare.signed_body split: prod.splits sum.splits)
  then have "held (fst st') k \<noteq> held n k \<Longrightarrow>
      ViewNumber k = view \<and> (\<forall>spp. snd (held (fst st') k) = Some spp \<longrightarrow> view_of spp = view)" for k
    by (auto simp: held_put split: if_splits)
  moreover have "(k, pp) \<in> set (snd st') \<Longrightarrow> (k, pp) \<in> set pps \<or> view_of (fpp_SignedMessage pp) = view" for k pp
    using v pps by (auto dest: set_gput_subset)
  ultimately show ?thesis using n' unfolding proposes_view_def st putSlot_def by fastforce
qed

lemma newview_loop_view:
  assumes "newview_loop C view s maxS seqNums st = Some (Inr st')"
  shows "proposes_view view st st'"
proof -
  have "r = Inr st' \<Longrightarrow> proposes_view view st st'"
    if "newview_loop C view s maxS seqNums st = Some r" for r
  proof (rule newview_loop.raw_induct [where P = "\<lambda>C view s maxS seqNums st r.
        r = Inr st' \<longrightarrow> proposes_view view st st'", rule_format, OF _ that])
    fix f C view s maxS seqNums st r
    assume IH: "\<And>C view s maxS seqNums st r. f C view s maxS seqNums st = Some r \<Longrightarrow>
        r = Inr st' \<Longrightarrow> proposes_view view st st'"
      and eq: "(if s \<le> maxS then
        (case newview_round C view s seqNums st of
           Inl f \<Rightarrow> Some (Inl f)
         | Inr st' \<Rightarrow> f C view (add64 s 1) maxS seqNums st') else Some (Inr st)) = Some r"
      and r: "r = Inr st'"
    show "proposes_view view st st'"
    proof (cases "s \<le> maxS")
      case False
      with eq r show ?thesis by (simp add: proposes_view_refl)
    next
      case True
      with eq r obtain st1 where r1: "newview_round C view s seqNums st = Inr st1"
        and f: "f C view (add64 s 1) maxS seqNums st1 = Some (Inr st')"
        by (auto split: sum.splits)
      show ?thesis using newview_round_view [OF r1] IH [OF f refl] by (rule proposes_view_trans)
    qed
  qed
  with assms show ?thesis by blast
qed

lemma generatePreprepares_view:
  assumes "generatePrepreparesForNewView C view n = Inr (n', pps)"
  shows "\<exists>lg i. n' = n\<lparr>log := lg, issuedSequenceNumber := i\<rparr>"
    and "held n' k \<noteq> held n k \<Longrightarrow> ViewNumber k = view \<and> (\<forall>spp. snd (held n' k) = Some spp \<longrightarrow> view_of spp = view)"
    and "(k', pp) \<in> set pps \<Longrightarrow> view_of (fpp_SignedMessage pp) = view"
proof -
  from assms obtain n1 i where p: "proposes_view view (n, []) (n1, pps)"
    and n': "n' = n1 \<or> n' = n1\<lparr>issuedSequenceNumber := i\<rparr>"
    unfolding generatePrepreparesForNewView_def Let_def
    by (auto split: prod.splits if_splits option.splits sum.splits intro: proposes_view_refl dest!: newview_loop_view)
  from p obtain lg where n1: "n1 = n\<lparr>log := lg\<rparr>" unfolding proposes_view_def by auto
  have "n1 = n\<lparr>log := lg, issuedSequenceNumber := issuedSequenceNumber n\<rparr>" by (simp add: n1)
  then have "n1 = n\<lparr>log := lg, issuedSequenceNumber := issuedSequenceNumber n\<rparr> \<and>
      n1\<lparr>issuedSequenceNumber := i\<rparr> = n\<lparr>log := lg, issuedSequenceNumber := i\<rparr>" by (simp add: n1)
  then show "\<exists>lg i. n' = n\<lparr>log := lg, issuedSequenceNumber := i\<rparr>" using n' by metis
  have "held n' = held n1" using n' by auto
  then show "held n' k \<noteq> held n k \<Longrightarrow> ViewNumber k = view \<and> (\<forall>spp. snd (held n' k) = Some spp \<longrightarrow> view_of spp = view)"
    using p unfolding proposes_view_def by auto
  show "(k', pp) \<in> set pps \<Longrightarrow> view_of (fpp_SignedMessage pp) = view"
    using p unfolding proposes_view_def by auto
qed

lemma enterNewView_simps:
  "viewNumber (enterNewView view n) = view" "config (enterNewView view n) = config n"
  "held (enterNewView view n) = held n" "newView (enterNewView view n) = newView n"
  "viewChange (enterNewView view n) = (viewChange n)\<lparr>vci_inProgress := False\<rparr>"
proof -
  show "held (enterNewView view n) = held n" by (simp add: fun_eq_iff held_def slotAt_def enterNewView_def)
  have s: "newView (startTimers m) = newView m" "viewChange (startTimers m) = viewChange m" for m
    by (simp_all add: startTimers_def)
  show "newView (enterNewView view n) = newView n" "viewChange (enterNewView view n) = (viewChange n)\<lparr>vci_inProgress := False\<rparr>"
    by (simp_all add: enterNewView_def s)
qed (simp_all add: enterNewView_def)

lemma leadNewView_tame:
  assumes "good n" "1 \<le> view" "view \<le> maxInt64"
  shows "holds (tame n) (leadNewView C view n)"
proof (rule holdsI)
  fix n' es assume "leadNewView C view n = Inr (n', es)"
  then obtain n1 pps where g: "generatePrepreparesForNewView C view n = Inr (n1, pps)"
    and h: "sendHeartbeat C (enterNewView view (n1\<lparr>newView := \<lparr>nv_ViewNumber = view,
       nv_ViewChanges = vci_messages (viewChange n1), nv_PrePrepares = pps, nv_Node = node_id n1\<rparr>,
       newViewShared := True,
       caughtUp := fold (\<lambda>p m. gput p 0 m) (gkeys (peermap n1)) (caughtUp n1)\<rparr>)) = Inr (n', es)"
    (is "sendHeartbeat C ?n2 = _")
    by (auto simp: leadNewView_def Let_def split: sum.splits)
  from generatePreprepares_view(1) [OF g] obtain lg i where n1: "n1 = n\<lparr>log := lg, issuedSequenceNumber := i\<rparr>" by blast
  have c: "config ?n2 = config n" by (simp add: enterNewView_simps n1)
  then have led: "led ?n2 v \<longleftrightarrow> led n v" for v by (simp add: config_def)
  have held: "held ?n2 = held n1" by (simp add: enterNewView_simps)
  have "held n1 (SlotId 0 s) = held n (SlotId 0 s)" for s
    using generatePreprepares_view(2) [OF g, of "SlotId 0 s"] assms(2) by auto
  moreover have "good ?n2"
  proof -
    have "view_of spp = ViewNumber k" if "led n (ViewNumber k)" "snd (held n1 k) = Some spp" for k spp
      using that assms(1) generatePreprepares_view(2) [OF g, of k] by (cases "held n1 k = held n k") (auto simp: good_def)
    then show ?thesis
      unfolding good_def led held
      using assms generatePreprepares_view(3) [OF g] by (auto simp: good_def enterNewView_simps n1)
  qed
  moreover have "vci_messages (viewChange ?n2) = vci_messages (viewChange n)" by (simp add: enterNewView_simps n1)
  ultimately have "tame n ?n2 []" using c by (simp add: tame_def held)
  moreover have "tame ?n2 n' es" using holdsD [OF sendHeartbeat_tame [OF \<open>good ?n2\<close>] h] .
  ultimately show "tame n n' es" using tame_trans by fastforce
qed

lemma higher_views_low: "higher_views cur msgs c low = (c', low') \<Longrightarrow> cur < low \<Longrightarrow> cur < low'"
  by (induction msgs arbitrary: c low) (auto simp: Let_def split: if_splits)

text \<open>The entry a view-change message makes; the second premise is what the votes of a quorum give.\<close>

definition with_message :: "SignedViewChange \<Rightarrow> PBFTNode \<Rightarrow> PBFTNode" where
  "with_message m n = n\<lparr>viewChange := (viewChange n)\<lparr>vci_messages :=
      gput (vc_Node (svc_Message m)) m (vci_messages (viewChange n))\<rparr>\<rparr>"

lemma good_with_message: "good (with_message m n) = good n" "held (with_message m n) = held n"
  "config (with_message m n) = config n"
  by (simp_all add: with_message_def good_def)

lemma handleViewChange_tame:
  assumes "good n" "vc_ViewNumber (svc_Message m) \<le> maxInt64" "handleViewChange C m n = Inr (n', es)"
    and votes: "SignedViewChange_SignatureValid C (peerEntities n) (peerEntityMap n) m = Inr (vc_Node (svc_Message m)) \<Longrightarrow>
      2 * length (peermap n) div 3 \<le> countVotes (vc_ViewNumber (svc_Message m)) (vci_messages (viewChange (with_message m n))) \<Longrightarrow>
      1 \<le> vc_ViewNumber (svc_Message m)"
  shows "tame n n' es \<or> SignedViewChange_SignatureValid C (peerEntities n) (peerEntityMap n) m = Inr (vc_Node (svc_Message m)) \<and>
    tame (with_message m n) n' es"
proof -
  define n1 where "n1 = with_message m n"
  have g: "good n1" using assms(1) by (simp add: n1_def good_with_message)
  have p: "peermap n1 = peermap n" by (simp add: n1_def with_message_def)
  have cur: "0 \<le> currentView n" using assms(1) by (simp add: currentView_def good_def)
  obtain c low where h: "higher_views (currentView n) (vci_messages (viewChange n1)) 0 (vc_ViewNumber (svc_Message m)) = (c, low)"
    by (cases "higher_views (currentView n) (vci_messages (viewChange n1)) 0 (vc_ViewNumber (svc_Message m))")
  have s: "tame n1 n' es" if "currentView n < vc_ViewNumber (svc_Message m)" "startViewChange C low n1 = Inr (n', es)"
    using higher_views_low [OF h that(1)] cur that(2) by (intro holdsD [OF startViewChange_tame [OF g]]) simp_all
  have l: "tame n1 n' es" if "1 \<le> vc_ViewNumber (svc_Message m)" "leadNewView C (vc_ViewNumber (svc_Message m)) n1 = Inr (n', es)"
    using that assms(2) by (intro holdsD [OF leadNewView_tame [OF g]])
  have "tame n n []" "tame n1 n1 []" using assms(1) g by (simp_all add: tame_refl)
  then show ?thesis
    using assms(3) s l votes
    unfolding handleViewChange_def Let_def with_message_def [symmetric] n1_def [symmetric]
    by (auto simp: h p ret_def split: sum.splits if_splits)
qed

lemma assignLoopVar_tame:
  assumes "good n" "\<forall>k\<in>set aliased. ViewNumber k \<noteq> 0 \<and> \<not> led n (ViewNumber k)"
  shows "tame n (assignLoopVar pp aliased n) []"
  using assms
proof (induction aliased arbitrary: n)
  case Nil
  then show ?case by (simp add: assignLoopVar_def tame_refl)
next
  case (Cons k aliased)
  define n1 where "n1 = putSlot k ((slotAt n k)\<lparr>s_request := Some (fpp_Request pp),
       s_preprepare := Some (fpp_SignedMessage pp)\<rparr>) n"
  have t: "tame n n1 []"
    unfolding n1_def by (rule tame_write [where k = k]) (use Cons.prems in \<open>auto simp: held_put\<close>)
  then have "cluster n1 = cluster n" "node_id n1 = node_id n" by (auto simp: tame_def config_def)
  with Cons.IH [OF tame_good [OF t]] Cons.prems have "tame n1 (assignLoopVar pp aliased n1) []" by simp
  with tame_trans [OF t this] show ?case by (simp add: assignLoopVar_def n1_def)
qed

lemma newview_preprepares_tame:
  assumes "good n" "viewNumber n \<noteq> 0" "\<forall>k\<in>set aliased. ViewNumber k \<noteq> 0 \<and> \<not> led n (ViewNumber k)"
  shows "holds (tame n) (newview_preprepares C pps aliased n)"
  using assms
proof (induction pps arbitrary: aliased n)
  case Nil
  then show ?case by (simp add: tame_refl)
next
  case (Cons e rest)
  obtain x pp where e: "e = (x, pp)" by (cases e)
  define n1 where "n1 = assignLoopVar pp aliased n"
  define num where "num = pp_Number (spp_PrePrepareMessage (fpp_SignedMessage pp))"
  from assignLoopVar_tame [OF Cons.prems(1,3)] have t: "tame n n1 []" by (simp add: n1_def)
  then have c: "led n1 v \<longleftrightarrow> led n v" for v by (simp add: tame_def config_def)
  have v: "viewNumber n1 = viewNumber n" by (simp add: n1_def assignLoopVar_view)
  have a: "\<forall>k\<in>set aliased. ViewNumber k \<noteq> 0 \<and> \<not> led n1 (ViewNumber k)" using Cons.prems(3) c by simp
  show ?case
  proof (cases "SeqNumber num > sequenceNumber n1")
    case False
    have "holds (tame n1) (newview_preprepares C rest aliased n1)"
      using Cons.IH [OF tame_good [OF t] _ a] v Cons.prems(2) by simp
    then have "holds (tame n) (newview_preprepares C rest aliased n1)" by (rule holds_tame_trans [OF t])
    with False show ?thesis by (simp add: e Let_def n1_def num_def)
  next
    case True
    have step: "tame n m es" if "andThen (handlePrePrepare C pp n1) (\<lambda>n'. newview_preprepares C rest
        (if s_request (slotAt n1 num) = None \<and> s_request (slotAt n' num) \<noteq> None
         then num # aliased else aliased) n') = Inr (m, es)" for m es
    proof -
      from that obtain n2 es1 es2 where h: "handlePrePrepare C pp n1 = Inr (n2, es1)" and es: "es = es1 @ es2"
        and r: "newview_preprepares C rest (if s_request (slotAt n1 num) = None \<and>
            s_request (slotAt n2 num) \<noteq> None then num # aliased else aliased) n2 = Inr (m, es2)"
        by (auto simp: andThen_eq_Inr)
      have v2: "viewNumber n2 \<noteq> 0"
        using holdsD [OF handlePrePrepare_frame h] v Cons.prems(2) by simp
      have t2: "tame n1 n2 es1"
        using handlePrePrepare_result(1) [OF h tame_good [OF t]] v Cons.prems(2) by (auto simp: accepts0_def Let_def)
      then have c2: "led n2 w \<longleftrightarrow> led n1 w" for w by (simp add: tame_def config_def)
      have "ViewNumber num = viewNumber n1 \<and> \<not> isPrimary n1"
        if "s_request (slotAt n1 num) = None" "s_request (slotAt n2 num) \<noteq> None"
        by (rule handlePrePrepare_result(2) [OF h tame_good [OF t]]) (use that in \<open>auto simp: held_def\<close>)
      then have "\<forall>k\<in>set (if s_request (slotAt n1 num) = None \<and> s_request (slotAt n2 num) \<noteq> None
          then num # aliased else aliased). ViewNumber k \<noteq> 0 \<and> \<not> led n2 (ViewNumber k)"
        using a v Cons.prems(2) by (auto simp: c2 isPrimary_led)
      from holdsD [OF Cons.IH [OF tame_good [OF t2] v2 this] r] have "tame n2 m es2" .
      from tame_trans [OF t tame_trans [OF t2 this]] show ?thesis by (simp add: es)
    qed
    have "newview_preprepares C (e # rest) aliased n = andThen (handlePrePrepare C pp n1)
        (\<lambda>n'. newview_preprepares C rest
        (if s_request (slotAt n1 num) = None \<and> s_request (slotAt n' num) \<noteq> None
         then num # aliased else aliased) n')"
      unfolding e newview_preprepares.simps Let_def n1_def [symmetric] num_def [symmetric]
      using True by (simp only: if_True)
    with step show ?thesis by (auto intro: holdsI)
  qed
qed

lemma handleNewView_tame:
  assumes "good n" "nv_ViewNumber (snv_Message m) \<le> maxInt64"
  shows "holds (tame n) (handleNewView C m n)"
proof -
  define view where "view = nv_ViewNumber (snv_Message m)"
  have "holds (tame n) (newview_preprepares C pps [] (enterNewView view n))" if "1 \<le> view" for pps
  proof -
    have c: "led (enterNewView view n) v \<longleftrightarrow> led n v" for v
      using enterNewView_simps(2) [of view n] by (simp add: config_def)
    have "good (enterNewView view n)"
      using assms that unfolding good_def c by (simp add: enterNewView_simps view_def)
    then have "tame n (enterNewView view n) []" by (simp add: tame_def enterNewView_simps)
    moreover have "holds (tame (enterNewView view n)) (newview_preprepares C pps [] (enterNewView view n))"
      using \<open>good (enterNewView view n)\<close> that by (intro newview_preprepares_tame) (simp_all add: enterNewView_simps)
    ultimately show ?thesis by (rule holds_tame_trans)
  qed
  moreover have "1 \<le> view" if "vci_inProgress (viewChange n) \<and> view = vci_viewNumber (viewChange n) \<or> view > currentView n"
    using that assms(1) by (auto simp: good_def currentView_def split: if_splits)
  ultimately show ?thesis
    unfolding handleNewView_def Let_def view_def [symmetric] using assms(1) by (auto simp: tame_refl)
qed

section \<open>Every event\<close>

lemma add64_view: "0 \<le> v \<Longrightarrow> v \<le> maxInt64 \<Longrightarrow> add64 v 1 \<noteq> 0"
  by (cases "v = maxInt64") (auto simp: add64_def wrap64_def maxInt64_def)

lemma next_view_tame: "good n \<Longrightarrow> holds (tame n) (startViewChange C (add64 (viewNumber n) 1) n)"
  by (rule startViewChange_tame) (auto simp: good_def add64_view)

text \<open>A run of a good replica: it is tame, it issues a request in view 0, or it accepts one.\<close>

lemma handleMessages_result:
  assumes "handleMessages C ev n = Inr (n', es)" "good n"
    and "\<And>m. ev = EvNewView m \<Longrightarrow> nv_ViewNumber (snv_Message m) \<le> maxInt64"
    and "\<And>m. ev = EvViewChange m \<Longrightarrow> vc_ViewNumber (svc_Message m) \<le> maxInt64"
    and "\<And>m. ev = EvViewChange m \<Longrightarrow>
      SignedViewChange_SignatureValid C (peerEntities n) (peerEntityMap n) m = Inr (vc_Node (svc_Message m)) \<Longrightarrow>
      2 * length (peermap n) div 3 \<le> countVotes (vc_ViewNumber (svc_Message m)) (vci_messages (viewChange (with_message m n))) \<Longrightarrow>
      1 \<le> vc_ViewNumber (svc_Message m)"
  obtains (tame) "tame n n' es"
  | (message) m where "ev = EvViewChange m"
      "SignedViewChange_SignatureValid C (peerEntities n) (peerEntityMap n) m = Inr (vc_Node (svc_Message m))"
      "tame (with_message m n) n' es"
  | (issues) req where "issues0 n req n' es"
  | (accepts) pp where "ev = EvPrePrepare pp" "accepts0 C n pp n' es"
proof (cases "n' = n \<and> es = []")
  case True
  then show ?thesis using assms(2) by (intro that(1)) (simp add: tame_refl)
next
  case False
  with assms(1) have r: "handleEvent C ev n = Inr (n', es)"
    by (auto simp: handleMessages_def ret_def split: sum.splits if_splits)
  show ?thesis
  proof (cases ev)
    case (EvDebug msg)
    have "steady n (n\<lparr>down := b\<rparr>)" for b by (rule steadyI) simp_all
    then have "tame n (n\<lparr>down := b\<rparr>) []" for b using assms(2) by (simp add: steady_tame)
    with r assms(2) show ?thesis
      using handleClientRequest_cases [of C "Some (dm_Request msg)" n n' es] tame_refl [OF assms(2)] EvDebug that(1,3)
      by (auto simp: handleDebug_def ret_def split: if_splits)
  next
    case (EvPrePrepare pp)
    then show ?thesis using r handlePrePrepare_result(1) [of C pp n n' es] assms(2) that(1,4) by auto
  next
    case (EvClientRequest req)
    then show ?thesis using r handleClientRequest_cases [of C req n n' es] assms(2) that(1,3) by auto
  next
    case (EvViewChange m)
    then show ?thesis
      using r handleViewChange_tame [of n m C n' es] assms(2) assms(4,5) [of m] that(1,2) by auto
  next
    case (EvNewView m)
    then show ?thesis using r holdsD [OF handleNewView_tame [OF assms(2)]] assms(3) [of m] that(1) by simp
  next
    case EvTimer
    have t: "tame n (timerFired n) []" using timerFired_steady assms(2) by (simp add: steady_tame)
    note g = tame_good [OF t]
    have "holds (tame (timerFired n)) (handleHeartbeatTimeout C (timerFired n))"
      using next_view_tame [OF g] sendHeartbeat_tame [OF g] tame_refl [OF g]
      by (auto simp: handleHeartbeatTimeout_def)
    from holds_tame_trans [OF t this] r EvTimer show ?thesis by (auto intro: that(1) dest: holdsD)
  next
    case (EvNewViewReply p err)
    then show ?thesis using r afterNewView_steady assms(2) by (auto simp: ret_def intro!: that(1) steady_tame)
  next
    case (EvHeartbeatReply p rs err)
    then show ?thesis using r afterHeartbeat_steady assms(2) by (auto simp: ret_def intro!: that(1) steady_tame)
  next
    case EvRequestTimeout
    then show ?thesis using r holdsD [OF next_view_tame [OF assms(2)]] that(1) by simp
  next
    case (EvPrepare m)
    then show ?thesis using r holdsD [OF holds_steady_tame [OF handlePrepare_steady assms(2)]] that(1) by simp
  next
    case (EvCommit m)
    then show ?thesis using r holdsD [OF holds_steady_tame [OF handleCommit_steady assms(2)]] that(1) by simp
  next
    case (EvCheckpoint m)
    then show ?thesis using r holdsD [OF holds_steady_tame [OF handleCheckpoint_steady assms(2)]] that(1) by simp
  next
    case (EvCheckpointProof m)
    then show ?thesis using r holdsD [OF holds_steady_tame [OF handleCheckpointProof_steady assms(2)]] that(1) by simp
  next
    case (EvSnapshot k st)
    then show ?thesis using r holdsD [OF holds_steady_tame [OF handleRecvSnapshot_steady assms(2)]] that(1) by simp
  qed
qed

end
