(* ===== verification/Proposals.thy ===== *)
theory Proposals
  imports New_View
begin

text \<open>
  What a new leader proposes again (src/pbft/view_change.go, generatePrepreparesForNewView):
  the loops of the code against a short specification, and when the loop ends.
\<close>

section \<open>The specification\<close>

text \<open>All proofs in the order the code visits them, and the one of the highest view for a number.\<close>

definition all_proofs :: "(NodeId, SignedViewChange) gomap \<Rightarrow> (SlotId \<times> PreparedProof) list" where
  "all_proofs msgs = concat (map (\<lambda>(_, vc). vc_Proofs (svc_Message vc)) msgs)"

definition later_view :: "SlotId \<times> PreparedProof \<Rightarrow> SlotId \<times> PreparedProof \<Rightarrow> SlotId \<times> PreparedProof" where
  "later_view p best = (if ViewNumber (fst p) > ViewNumber (fst best) then p else best)"

definition chosen :: "(SlotId \<times> PreparedProof) list \<Rightarrow> int \<Rightarrow> string \<times> byte list" where
  "chosen ps s =
     (case filter (\<lambda>p. SeqNumber (fst p) = s) ps of
        [] \<Rightarrow> ([], GenerateDigest [])
      | q # qs \<Rightarrow> (let b = snd (fold later_view qs q) in (pr_Request b, pr_RequestDigest b)))"

definition lowest :: "PBFTNode \<Rightarrow> int" where
  "lowest n = Max (set (SeqNumber (cp_Number (lastCheckpoint n)) #
     map (\<lambda>(_, vc). SeqNumber (vc_Checkpoint (svc_Message vc))) (vci_messages (viewChange n))))"

definition highest :: "PBFTNode \<Rightarrow> int" where
  "highest n = Max (set (SeqNumber (cp_Number (lastCheckpoint n)) #
     map (\<lambda>p. SeqNumber (fst p)) (all_proofs (vci_messages (viewChange n)))))"

definition to_propose :: "PBFTNode \<Rightarrow> int \<Rightarrow> SlotId \<Rightarrow> bool" where
  "to_propose n view k \<longleftrightarrow> lowest n < highest n \<and> ViewNumber k = view \<and>
     lowest n \<le> SeqNumber k \<and> SeqNumber k \<le> highest n"

definition proposal :: "pgp \<Rightarrow> entity \<Rightarrow> string \<times> byte list \<Rightarrow> SlotId \<Rightarrow> FullPrePrepare" where
  "proposal C e rd k = \<lparr>fpp_SignedMessage = projr (PrePrepare_Sign C e \<lparr>pp_Number = k, pp_RequestDigest = snd rd\<rparr>),
     fpp_Request = fst rd\<rparr>"

definition proposed_slot :: "pgp \<Rightarrow> entity \<Rightarrow> string \<times> byte list \<Rightarrow> SlotId \<Rightarrow> Slot" where
  "proposed_slot C e rd k = \<lparr>s_request = Some (fst rd), s_requestDigest = snd rd,
     s_preprepare = Some (fpp_SignedMessage (proposal C e rd k)), s_prepares = [], s_commits = [],
     s_prepared = False, s_committed = False\<rparr>"

text \<open>A key that can always sign.\<close>

definition pgp_signs :: "pgp \<Rightarrow> entity \<Rightarrow> bool" where
  "pgp_signs C e \<longleftrightarrow> (\<forall>d. \<exists>sg. DetachSign C e d = Inr sg)"

lemma example_pgp_signs: "pgp_signs example_pgp e"
  by (simp add: pgp_signs_def example_pgp_def)

lemma fold_later_view:
  "fold later_view qs q \<in> set (q # qs) \<and> (\<forall>p\<in>set (q # qs). ViewNumber (fst p) \<le> ViewNumber (fst (fold later_view qs q)))"
proof (induction qs arbitrary: q)
  case (Cons p qs)
  from Cons.IH [of "later_view p q"] show ?case
    by (auto simp: later_view_def split: if_splits)
qed simp

lemma chosen_highest:
  assumes "(k, p) \<in> set ps" "SeqNumber k = s"
  obtains k' p' where "(k', p') \<in> set ps" "SeqNumber k' = s" "ViewNumber k \<le> ViewNumber k'"
    "chosen ps s = (pr_Request p', pr_RequestDigest p')"
proof -
  have "(k, p) \<in> set (filter (\<lambda>p. SeqNumber (fst p) = s) ps)" using assms by simp
  then obtain q qs where f: "filter (\<lambda>p. SeqNumber (fst p) = s) ps = q # qs"
    and m: "(k, p) \<in> set (q # qs)" by (metis list.set_cases)
  from fold_later_view [where q = q and qs = qs] m
  have b: "fold later_view qs q \<in> set (q # qs)" "ViewNumber k \<le> ViewNumber (fst (fold later_view qs q))"
    by auto
  define best where "best = fold later_view qs q"
  have "set (q # qs) = {x \<in> set ps. SeqNumber (fst x) = s}" using f by (metis set_filter)
  with b(1) have "best \<in> set ps" "SeqNumber (fst best) = s" unfolding best_def by blast+
  with b(2) that [of "fst best" "snd best"] show ?thesis
    by (simp add: chosen_def f Let_def best_def)
qed

section \<open>The loops over the messages\<close>

definition note_proof :: "SlotId \<times> PreparedProof \<Rightarrow> (int, requestView) gomap \<Rightarrow> (int, requestView) gomap" where
  "note_proof p seqNums =
     (let reqInfo = \<lparr>rv_request = pr_Request (snd p), rv_requestDigest = pr_RequestDigest (snd p),
            rv_view = ViewNumber (fst p)\<rparr>
      in case gget seqNums (SeqNumber (fst p)) of
          Some prev \<Rightarrow> if rv_view reqInfo > rv_view prev then gput (SeqNumber (fst p)) reqInfo seqNums else seqNums
        | None \<Rightarrow> gput (SeqNumber (fst p)) reqInfo seqNums)"

lemma collect_proofs_fold:
  "collect_proofs ps maxS seqNums =
     (fold (\<lambda>p m. max m (SeqNumber (fst p))) ps maxS, fold note_proof ps seqNums)"
proof (induction ps arbitrary: maxS seqNums)
  case (Cons e ps)
  obtain k p where e: "e = (k, p)" by (cases e)
  have "collect_proofs ((k, p) # ps) maxS seqNums = collect_proofs ps (max maxS (SeqNumber k)) (note_proof (k, p) seqNums)"
    by (cases "gget seqNums (SeqNumber k)") (simp_all add: note_proof_def Let_def max_def)
  then show ?case by (simp add: e Cons.IH)
qed simp

lemma collect_messages_fold:
  "collect_messages msgs minS maxS seqNums =
     (fold (\<lambda>s m. max m s) (map (\<lambda>(_, vc). SeqNumber (vc_Checkpoint (svc_Message vc))) msgs) minS,
      fold (\<lambda>p m. max m (SeqNumber (fst p))) (all_proofs msgs) maxS, fold note_proof (all_proofs msgs) seqNums)"
proof (induction msgs arbitrary: minS maxS seqNums)
  case (Cons e msgs)
  obtain i vc where e: "e = (i, vc)" by (cases e)
  have "(if SeqNumber (vc_Checkpoint (svc_Message vc)) > minS then SeqNumber (vc_Checkpoint (svc_Message vc)) else minS)
      = max minS (SeqNumber (vc_Checkpoint (svc_Message vc)))" by auto
  then show ?case by (simp add: e Let_def collect_proofs_fold Cons.IH all_proofs_def)
qed (simp add: all_proofs_def)

lemma fold_max: "fold (\<lambda>p m. max m (f p)) xs m = Max (set (m # map f xs))" for f :: "'a \<Rightarrow> int"
proof -
  have "(\<lambda>p m. max m (f p)) = max \<circ> f" by (simp add: fun_eq_iff max.commute)
  then show ?thesis by (simp only: fold_map [symmetric] Max.set_eq_fold)
qed

definition view_of :: "SlotId \<times> PreparedProof \<Rightarrow> requestView" where
  "view_of p = \<lparr>rv_request = pr_Request (snd p), rv_requestDigest = pr_RequestDigest (snd p), rv_view = ViewNumber (fst p)\<rparr>"

lemma gget_note_proof:
  "gget (note_proof p seqNums) s =
     (if SeqNumber (fst p) = s then
        Some (case gget seqNums s of None \<Rightarrow> view_of p
          | Some prev \<Rightarrow> if ViewNumber (fst p) > rv_view prev then view_of p else prev)
      else gget seqNums s)"
  by (simp add: note_proof_def view_of_def Let_def split: option.splits)

lemma note_proofs_known:
  "gget seqNums s = Some (view_of q) \<Longrightarrow>
     gget (fold note_proof ps seqNums) s =
       Some (view_of (fold later_view (filter (\<lambda>p. SeqNumber (fst p) = s) ps) q))"
proof (induction ps arbitrary: seqNums q)
  case (Cons p ps)
  show ?case
  proof (cases "SeqNumber (fst p) = s")
    case True
    then have "gget (note_proof p seqNums) s = Some (view_of (later_view p q))"
      using Cons.prems by (simp add: gget_note_proof later_view_def view_of_def)
    from Cons.IH [OF this] True show ?thesis by simp
  next
    case False
    then have "gget (note_proof p seqNums) s = Some (view_of q)"
      using Cons.prems by (simp add: gget_note_proof)
    from Cons.IH [OF this] False show ?thesis by simp
  qed
qed simp

lemma note_proofs:
  "gget seqNums s = None \<Longrightarrow>
     gget (fold note_proof ps seqNums) s =
       (case filter (\<lambda>p. SeqNumber (fst p) = s) ps of
          [] \<Rightarrow> None | q # qs \<Rightarrow> Some (view_of (fold later_view qs q)))"
proof (induction ps arbitrary: seqNums)
  case (Cons p ps)
  show ?case
  proof (cases "SeqNumber (fst p) = s")
    case True
    then have "gget (note_proof p seqNums) s = Some (view_of p)"
      using Cons.prems by (simp add: gget_note_proof)
    from note_proofs_known [OF this] True show ?thesis by simp
  next
    case False
    then have "gget (note_proof p seqNums) s = None"
      using Cons.prems by (simp add: gget_note_proof)
    from Cons.IH [OF this] False show ?thesis by simp
  qed
qed simp

lemma newview_choice_chosen: "newview_choice (fold note_proof ps []) s = chosen ps s"
  by (simp add: newview_choice_def note_proofs chosen_def view_of_def Let_def split: list.splits)

section \<open>The loop over the sequence numbers\<close>

lemma pgp_signs_PrePrepare:
  "pgp_signs C e \<Longrightarrow> PrePrepare_Sign C e pp = Inr (projr (PrePrepare_Sign C e pp))"
  unfolding pgp_signs_def PrePrepare_Sign_def by (auto split: sum.splits) (metis Inl_Inr_False)

lemma newview_round_signs:
  assumes "pgp_signs C (node_entity n)"
  shows "newview_round C view s sn (n, pps) =
    Inr (putSlot (SlotId view s) (proposed_slot C (node_entity n) (newview_choice sn s) (SlotId view s)) n,
         gput (SlotId view s) (proposal C (node_entity n) (newview_choice sn s) (SlotId view s)) pps)"
  using pgp_signs_PrePrepare [OF assms]
  by (auto simp: newview_round_def Let_def proposed_slot_def proposal_def split: prod.splits sum.splits)
    (metis sum.disc(1) sum.disc(2))

text \<open>The numbers still to come, in the view.\<close>

definition ahead :: "int \<Rightarrow> int \<Rightarrow> int \<Rightarrow> SlotId \<Rightarrow> bool" where
  "ahead view s maxS k \<longleftrightarrow> ViewNumber k = view \<and> s \<le> SeqNumber k \<and> SeqNumber k \<le> maxS"

lemma ahead_step: "s \<le> maxS \<Longrightarrow> ahead view s maxS k \<longleftrightarrow> k = SlotId view s \<or> ahead view (s + 1) maxS k"
  by (cases k) (auto simp: ahead_def)

lemma newview_loop_ends:
  assumes "pgp_signs C (node_entity n)" "int64 s" "int64 maxS" "maxS < maxInt64"
  shows "\<exists>lg pps'. newview_loop C view s maxS sn (n, pps) = Some (Inr (n\<lparr>log := lg\<rparr>, pps')) \<and>
    (\<forall>k. gget lg k = (if ahead view s maxS k then Some (proposed_slot C (node_entity n) (newview_choice sn (SeqNumber k)) k)
       else gget (log n) k)) \<and>
    (\<forall>k. gget pps' k = (if ahead view s maxS k then Some (proposal C (node_entity n) (newview_choice sn (SeqNumber k)) k)
       else gget pps k))"
  using assms(2) assms(1)
proof (induction "nat (maxS + 1 - s)" arbitrary: s n pps)
  case 0
  then have "\<not> s \<le> maxS" by simp
  then have "newview_loop C view s maxS sn (n, pps) = Some (Inr (n\<lparr>log := log n\<rparr>, pps))"
    by (subst newview_loop.simps) simp
  moreover have "\<not> ahead view s maxS k" for k using \<open>\<not> s \<le> maxS\<close> by (simp add: ahead_def)
  ultimately show ?case by (intro exI [of _ "log n"] exI [of _ pps]) simp
next
  case (Suc d)
  then have le: "s \<le> maxS" by simp
  with assms(4) have s1: "add64 s 1 = s + 1" "int64 (s + 1)"
    using Suc.prems(1) by (auto simp: add64_succ int64_def)
  let ?k = "SlotId view s"
  define m where "m = putSlot ?k (proposed_slot C (node_entity n) (newview_choice sn s) ?k) n"
  define pps1 where "pps1 = gput ?k (proposal C (node_entity n) (newview_choice sn s) ?k) pps"
  have e: "node_entity m = node_entity n" by (simp add: m_def)
  have "newview_loop C view s maxS sn (n, pps) = newview_loop C view (s + 1) maxS sn (m, pps1)"
    by (subst newview_loop.simps)
      (simp add: le newview_round_signs [OF Suc.prems(2)] s1 m_def pps1_def)
  moreover have "d = nat (maxS + 1 - (s + 1))" using Suc.hyps(2) le by simp
  from Suc.hyps(1) [OF this, of m pps1] s1(2) Suc.prems(2)
  obtain lg pps' where "newview_loop C view (s + 1) maxS sn (m, pps1) = Some (Inr (m\<lparr>log := lg\<rparr>, pps'))"
    and lg: "\<And>k. gget lg k = (if ahead view (s + 1) maxS k
        then Some (proposed_slot C (node_entity n) (newview_choice sn (SeqNumber k)) k) else gget (log m) k)"
    and pps': "\<And>k. gget pps' k = (if ahead view (s + 1) maxS k
        then Some (proposal C (node_entity n) (newview_choice sn (SeqNumber k)) k) else gget pps1 k)"
    unfolding e by auto
  moreover have "m\<lparr>log := lg\<rparr> = n\<lparr>log := lg\<rparr>" by (simp add: m_def putSlot_def)
  moreover have "gget lg k = (if ahead view s maxS k
        then Some (proposed_slot C (node_entity n) (newview_choice sn (SeqNumber k)) k) else gget (log n) k)" for k
    unfolding ahead_step [OF le] lg by (simp add: m_def)
  moreover have "gget pps' k = (if ahead view s maxS k
        then Some (proposal C (node_entity n) (newview_choice sn (SeqNumber k)) k) else gget pps k)" for k
    unfolding ahead_step [OF le] pps' by (simp add: pps1_def)
  ultimately show ?case by auto
qed

section \<open>The proposals\<close>

lemma collected:
  "collect_messages (vci_messages (viewChange n)) (SeqNumber (cp_Number (lastCheckpoint n)))
     (SeqNumber (cp_Number (lastCheckpoint n))) [] =
   (lowest n, highest n, fold note_proof (all_proofs (vci_messages (viewChange n))) [])"
  using fold_max [of id "map (\<lambda>(_, vc). SeqNumber (vc_Checkpoint (svc_Message vc))) (vci_messages (viewChange n))"]
  by (simp add: collect_messages_fold lowest_def highest_def fold_max del: set_map)

text \<open>C17: The new leader's loops end and compute the specification: for every sequence number from
  the latest checkpoint of the view-change messages to the highest prepared number (and for no
  other) it proposes the request of the proof with the highest view, or the empty request where
  there is none, puts exactly these proposals into its log, and issues later numbers only.\<close>

theorem new_view_proposals:
  assumes "pgp_signs C (node_entity n)" "int64 (lowest n)" "int64 (highest n)" "highest n < maxInt64"
  shows "\<exists>n' pps lg. generatePrepreparesForNewView C view n = Inr (n', pps) \<and>
    n' = n\<lparr>log := lg, issuedSequenceNumber := max (highest n) (issuedSequenceNumber n)\<rparr> \<and>
    (\<forall>k. gget pps k = (if to_propose n view k
       then Some (proposal C (node_entity n) (chosen (all_proofs (vci_messages (viewChange n))) (SeqNumber k)) k)
       else None)) \<and>
    (\<forall>k. gget lg k = (if to_propose n view k
       then Some (proposed_slot C (node_entity n) (chosen (all_proofs (vci_messages (viewChange n))) (SeqNumber k)) k)
       else gget (log n) k))"
proof -
  define sn where "sn = fold note_proof (all_proofs (vci_messages (viewChange n))) []"
  have choice: "newview_choice sn = chosen (all_proofs (vci_messages (viewChange n)))"
    by (simp add: sn_def newview_choice_chosen fun_eq_iff)
  have raise: "(if highest n > i then n\<lparr>log := lg, issuedSequenceNumber := highest n\<rparr> else n\<lparr>log := lg\<rparr>)
      = n\<lparr>log := lg, issuedSequenceNumber := max (highest n) i\<rparr>"
    if "i = issuedSequenceNumber n" for i lg using that by auto
  show ?thesis
  proof (cases "lowest n < highest n")
    case True
    from newview_loop_ends [OF assms(1-4), where sn = sn and view = view and pps = "[]"] obtain lg pps
      where l: "newview_loop C view (lowest n) (highest n) sn (n, []) = Some (Inr (n\<lparr>log := lg\<rparr>, pps))"
      and lg: "\<And>k. gget lg k = (if ahead view (lowest n) (highest n) k
        then Some (proposed_slot C (node_entity n) (newview_choice sn (SeqNumber k)) k) else gget (log n) k)"
      and pps: "\<And>k. gget pps k = (if ahead view (lowest n) (highest n) k
        then Some (proposal C (node_entity n) (newview_choice sn (SeqNumber k)) k) else None)"
      by auto
    have "to_propose n view k \<longleftrightarrow> ahead view (lowest n) (highest n) k" for k
      using True by (simp add: to_propose_def ahead_def)
    moreover have "generatePrepreparesForNewView C view n =
        Inr (n\<lparr>log := lg, issuedSequenceNumber := max (highest n) (issuedSequenceNumber n)\<rparr>, pps)"
      using True l raise [of "issuedSequenceNumber n" lg]
      by (simp add: generatePrepreparesForNewView_def Let_def collected sn_def)
    ultimately show ?thesis using lg pps unfolding choice by auto
  next
    case False
    have "generatePrepreparesForNewView C view n =
        Inr (n\<lparr>log := log n, issuedSequenceNumber := max (highest n) (issuedSequenceNumber n)\<rparr>, [])"
      using False raise [of "issuedSequenceNumber n" "log n"]
      by (simp add: generatePrepreparesForNewView_def Let_def collected)
    moreover have "\<not> to_propose n view k" for k using False by (simp add: to_propose_def)
    ultimately show ?thesis by (intro exI [of _ "[]"] exI [of _ "log n"] exI) auto
  qed
qed

text \<open>One proof for slot (0, 3): the leader proposes 0 to 3 in view 1.\<close>

definition exProofs :: "int \<Rightarrow> PreparedProofMap" where
  "exProofs s = [(SlotId 0 s, \<lparr>pr_Number = SlotId 0 s, pr_Request = ''op'',
     pr_Preprepare = fpp_SignedMessage exPrePrepare, pr_RequestDigest = exDigest, pr_Prepares = []\<rparr>)]"

definition exLeader_proofs :: "int \<Rightarrow> PBFTNode" where
  "exLeader_proofs s = exLeader\<lparr>viewChange := (viewChange exLeader)\<lparr>vci_messages :=
     [(2, (exViewChange 2)\<lparr>svc_Message := (svc_Message (exViewChange 2))\<lparr>vc_Proofs := exProofs s\<rparr>\<rparr>)]\<rparr>\<rparr>"

lemma exLeader_proofs_range: "0 \<le> s \<Longrightarrow> lowest (exLeader_proofs s) = 0 \<and> highest (exLeader_proofs s) = s"
  by (simp add: lowest_def highest_def exLeader_proofs_def exLeader_fields exLeader_more initCheckpoint_def
      exViewChange_def exSign exProofs_def all_proofs_def)

lemma new_view_proposals_witness:
  "\<exists>n' pps lg. generatePrepreparesForNewView example_pgp 1 (exLeader_proofs 3) = Inr (n', pps) \<and>
    n' = (exLeader_proofs 3)\<lparr>log := lg, issuedSequenceNumber := max (highest (exLeader_proofs 3))
      (issuedSequenceNumber (exLeader_proofs 3))\<rparr> \<and>
    (\<forall>k. gget pps k = (if to_propose (exLeader_proofs 3) 1 k
       then Some (proposal example_pgp (node_entity (exLeader_proofs 3))
         (chosen (all_proofs (vci_messages (viewChange (exLeader_proofs 3)))) (SeqNumber k)) k)
       else None)) \<and>
    (\<forall>k. gget lg k = (if to_propose (exLeader_proofs 3) 1 k
       then Some (proposed_slot example_pgp (node_entity (exLeader_proofs 3))
         (chosen (all_proofs (vci_messages (viewChange (exLeader_proofs 3)))) (SeqNumber k)) k)
       else gget (log (exLeader_proofs 3)) k))"
  by (rule new_view_proposals)
    (simp_all add: example_pgp_signs exLeader_proofs_range int64_def maxInt64_def)

section \<open>A loop that does not end\<close>

lemma newview_loop_wraps:
  assumes "pgp_signs C (node_entity n)" "int64 s"
  shows "newview_loop C view s maxInt64 sn (n, pps) = None"
proof (rule ccontr)
  assume "newview_loop C view s maxInt64 sn (n, pps) \<noteq> None"
  then obtain r where r: "newview_loop C view s maxInt64 sn (n, pps) = Some r" by blast
  have "\<not> (top = maxInt64 \<and> pgp_signs C (node_entity (fst st)) \<and> int64 s)"
    if "newview_loop C view s top sn st = Some r" for C view s top sn st r
  proof (rule newview_loop.raw_induct [where P = "\<lambda>C view s top sn st r.
        \<not> (top = maxInt64 \<and> pgp_signs C (node_entity (fst st)) \<and> int64 s)", OF _ that], rule notI)
    fix f C view s top sn st r
    assume IH: "\<And>C view s top sn st r. f C view s top sn st = Some r \<Longrightarrow>
        \<not> (top = maxInt64 \<and> pgp_signs C (node_entity (fst st)) \<and> int64 s)"
      and eq: "(if s \<le> top then (case newview_round C view s sn st of
           Inl f \<Rightarrow> Some (Inl f) | Inr st' \<Rightarrow> f C view (add64 s 1) top sn st') else Some (Inr st)) = Some r"
      and h: "top = maxInt64 \<and> pgp_signs C (node_entity (fst st)) \<and> int64 s"
    obtain n pps where st: "st = (n, pps)" by (cases st)
    from h have "s \<le> top" by (simp add: int64_def)
    with eq h obtain st' where "f C view (add64 s 1) top sn st' = Some r" "node_entity (fst st') = node_entity n"
      by (auto simp: st newview_round_signs)
    moreover have "int64 (add64 s 1)" by (simp add: add64_def int64_wrap64)
    ultimately show False using IH h by (auto simp: st)
  qed
  from this [OF r] assms show False by simp
qed

text \<open>C39: A view-change message with a proof for the largest sequence number (the numbers of the
  proofs are not checked) makes the new leader's loop run for ever: the counter wraps.\<close>

theorem new_view_diverges:
  assumes "pgp_signs C (node_entity n)" "int64 (lowest n)" "lowest n < highest n" "highest n = maxInt64"
  shows "generatePrepreparesForNewView C view n = Inl Diverges"
  using newview_loop_wraps [OF assms(1,2), where view = view and pps = "[]"] assms(3,4)
  by (simp add: generatePrepreparesForNewView_def Let_def collected)

lemma new_view_diverges_witness:
  "generatePrepreparesForNewView example_pgp 1 (exLeader_proofs maxInt64) = Inl Diverges"
  by (rule new_view_diverges) (simp_all add: example_pgp_signs exLeader_proofs_range int64_def maxInt64_def)

end
