(* ===== verification/Certificates.thy ===== *)
theory Certificates
  imports Proposals
begin

text \<open>
  What a stable checkpoint does to the log, what its proof is worth, and that the quorums of
  commits can be disjoint.
\<close>

section \<open>A checkpoint replaces the old one\<close>

text \<open>C29: A checkpoint that is not older becomes \<open>lastCheckpoint\<close>; the pending checkpoints it covers
  are dropped; of the log, only those covered slots are dropped that had a pending checkpoint
  (every other covered slot stays); a replica that is behind hands the snapshot to the key node
  and takes over the sequence number.\<close>

theorem checkpoint_flushes:
  assumes "\<not> Before (cp_Number ck) (cp_Number (lastCheckpoint n))"
  shows "\<exists>n' es. checkpointed ck n = Inr (n', es) \<and> lastCheckpoint n' = ck \<and>
    (\<forall>k. gget (pendingCheckpoints n') k =
      (if BeforeOrEqual k (cp_Number ck) then None else gget (pendingCheckpoints n) k)) \<and>
    (\<forall>k. gget (log n') k =
      (if BeforeOrEqual k (cp_Number ck) \<and> gget (pendingCheckpoints n) k \<noteq> None then None else gget (log n) k)) \<and>
    sequenceNumber n' = max (sequenceNumber n) (SeqNumber (cp_Number ck)) \<and>
    es = (if sequenceNumber n < SeqNumber (cp_Number ck) then [Snapshotted (cp_Snapshot ck)] else [])"
  by (rule checkpointed_fresh [OF assms]) blast

lemma checkpoint_flushes_witness:
  "\<exists>n' es. checkpointed (exProof [2, 3, 4]) exBackup_committed = Inr (n', es) \<and> lastCheckpoint n' = exProof [2, 3, 4] \<and>
    (\<forall>k. gget (pendingCheckpoints n') k =
      (if BeforeOrEqual k (cp_Number (exProof [2, 3, 4])) then None else gget (pendingCheckpoints exBackup_committed) k)) \<and>
    (\<forall>k. gget (log n') k =
      (if BeforeOrEqual k (cp_Number (exProof [2, 3, 4])) \<and> gget (pendingCheckpoints exBackup_committed) k \<noteq> None
       then None else gget (log exBackup_committed) k)) \<and>
    sequenceNumber n' = max (sequenceNumber exBackup_committed) (SeqNumber (cp_Number (exProof [2, 3, 4]))) \<and>
    es = (if sequenceNumber exBackup_committed < SeqNumber (cp_Number (exProof [2, 3, 4]))
      then [Snapshotted (cp_Snapshot (exProof [2, 3, 4]))] else [])"
  by (rule checkpoint_flushes)
    (simp add: exProof_def exBackup_committed_def exBackup_prepared_def exBackup_accepted_def exBackup_fields
      initCheckpoint_def Before_def)

text \<open>The votes inside a checkpoint proof that a peer sends are not looked at: any peer makes a
  replica that is behind take any snapshot as its stable checkpoint.\<close>

theorem proof_votes_unchecked:
  assumes "SignedCheckpointProof_SignatureValid C (peerEntities n) (peerEntityMap n) p = Inr (cpm_Node (scp_Message p))"
    "cp_Number (lastCheckpoint n) < cp_Number (cpm_Proof (scp_Message p))"
    "sequenceNumber n < SeqNumber (cp_Number (cpm_Proof (scp_Message p)))"
  shows "\<exists>n'. handleCheckpointProof C p n = Inr (n', [Snapshotted (cp_Snapshot (cpm_Proof (scp_Message p)))]) \<and>
    lastCheckpoint n' = cpm_Proof (scp_Message p)"
  using assms by (simp add: handleCheckpointProof_def Let_def checkpointed_def emit_def Before_less)

definition exForgedProof :: SignedCheckpointProof where
  "exForgedProof = projr (CheckpointProofMessage_Sign example_pgp (exKey 3)
     \<lparr>cpm_Proof = \<lparr>cp_Number = SlotId 0 100, cp_Snapshot = [66], cp_Proof = []\<rparr>, cpm_Node = 3\<rparr>)"

lemma proof_votes_unchecked_witness:
  "\<exists>n'. handleCheckpointProof example_pgp exForgedProof exBackup =
      Inr (n', [Snapshotted (cp_Snapshot (cpm_Proof (scp_Message exForgedProof)))]) \<and>
    lastCheckpoint n' = cpm_Proof (scp_Message exForgedProof)"
  by (rule proof_votes_unchecked)
    (use exValid [of 3] in \<open>simp_all add: exForgedProof_def exSign SignedCheckpointProof_SignatureValid_def
      exBackup_fields initCheckpoint_def less_SlotId_def Before_def\<close>)

text \<open>Votes for a slot are counted whatever snapshot they are for: the vote that completes the
  quorum makes the snapshot of the first vote stable.\<close>

theorem snapshot_of_first_vote:
  assumes "\<not> isStable n (sck_CheckpointMessage m)"
    "gget (pendingCheckpoints n) (ck_Number (sck_CheckpointMessage m)) = Some info"
    "cp_Number info = ck_Number (sck_CheckpointMessage m)"
    "2 * (length (peermap n) div 3) + 1 \<le> length (gput (ck_Node (sck_CheckpointMessage m)) m (cp_Proof info))"
  shows "\<exists>n' es. handleCheckpointNoValidation m n = Inr (n', es) \<and>
    cp_Snapshot (lastCheckpoint n') = cp_Snapshot info"
proof -
  define num where "num = ck_Number (sck_CheckpointMessage m)"
  define e1 where "e1 = info\<lparr>cp_Proof := gput (ck_Node (sck_CheckpointMessage m)) m (cp_Proof info)\<rparr>"
  define n1 where "n1 = n\<lparr>pendingCheckpoints := gput num e1 (pendingCheckpoints n)\<rparr>"
  have "isStable n1 (sck_CheckpointMessage m)"
    using assms(4) by (simp add: isStable_def proofSize_def n1_def e1_def num_def)
  then have h: "handleCheckpointNoValidation m n = checkpointed e1 n1"
    using assms(1,2) unfolding handleCheckpointNoValidation_def Let_def n1_def e1_def num_def by simp
  have "\<not> Before (cp_Number e1) (cp_Number (lastCheckpoint n1))"
    using assms(1,3) by (auto simp: isStable_def e1_def n1_def Before_less BeforeOrEqual_le)
  then obtain n' es where "checkpointed e1 n1 = Inr (n', es)" "lastCheckpoint n' = e1"
    by (elim checkpointed_fresh)
  with h show ?thesis by (simp add: e1_def)
qed

definition exOtherSnapshot :: SignedCheckpoint where
  "exOtherSnapshot = projr (Checkpoint_Sign example_pgp (exKey 4)
     \<lparr>ck_Number = SlotId 0 100, ck_Snapshot = [7], ck_Node = 4\<rparr>)"

lemma snapshot_of_first_vote_witness:
  "\<exists>n' es. handleCheckpointNoValidation exOtherSnapshot (exBackup_votes [2, 3]) = Inr (n', es) \<and>
    cp_Snapshot (lastCheckpoint n') = cp_Snapshot (exProof [2, 3])"
  by (rule snapshot_of_first_vote)
    (simp_all add: exOtherSnapshot_def exSign exBackup_votes_def exBackup_fields exProof_def isStable_def
      initCheckpoint_def BeforeOrEqual_def proofSize_def gget_def gput_def)

section \<open>Quorums\<close>

text \<open>Commit quorums have one vote less: in a cluster of four, node 1 commits a slot with the
  commits of nodes 1 and 3, and node 4 one with those of nodes 2 and 4.\<close>

theorem commit_quorums_may_be_disjoint:
  "isCommitted exBackup exSlot3 \<and>
   isCommitted exLeader (exSlot3\<lparr>s_commits := [(4, exCommit 4), (2, exCommit 2)]\<rparr>) \<and>
   {i. gget (s_commits exSlot3) i \<noteq> None} \<inter>
     {i. gget (s_commits (exSlot3\<lparr>s_commits := [(4, exCommit 4), (2, exCommit 2)]\<rparr>)) i \<noteq> None} = {}"
  by (auto simp: isCommitted_def exBackup_fields exLeader_fields exSlot3_def gget_def split: if_splits)

end
