(* ===== verification/Encoding.thy ===== *)
theory Encoding
  imports Certificates
begin

text \<open>
  Round trips: what was signed is accepted, what was written as JSON map keys is (not) read
  back, decimal keys are; which documents stand for more than one message.
\<close>

section \<open>Signatures\<close>

text \<open>C27: For each of the eight message kinds, a message that a known key signs is accepted by
  \<open>SignatureValid\<close>, as a message of the node that key belongs to.\<close>

theorem signed_is_accepted:
  assumes "pgp_accepts C" "e \<in> set ps" "gget pm (Fingerprint e) = Some i"
  shows
    "pred_sum (\<lambda>_. True) (\<lambda>s. SignedPrePrepare_SignatureValid C ps pm s = Inr i) (PrePrepare_Sign C e pp) \<and>
     pred_sum (\<lambda>_. True) (\<lambda>s. SignedPPResponse_SignatureValid C ps pm s = Inr i) (PPResponse_Sign C e r) \<and>
     pred_sum (\<lambda>_. True) (\<lambda>s. SignedPrepare_SignatureValid C ps pm s = Inr i) (Prepare_Sign C e p) \<and>
     pred_sum (\<lambda>_. True) (\<lambda>s. SignedCommit_SignatureValid C ps pm s = Inr i) (Commit_Sign C e c) \<and>
     pred_sum (\<lambda>_. True) (\<lambda>s. SignedCheckpoint_SignatureValid C ps pm s = Inr i) (Checkpoint_Sign C e k) \<and>
     pred_sum (\<lambda>_. True) (\<lambda>s. SignedCheckpointProof_SignatureValid C ps pm s = Inr i)
       (CheckpointProofMessage_Sign C e kp) \<and>
     pred_sum (\<lambda>_. True) (\<lambda>s. SignedViewChange_SignatureValid C ps pm s = Inr i) (ViewChange_Sign C e vc) \<and>
     pred_sum (\<lambda>_. True) (\<lambda>s. SignedNewView_SignatureValid C ps pm s = Inr i) (NewView_Sign C e nv)"
proof -
  have k: "\<exists>p\<in>set ps. Fingerprint p = Fingerprint e" using assms(2) by blast
  have all: "pred_sum (\<lambda>_. True) P x" if "\<And>s. x = Inr s \<Longrightarrow> P s" for P :: "'b \<Rightarrow> bool" and x :: "'a + 'b"
    using that by (cases x) auto
  show ?thesis
    by (intro conjI all; rule pre_prepare.sign_valid pp_response.sign_valid prepare.sign_valid commit.sign_valid
        checkpoint.sign_valid checkpoint_proof.sign_valid view_change.sign_valid new_view.sign_valid)
      (use assms k in auto)
qed

lemma signed_is_accepted_witness:
  "pred_sum (\<lambda>_. True) (\<lambda>s. SignedPrePrepare_SignatureValid example_pgp [exKey 2] [(Fingerprint (exKey 2), 2)] s = Inr 2)
     (PrePrepare_Sign example_pgp (exKey 2) zeroPrePrepare) \<and>
   pred_sum (\<lambda>_. True) (\<lambda>s. SignedPPResponse_SignatureValid example_pgp [exKey 2] [(Fingerprint (exKey 2), 2)] s = Inr 2)
     (PPResponse_Sign example_pgp (exKey 2) \<lparr>ppr_SeqNumber = 7\<rparr>) \<and>
   pred_sum (\<lambda>_. True) (\<lambda>s. SignedPrepare_SignatureValid example_pgp [exKey 2] [(Fingerprint (exKey 2), 2)] s = Inr 2)
     (Prepare_Sign example_pgp (exKey 2) (sp_PrepareMessage (exPrepare 2))) \<and>
   pred_sum (\<lambda>_. True) (\<lambda>s. SignedCommit_SignatureValid example_pgp [exKey 2] [(Fingerprint (exKey 2), 2)] s = Inr 2)
     (Commit_Sign example_pgp (exKey 2) (sc_CommitMessage (exCommit 2))) \<and>
   pred_sum (\<lambda>_. True) (\<lambda>s. SignedCheckpoint_SignatureValid example_pgp [exKey 2] [(Fingerprint (exKey 2), 2)] s = Inr 2)
     (Checkpoint_Sign example_pgp (exKey 2) (sck_CheckpointMessage (exCheckpoint 2))) \<and>
   pred_sum (\<lambda>_. True) (\<lambda>s. SignedCheckpointProof_SignatureValid example_pgp [exKey 2] [(Fingerprint (exKey 2), 2)] s = Inr 2)
     (CheckpointProofMessage_Sign example_pgp (exKey 2) (scp_Message exForgedProof)) \<and>
   pred_sum (\<lambda>_. True) (\<lambda>s. SignedViewChange_SignatureValid example_pgp [exKey 2] [(Fingerprint (exKey 2), 2)] s = Inr 2)
     (ViewChange_Sign example_pgp (exKey 2) (svc_Message (exViewChange 2))) \<and>
   pred_sum (\<lambda>_. True) (\<lambda>s. SignedNewView_SignatureValid example_pgp [exKey 2] [(Fingerprint (exKey 2), 2)] s = Inr 2)
     (NewView_Sign example_pgp (exKey 2) exNewView)"
  by (rule signed_is_accepted [OF example_pgp_accepts]) (simp_all add: gget_def)

text \<open>A prepare and a commit with the same fields are signed over the same document: the
  signature of a prepare is valid on the commit that its node has not sent.\<close>

theorem prepare_signature_on_commit:
  "SignedCommit_SignatureValid C ps pm
     \<lparr>sc_CommitMessage = \<lparr>c_Number = k, c_RequestDigest = d, c_Node = i\<rparr>, sc_Signature = sig\<rparr> =
   SignedPrepare_SignatureValid C ps pm
     \<lparr>sp_PrepareMessage = \<lparr>p_Number = k, p_RequestDigest = d, p_Node = i\<rparr>, sp_Signature = sig\<rparr>"
  by (simp add: SignedCommit_SignatureValid_def SignedPrepare_SignatureValid_def json_Prepare_def json_Commit_def)

subsection \<open>Only peers are believed\<close>

definition keys_known :: "peers \<Rightarrow> bool" where
  "keys_known ps \<longleftrightarrow> (\<forall>e\<in>set (ps_entities ps). \<exists>i. gget (ps_entityMap ps) (Fingerprint e) = Some i) \<and>
     (\<forall>fp i. gget (ps_entityMap ps) fp = Some i \<longrightarrow> gget (ps_map ps) i \<noteq> None)"

lemma StartNode_peers_known: "keys_known acc \<Longrightarrow> StartNode_peers E hid nodes acc = Inr ps \<Longrightarrow> keys_known ps"
proof (induction nodes arbitrary: acc)
  case (Cons p nodes)
  show ?case
  proof (cases "cfg_Id p = hid")
    case False
    with Cons.prems(2) obtain key rest where k: "ReadPgpKeyFile E (cfg_PublicKeyFile p) = Inr (key # rest)"
      by (auto simp: Let_def split: sum.splits list.splits)
    define h where "h = GetHostname (cfg_Host p) (cfg_Port p)"
    define acc' where "acc' = \<lparr>ps_map = gput (cfg_Id p) h (ps_map acc), ps_hosts = gput h (cfg_Id p) (ps_hosts acc),
       ps_entityMap = gput (Fingerprint key) (cfg_Id p) (ps_entityMap acc), ps_entities = ps_entities acc @ [key]\<rparr>"
    have "keys_known acc'" using Cons.prems(1) by (auto simp: keys_known_def acc'_def)
    moreover have "StartNode_peers E hid nodes acc' = Inr ps"
      using Cons.prems(2) False k by (simp add: Let_def acc'_def h_def)
    ultimately show ?thesis by (rule Cons.IH)
  qed (use Cons in simp)
qed simp

lemma started_keys_known:
  assumes "started n"
  shows "keys_known \<lparr>ps_map = peermap n, ps_hosts = [], ps_entityMap = peerEntityMap n, ps_entities = peerEntities n\<rparr>"
proof -
  from assms obtain E hostc clusterc ent ps where "StartNode_peers E (cfg_Id hostc) (Nodes clusterc) noPeers = Inr ps"
    and n: "n = startTimers (initNode hostc clusterc ent ps)"
    unfolding started_def StartNode_def by (force split: sum.split_asm list.split_asm if_split_asm)
  then have "keys_known ps" using StartNode_peers_known [of noPeers] by (simp add: keys_known_def noPeers_def)
  then show ?thesis by (simp add: n keys_known_def startTimers_def initNode_def)
qed

lemma signer_is_peer:
  assumes "pgp_signer_known C" "signer_id C (peerEntities n) (peerEntityMap n) doc sig = Inr i"
    "keys_known \<lparr>ps_map = peermap n, ps_hosts = [], ps_entityMap = peerEntityMap n, ps_entities = peerEntities n\<rparr>"
  shows "gget (peermap n) i \<noteq> None"
proof -
  from assms(2) obtain p where
      "CheckDetachedSignature C (peerEntities n) (json_Encode doc) sig = Inr p"
    and i: "i = (case gget (peerEntityMap n) (Fingerprint p) of None \<Rightarrow> 0 | Some i \<Rightarrow> i)"
    by (auto simp: signer_id_def split: sum.splits)
  with assms(1) have "p \<in> set (peerEntities n)" by (auto simp: pgp_signer_known_def)
  with i assms(3) show ?thesis by (fastforce simp: keys_known_def)
qed

text \<open>C28: A replica attributes a message only to a node of its peer list, whatever the message says,
  in every reachable state (an unknown key never reads as a node).\<close>

theorem only_peers_are_believed:
  assumes "pgp_signer_known C" "reachable C n" "signer_id C (peerEntities n) (peerEntityMap n) doc sig = Inr i"
  shows "i \<in> fst ` set (peermap n)"
proof -
  from assms(2) obtain n0 where s: "started n0" and r: "(node_step C)\<^sup>*\<^sup>* n0 n" unfolding reachable_def by blast
  from keeps_config [OF node_steps_keep [OF r]] have c: "peermap n = peermap n0" "peerEntities n = peerEntities n0"
    "peerEntityMap n = peerEntityMap n0" by (simp_all add: config_def)
  from started_keys_known [OF s] c signer_is_peer [OF assms(1,3)] have "gget (peermap n) i \<noteq> None" by simp
  then show ?thesis unfolding keys_gget [symmetric] by simp
qed

lemma only_peers_are_believed_witness: "3 \<in> fst ` set (peermap exBackup)"
  by (rule only_peers_are_believed [OF example_pgp_signer_known exBackup_reachable,
      where doc = JNull and sig = "Fingerprint (exKey 3) @ json_Encode JNull"])
    (use exValid [of 3] in \<open>simp add: exBackup_fields\<close>)

section \<open>The keys of JSON maps\<close>

lemma digit_of_high: "192 \<le> n \<Longrightarrow> n < 256 \<Longrightarrow> digit_of (char_of n) = None" for n :: nat
  by (simp add: digit_of_def)

lemma Atoi_non_digit: "digit_of c = None \<Longrightarrow> c \<noteq> CHR ''-'' \<Longrightarrow> c \<noteq> CHR ''+'' \<Longrightarrow> Atoi (c # cs) = None"
  by (simp add: Atoi_def Let_def)

lemma Atoi_high: "192 \<le> n \<Longrightarrow> n < 256 \<Longrightarrow> Atoi (char_of n # cs) = None" for n :: nat
proof (rule Atoi_non_digit)
  assume "192 \<le> n" "n < 256"
  then show "digit_of (char_of n) = None" by (rule digit_of_high)
  from \<open>192 \<le> n\<close> \<open>n < 256\<close> have "of_char (char_of n :: char) = n" by simp
  with \<open>192 \<le> n\<close> show "char_of n \<noteq> CHR ''-''" "char_of n \<noteq> CHR ''+''"
    by (auto dest: arg_cong [where f = "of_char :: char \<Rightarrow> nat"])
qed

lemma Atoi_single: "n < 128 \<Longrightarrow> Atoi [char_of n] = Some i \<Longrightarrow> i = int n - 48" for n :: nat
  by (auto simp: Atoi_def Let_def digit_of_def split: if_splits option.splits)

text \<open>Reading a key that was written as a rune never gives the number back.\<close>

lemma Atoi_encode_rune:
  assumes "Atoi (encode_rune k) = Some i"
  shows "i = k - 48"
proof -
  define r where "r = (if k < 0 \<or> k > 1114111 \<or> (55296 \<le> k \<and> k \<le> 57343) then 65533 else nat k)"
  have r: "r \<le> 1114111" by (auto simp: r_def)
  have e: "encode_rune k = (if r < 128 then [char_of r]
         else if r < 2048 then [char_of (192 + r div 64), char_of (128 + r mod 64)]
         else if r < 65536 then
           [char_of (224 + r div 4096), char_of (128 + r div 64 mod 64), char_of (128 + r mod 64)]
         else
           [char_of (240 + r div 262144), char_of (128 + r div 4096 mod 64),
            char_of (128 + r div 64 mod 64), char_of (128 + r mod 64)])"
    unfolding encode_rune_def Let_def r_def by (rule refl)
  have "Atoi (encode_rune k) = None" if "\<not> r < 128"
  proof -
    consider "r < 2048" | "\<not> r < 2048" "r < 65536" | "\<not> r < 2048" "\<not> r < 65536" by blast
    then show ?thesis
    proof cases
      case 1
      then have "192 + r div 64 < 256" by linarith
      with 1 that show ?thesis unfolding e by (simp add: Atoi_high)
    next
      case 2
      then have "224 + r div 4096 < 256" by linarith
      with 2 that show ?thesis unfolding e by (simp add: Atoi_high)
    next
      case 3
      with r have "240 + r div 262144 < 256" by linarith
      with 3 that show ?thesis unfolding e by (simp add: Atoi_high)
    qed
  qed
  with assms have lt: "r < 128" by fastforce
  then have "r = nat k" "0 \<le> k" by (auto simp: r_def split: if_splits)
  with Atoi_single [OF lt] assms lt show ?thesis unfolding e by simp
qed

lemma Atoi_Nil: "Atoi [] = None"
  by (simp add: Atoi_def)

lemma split_colon_no_colon: "CHR '':'' \<notin> set xs \<Longrightarrow> split_colon (xs @ CHR '':'' # ys) = xs # split_colon ys"
  by (induction xs) auto

text \<open>A node id or a slot whose keys are written as runes is not read back.\<close>

lemma unmarshal_node_key: "unmarshal_nodes [(node_key k, v)] [] \<noteq> Some [(k, v)]"
proof
  assume "unmarshal_nodes [(node_key k, v)] [] = Some [(k, v)]"
  then obtain i where i: "Atoi (encode_rune (int k)) = Some i" and k: "to_NodeId i = k"
    by (auto simp: node_key_def gput_def split: option.splits)
  from Atoi_encode_rune [OF i] have eq: "i = int k - 48" .
  have "(int k - 48) mod 18446744073709551616 = int k"
    using k by (auto simp: to_NodeId_def eq)
  then have "(int k - 48) mod 18446744073709551616 = int k mod 18446744073709551616"
    by (metis mod_mod_trivial)
  then have "(18446744073709551616 :: int) dvd (int k - 48) - int k"
    by (simp only: mod_eq_dvd_iff)
  then show False by simp
qed

lemma length_split_colon: "length (split_colon zs) = Suc (length (filter (\<lambda>c. c = CHR '':'') zs))"
  by (induction zs) (auto split: list.splits)

lemma unmarshal_slot_key: "unmarshal_slots [(slot_key k, v)] [] \<noteq> Some [(k, v)]"
proof
  assume "unmarshal_slots [(slot_key k, v)] [] = Some [(k, v)]"
  then obtain a b view where ab: "split_colon (slot_key k) = [a, b]" and view: "Atoi a = Some view"
    and k: "view = ViewNumber k"
    by (auto simp: Let_def gput_def split: list.split_asm option.split_asm)
  have "filter (\<lambda>c. c = CHR '':'') (encode_rune (ViewNumber k)) = []"
    using ab length_split_colon [of "slot_key k"] by (simp add: slot_key_def)
  then have "CHR '':'' \<notin> set (encode_rune (ViewNumber k))" by (auto simp: filter_empty_conv)
  from split_colon_no_colon [OF this, of "encode_rune (SeqNumber k)"] ab
  have "a = encode_rune (ViewNumber k)" by (simp add: slot_key_def)
  with Atoi_encode_rune [of "ViewNumber k" view] view k show False by simp
qed

lemma strMap_single: "strMap key enc [(k, v)] = [(key k, enc v)]"
  by (simp add: strMap_def gput_def)

lemmas map_codecs = CheckpointProofMap_unmarshal_def CheckpointProofMap_marshal_def
  NewViewViewChangeMap_unmarshal_def NewViewViewChangeMap_marshal_def PreparedProofMap_unmarshal_def
  PreparedProofMap_marshal_def NewViewPrePrepareMap_unmarshal_def NewViewPrePrepareMap_marshal_def strMap_single

text \<open>C40: None of the four hand-written JSON maps is read back as it was written: a map with one
  entry is never unmarshalled to the same map, whatever the key (the keys are written as
  characters, \<open>string(k)\<close>, and read as decimal numbers).\<close>

theorem json_maps_not_read_back:
  "CheckpointProofMap_unmarshal (CheckpointProofMap_marshal [(i, a)]) \<noteq> Some [(i, a)] \<and>
   NewViewViewChangeMap_unmarshal (NewViewViewChangeMap_marshal [(i, b)]) \<noteq> Some [(i, b)] \<and>
   PreparedProofMap_unmarshal (PreparedProofMap_marshal [(k, c)]) \<noteq> Some [(k, c)] \<and>
   NewViewPrePrepareMap_unmarshal (NewViewPrePrepareMap_marshal [(k, d)]) \<noteq> Some [(k, d)]"
  unfolding map_codecs by (intro conjI unmarshal_node_key unmarshal_slot_key)

lemma show_nat_no_colon: "CHR '':'' \<notin> set (show_nat n)"
proof (induction n rule: show_nat.induct)
  case (1 n)
  have "CHR '':'' \<noteq> char_of (48 + d)" if "d < 10" for d :: nat
  proof
    assume "CHR '':'' = char_of (48 + d)"
    with digit_of_char [OF that] have "digit_of (CHR '':'') = Some d" by simp
    then show False by (simp add: digit_of_def)
  qed
  with 1 show ?case by (cases "n < 10") (auto simp: show_nat.simps [of n])
qed

lemma show_int_no_colon: "CHR '':'' \<notin> set (show_int i)"
  by (simp add: show_int_def show_nat_no_colon)

lemma split_colon_single: "CHR '':'' \<notin> set xs \<Longrightarrow> split_colon xs = [xs]"
  by (induction xs) auto

text \<open>The unmarshallers do read decimal keys: a map with one entry whose key is written in
  decimal is read back.\<close>

theorem decimal_keys_are_read:
  assumes "int i \<le> maxInt64" "int64 (ViewNumber k)" "int64 (SeqNumber k)"
  shows "CheckpointProofMap_unmarshal [(show_int (int i), a)] = Some [(i, a)] \<and>
    PreparedProofMap_unmarshal [(show_int (ViewNumber k) @ '':'' @ show_int (SeqNumber k), c)] = Some [(k, c)]"
proof -
  have i: "int64 (int i)" "to_NodeId (int i) = i"
    using assms(1) by (simp_all add: int64_def maxInt64_def to_NodeId_def)
  have "split_colon (show_int (ViewNumber k) @ '':'' @ show_int (SeqNumber k)) =
      [show_int (ViewNumber k), show_int (SeqNumber k)]"
    using split_colon_no_colon [OF show_int_no_colon, of "ViewNumber k" "show_int (SeqNumber k)"]
    by (simp add: split_colon_single show_int_no_colon)
  with i assms(2,3) show ?thesis by (simp add: map_codecs Atoi_show_int gput_def)
qed

lemma decimal_keys_are_read_witness:
  "CheckpointProofMap_unmarshal [(show_int (int 3), exCheckpoint 3)] = Some [(3, exCheckpoint 3)] \<and>
    PreparedProofMap_unmarshal [(show_int (ViewNumber (SlotId 0 3)) @ '':'' @ show_int (SeqNumber (SlotId 0 3)),
      snd (hd (exProofs 3)))] = Some [(SlotId 0 3, snd (hd (exProofs 3)))]"
  by (rule decimal_keys_are_read) (simp_all add: int64_def maxInt64_def)

section \<open>Replies\<close>

text \<open>The digest of a reply does not depend on the reply: all its fields are unexported, so
  every reply has the digest of the empty document and any reply is valid with it.\<close>

theorem reply_digest_constant:
  "cr_digest (ClientReply_SetDigest a) = cr_digest (ClientReply_SetDigest b) \<and>
   snd (ClientReply_DigestValid (b\<lparr>cr_digest := cr_digest (ClientReply_SetDigest a)\<rparr>))"
  by (simp add: ClientReply_SetDigest_def ClientReply_DigestValid_def ClientReply_generateDigest_def
      json_ClientReply_def Let_def)

end
