(* ===== verification/Cluster.thy ===== *)
theory Cluster
  imports View_Zero Encoding Scenario
begin

text \<open>
  A cluster: the correct replicas run the code, any other node sends what it likes. A message
  that a replica takes for one of a correct replica was sent by it; this is asked only of
  pre-prepares and of view-change messages. The network loses, delays, repeats and reorders
  messages, since a step may handle any event.
\<close>

section \<open>State and steps\<close>

record system =
  sy_node :: "NodeId \<Rightarrow> PBFTNode"
  sy_sent :: "NodeId \<Rightarrow> rpc set"

text \<open>The numbers in a message are 64-bit integers, and signatures are not forged.\<close>

definition genuine :: "pgp \<Rightarrow> NodeId set \<Rightarrow> (NodeId \<Rightarrow> rpc set) \<Rightarrow> PBFTNode \<Rightarrow> event \<Rightarrow> bool" where
  "genuine C H sent n ev \<longleftrightarrow>
     (case ev of
        EvPrePrepare pp \<Rightarrow> \<forall>j\<in>H. SignedPrePrepare_SignatureValid C (peerEntities n) (peerEntityMap n)
            (fpp_SignedMessage pp) = Inr j \<longrightarrow> (\<exists>m\<in>sent j. fpp_SignedMessage pp \<in> signed_preprepares m)
      | EvViewChange vc \<Rightarrow> vc_ViewNumber (svc_Message vc) \<le> maxInt64 \<and>
          (\<forall>j\<in>H. SignedViewChange_SignatureValid C (peerEntities n) (peerEntityMap n) vc = Inr j \<longrightarrow>
            RpcViewChange vc \<in> sent j)
      | EvNewView nv \<Rightarrow> nv_ViewNumber (snv_Message nv) \<le> maxInt64
      | _ \<Rightarrow> True)"

text \<open>As in the theorem on sequence numbers, runs stay below the largest sequence number.\<close>

inductive sys_step :: "pgp \<Rightarrow> NodeId set \<Rightarrow> system \<Rightarrow> system \<Rightarrow> bool" for C H where
  handle: "i \<in> H \<Longrightarrow> genuine C H (sy_sent st) (sy_node st i) ev \<Longrightarrow>
     issuedSequenceNumber (sy_node st i) < maxInt64 \<Longrightarrow>
     handleMessages C ev (sy_node st i) = Inr (n', es) \<Longrightarrow>
     sys_step C H st (st\<lparr>sy_node := (sy_node st)(i := n'), sy_sent := (sy_sent st)(i := sy_sent st i \<union> sent_rpcs es)\<rparr>)"
| order: "i \<in> H \<Longrightarrow> n = sy_node st i \<Longrightarrow> gsame (log n) lg \<Longrightarrow> gsame (pendingCheckpoints n) pd \<Longrightarrow>
     gsame (vci_messages (viewChange n)) ms \<Longrightarrow>
     sys_step C H st (st\<lparr>sy_node := (sy_node st)(i := n\<lparr>log := lg, pendingCheckpoints := pd,
       viewChange := (viewChange n)\<lparr>vci_messages := ms\<rparr>\<rparr>)\<rparr>)"

inductive_cases sys_stepE: "sys_step C H st st'"

definition ids :: "ClusterConfig \<Rightarrow> NodeId set" where
  "ids cl = cfg_Id ` set (Nodes cl)"

definition cluster_started :: "NodeId set \<Rightarrow> ClusterConfig \<Rightarrow> system \<Rightarrow> bool" where
  "cluster_started H cl st \<longleftrightarrow>
     (\<forall>i\<in>H. \<exists>E hostc. cfg_Id hostc = i \<and> StartNode E hostc cl = Inr (sy_node st i)) \<and> sy_sent st = (\<lambda>_. {})"

text \<open>
  The assumptions: signatures name a key of the ring, the leader of view 0 is correct, and fewer
  nodes are not correct than the votes that a leader needs to enter a view.
\<close>

definition scene :: "pgp \<Rightarrow> NodeId set \<Rightarrow> NodeId \<Rightarrow> ClusterConfig \<Rightarrow> bool" where
  "scene C H L cl \<longleftrightarrow> pgp_signer_known C \<and> LeaderFor cl 0 = Inr L \<and> L \<in> H \<and> H \<subseteq> ids cl \<and>
     card (ids cl - H) < 2 * (card (ids cl) - 1) div 3"

section \<open>What every correct replica is\<close>

definition member_ok :: "ClusterConfig \<Rightarrow> NodeId \<Rightarrow> PBFTNode \<Rightarrow> bool" where
  "member_ok cl i n \<longleftrightarrow> node_id n = i \<and> cluster n = cl \<and> gwf (peermap n) \<and>
     {j. gget (peermap n) j \<noteq> None} = ids cl - {i} \<and>
     keys_known \<lparr>ps_map = peermap n, ps_hosts = [], ps_entityMap = peerEntityMap n, ps_entities = peerEntities n\<rparr>"

lemma member_ok_config: "config n' = config n \<Longrightarrow> member_ok cl i n' = member_ok cl i n"
  by (simp add: config_def member_ok_def)

lemma StartNode_peers_map:
  "StartNode_peers E hid nodes acc = Inr ps \<Longrightarrow> gwf (ps_map acc) \<Longrightarrow>
    gwf (ps_map ps) \<and> {j. gget (ps_map ps) j \<noteq> None} = {j. gget (ps_map acc) j \<noteq> None} \<union> (cfg_Id ` set nodes - {hid})"
proof (induction nodes arbitrary: acc)
  case (Cons p nodes)
  show ?case
  proof (cases "cfg_Id p = hid")
    case False
    with Cons.prems(1) obtain key rest where k: "ReadPgpKeyFile E (cfg_PublicKeyFile p) = Inr (key # rest)"
      by (auto simp: Let_def split: sum.splits list.splits)
    define h where "h = GetHostname (cfg_Host p) (cfg_Port p)"
    define acc' where "acc' = \<lparr>ps_map = gput (cfg_Id p) h (ps_map acc), ps_hosts = gput h (cfg_Id p) (ps_hosts acc),
       ps_entityMap = gput (Fingerprint key) (cfg_Id p) (ps_entityMap acc), ps_entities = ps_entities acc @ [key]\<rparr>"
    have "StartNode_peers E hid nodes acc' = Inr ps"
      using Cons.prems(1) False k by (simp add: Let_def acc'_def h_def)
    from Cons.IH [OF this] Cons.prems(2) False show ?thesis by (auto simp: acc'_def)
  qed (use Cons in auto)
qed simp

lemma started_member:
  assumes "StartNode E hostc cl = Inr n"
  shows "member_ok cl (cfg_Id hostc) n \<and> good n \<and> issuedSequenceNumber n = 1 \<and>
    vci_messages (viewChange n) = [] \<and> held n = (\<lambda>k. (None, None))"
proof -
  from assms obtain ent ps where ps: "StartNode_peers E (cfg_Id hostc) (Nodes cl) noPeers = Inr ps"
    and n: "n = startTimers (initNode hostc cl ent ps)"
    unfolding StartNode_def by (force split: sum.split_asm list.split_asm if_split_asm)
  have s: "newView (startTimers m) = newView m" "viewChange (startTimers m) = viewChange m"
    "issuedSequenceNumber (startTimers m) = issuedSequenceNumber m" "peermap (startTimers m) = peermap m"
    "cluster (startTimers m) = cluster m" "node_id (startTimers m) = node_id m" for m
    by (simp_all add: startTimers_def)
  have "started n" using assms unfolding started_def by blast
  from started_keys_known [OF this] StartNode_peers_map [OF ps] have "member_ok cl (cfg_Id hostc) n"
    by (auto simp: member_ok_def n s initNode_def noPeers_def ids_def)
  moreover have "held n = (\<lambda>k. (None, None))"
    by (simp add: fun_eq_iff held_def slotAt_def n initNode_def emptySlot_def)
  ultimately show ?thesis by (simp add: good_def n s initNode_def maxInt64_def)
qed

section \<open>The invariant\<close>

text \<open>What the leader of view 0 has proposed.\<close>

abbreviation proposed0 :: "NodeId \<Rightarrow> system \<Rightarrow> SignedPrePrepare set" where
  "proposed0 L st \<equiv> proposals0 (sy_sent st L)"

abbreviation number_of :: "SignedPrePrepare \<Rightarrow> SlotId" where
  "number_of spp \<equiv> pp_Number (spp_PrePrepareMessage spp)"

abbreviation digest_of :: "SignedPrePrepare \<Rightarrow> byte list" where
  "digest_of spp \<equiv> pp_RequestDigest (spp_PrePrepareMessage spp)"

definition replica_ok :: "pgp \<Rightarrow> NodeId set \<Rightarrow> ClusterConfig \<Rightarrow> NodeId \<Rightarrow> PBFTNode \<Rightarrow> bool" where
  "replica_ok C H cl i n \<longleftrightarrow> member_ok cl i n \<and> node_ok C n \<and> good n \<and> 1 \<le> issuedSequenceNumber n \<and>
     (\<forall>j\<in>H. \<forall>m. gget (vci_messages (viewChange n)) j = Some m \<longrightarrow> 1 \<le> vc_ViewNumber (svc_Message m))"

text \<open>The requests a replica holds in view 0 are proposed by the leader.\<close>

definition backed :: "SignedPrePrepare set \<Rightarrow> PBFTNode \<Rightarrow> bool" where
  "backed P n \<longleftrightarrow> (\<forall>s r. fst (held n (SlotId 0 s)) = Some r \<longrightarrow>
     (\<exists>spp\<in>P. number_of spp = SlotId 0 s \<and> digest_of spp = GenerateDigest r))"

definition single :: "SignedPrePrepare set \<Rightarrow> bool" where
  "single P \<longleftrightarrow> (\<forall>a\<in>P. \<forall>b\<in>P. number_of a = number_of b \<longrightarrow> digest_of a = digest_of b)"

definition leader_ok :: "SignedPrePrepare set \<Rightarrow> PBFTNode \<Rightarrow> bool" where
  "leader_ok P n \<longleftrightarrow> (\<forall>spp\<in>P. SeqNumber (number_of spp) \<le> issuedSequenceNumber n) \<and>
     (\<forall>s spp. snd (held n (SlotId 0 s)) = Some spp \<longrightarrow> spp \<in> P)"

definition sys_ok :: "pgp \<Rightarrow> NodeId set \<Rightarrow> NodeId \<Rightarrow> ClusterConfig \<Rightarrow> system \<Rightarrow> bool" where
  "sys_ok C H L cl st \<longleftrightarrow>
     (\<forall>i\<in>H. replica_ok C H cl i (sy_node st i) \<and> backed (proposed0 L st) (sy_node st i) \<and>
        (\<forall>m. RpcViewChange m \<in> sy_sent st i \<longrightarrow> 1 \<le> vc_ViewNumber (svc_Message m))) \<and>
     single (proposed0 L st) \<and> leader_ok (proposed0 L st) (sy_node st L)"

lemma sys_ok_start:
  assumes "cluster_started H cl st" "L \<in> H"
  shows "sys_ok C H L cl st"
proof -
  have i: "replica_ok C H cl i (sy_node st i) \<and> backed {} (sy_node st i)" if "i \<in> H" for i
  proof -
    from assms(1) that obtain E hostc where h: "cfg_Id hostc = i" "StartNode E hostc cl = Inr (sy_node st i)"
      unfolding cluster_started_def by blast
    then have "started (sy_node st i)" unfolding started_def by blast
    with started_member [OF h(2)] h(1) show ?thesis by (simp add: replica_ok_def backed_def started_ok)
  qed
  moreover have "leader_ok {} (sy_node st L)"
  proof -
    from assms obtain E hostc where "StartNode E hostc cl = Inr (sy_node st L)" unfolding cluster_started_def by blast
    from started_member [OF this] show ?thesis by (simp add: leader_ok_def)
  qed
  ultimately show ?thesis using assms(1) by (simp add: sys_ok_def single_def cluster_started_def)
qed

text \<open>Votes of a quorum include one of a correct replica, which never asks for view 0.\<close>

lemma quorum_view:
  assumes "scene C H L cl" "i \<in> H" "member_ok cl i n" "votes_ok (viewchange_ok C n) msgs"
    "2 * length (peermap n) div 3 \<le> countVotes v msgs"
    "\<forall>j\<in>H. \<forall>m. gget msgs j = Some m \<longrightarrow> 1 \<le> vc_ViewNumber (svc_Message m)"
  shows "1 \<le> v"
proof (rule ccontr)
  assume v: "\<not> 1 \<le> v"
  have fin: "finite (ids cl)" by (simp add: ids_def)
  have i: "i \<in> ids cl" using assms(1,2) by (auto simp: scene_def)
  have "length (peermap n) = card (ids cl - {i})"
    using gm.size_card [of "peermap n"] assms(3) by (simp add: member_ok_def)
  then have len: "length (peermap n) = card (ids cl) - 1" using fin i by simp
  have "{j. \<exists>m. gget msgs j = Some m \<and> vc_ViewNumber (svc_Message m) = v} \<subseteq> ids cl - H"
  proof
    fix j assume "j \<in> {j. \<exists>m. gget msgs j = Some m \<and> vc_ViewNumber (svc_Message m) = v}"
    then obtain m where m: "gget msgs j = Some m" "vc_ViewNumber (svc_Message m) = v" by blast
    with assms(4) have "SignedViewChange_SignatureValid C (peerEntities n) (peerEntityMap n) m = Inr j"
      by (simp add: votes_ok_def viewchange_ok_def)
    then have "signer_id C (peerEntities n) (peerEntityMap n) (json_ViewChange (svc_Message m)) (svc_Signature m) = Inr j"
      by (simp add: view_change.valid_signer)
    from signer_is_peer [OF _ this] assms(1,3) have "gget (peermap n) j \<noteq> None"
      by (simp add: scene_def member_ok_def)
    with assms(3) have "j \<in> ids cl" by (auto simp: member_ok_def)
    moreover have "j \<notin> H" using m assms(6) v by auto
    ultimately show "j \<in> ids cl - H" by simp
  qed
  then have "card {j. \<exists>m. gget msgs j = Some m \<and> vc_ViewNumber (svc_Message m) = v} \<le> card (ids cl - H)"
    using fin by (intro card_mono) auto
  moreover have "countVotes v msgs = card {j. \<exists>m. gget msgs j = Some m \<and> vc_ViewNumber (svc_Message m) = v}"
    unfolding countVotes_def using assms(4) by (intro length_filter_voters) (simp add: votes_ok_gwf)
  ultimately show False using assms(1,5) len by (simp add: scene_def)
qed

lemma handleMessages_advances:
  assumes "handleMessages C ev n = Inr (n', es)" "1 \<le> issuedSequenceNumber n" "issuedSequenceNumber n < maxInt64"
  shows "issuedSequenceNumber n \<le> issuedSequenceNumber n'"
proof -
  have i: "int64 (issuedSequenceNumber n)" using assms(2,3) by (simp add: int64_def)
  have "n' = n \<or> handleEvent C ev n = Inr (n', es)"
    using assms(1) by (auto simp: handleMessages_def ret_def split: sum.splits if_splits)
  then show ?thesis using holdsD [OF handleEvent_advances [OF i assms(3)]] by (auto simp: advances_def)
qed

text \<open>The message a view-change event files is genuine too.\<close>

lemma with_message_ok:
  assumes "replica_ok C H cl i n" "SignedViewChange_SignatureValid C (peerEntities n) (peerEntityMap n) m = Inr (vc_Node (svc_Message m))"
    "vc_Node (svc_Message m) \<in> H \<Longrightarrow> 1 \<le> vc_ViewNumber (svc_Message m)"
  shows "votes_ok (viewchange_ok C n) (vci_messages (viewChange (with_message m n)))"
    "\<forall>j\<in>H. \<forall>m'. gget (vci_messages (viewChange (with_message m n))) j = Some m' \<longrightarrow> 1 \<le> vc_ViewNumber (svc_Message m')"
  using assms by (auto simp: replica_ok_def node_ok_def messages_ok_def with_message_def viewchange_ok_def)

section \<open>Every step keeps it\<close>

text \<open>
  What a run of a correct replica does to the invariant, in the terms of \<open>handleMessages_result\<close>;
  \<open>P\<close> and \<open>P'\<close> are the proposals before and after it.
\<close>

lemma replica_ok_next:
  assumes "replica_ok C H cl i n" "handleMessages C ev n = Inr (n', es)" "issuedSequenceNumber n < maxInt64" "good n'"
    "\<forall>j\<in>H. \<forall>m. gget (vci_messages (viewChange n')) j = Some m \<longrightarrow> 1 \<le> vc_ViewNumber (svc_Message m)"
  shows "replica_ok C H cl i n'"
proof -
  have k: "keeps C n n'" using holdsD [OF handleMessages_keeps assms(2)] .
  from handleMessages_advances [OF assms(2) _ assms(3)] assms(1) have "1 \<le> issuedSequenceNumber n'"
    by (simp add: replica_ok_def)
  with assms keeps_node_ok [OF k] member_ok_config [OF keeps_config [OF k]] show ?thesis
    by (simp add: replica_ok_def)
qed

lemma tame_backed: "tame n n' es \<Longrightarrow> backed P n \<Longrightarrow> backed P n'"
  unfolding tame_def backed_def by (metis (no_types, lifting) fst_conv insert_iff option.distinct(1) singletonD)

lemma tame_leader:
  assumes "tame n n' es" "leader_ok P n" "issuedSequenceNumber n \<le> issuedSequenceNumber n'"
  shows "leader_ok P n' \<and> proposals0 (sent_rpcs es) \<subseteq> P"
proof -
  have "snd (held n (SlotId 0 s)) = Some spp" if "snd (held n' (SlotId 0 s)) = Some spp" for s spp
  proof -
    from assms(1) have "held n' (SlotId 0 s) \<in> {held n (SlotId 0 s), (None, None)}" by (simp add: tame_def)
    with that show ?thesis by auto
  qed
  then have "\<forall>s spp. snd (held n' (SlotId 0 s)) = Some spp \<longrightarrow> spp \<in> P" using assms(2) unfolding leader_ok_def by blast
  moreover have "\<forall>spp\<in>P. SeqNumber (number_of spp) \<le> issuedSequenceNumber n'"
    using assms(2,3) unfolding leader_ok_def by fastforce
  moreover have "proposals0 (sent_rpcs es) \<subseteq> P"
    using assms(1,2) unfolding leader_ok_def tame_def by blast
  ultimately show ?thesis unfolding leader_ok_def by blast
qed

text \<open>The four ways of \<open>handleMessages_result\<close>, each with what it leaves of the invariant.\<close>

lemma replica_run:
  assumes sc: "scene C H L cl" and i: "i \<in> H" and ok: "replica_ok C H cl i n"
    and asked: "\<forall>j\<in>H. \<forall>m. RpcViewChange m \<in> sent j \<longrightarrow> 1 \<le> vc_ViewNumber (svc_Message m)"
    and gen: "genuine C H sent n ev" and bound: "issuedSequenceNumber n < maxInt64"
    and run: "handleMessages C ev n = Inr (n', es)"
  obtains (tame) n0 where "held n0 = held n" "issuedSequenceNumber n0 = issuedSequenceNumber n" "tame n0 n' es"
      "replica_ok C H cl i n'"
  | (issues) req where "issues0 n req n' es" "replica_ok C H cl i n'"
  | (accepts) pp where "ev = EvPrePrepare pp" "accepts0 C n pp n' es" "replica_ok C H cl i n'"
proof -
  have g: "good n" and mem: "member_ok cl i n" and nok: "node_ok C n"
    and old: "\<forall>j\<in>H. \<forall>m. gget (vci_messages (viewChange n)) j = Some m \<longrightarrow> 1 \<le> vc_ViewNumber (svc_Message m)"
    using ok by (auto simp: replica_ok_def)
  have hon: "1 \<le> vc_ViewNumber (svc_Message m)"
    if "ev = EvViewChange m" "SignedViewChange_SignatureValid C (peerEntities n) (peerEntityMap n) m = Inr (vc_Node (svc_Message m))"
      "vc_Node (svc_Message m) \<in> H" for m
    using that gen asked by (auto simp: genuine_def)
  have v: "1 \<le> vc_ViewNumber (svc_Message m)"
    if m: "ev = EvViewChange m" "SignedViewChange_SignatureValid C (peerEntities n) (peerEntityMap n) m = Inr (vc_Node (svc_Message m))"
      "2 * length (peermap n) div 3 \<le> countVotes (vc_ViewNumber (svc_Message m)) (vci_messages (viewChange (with_message m n)))" for m
    using with_message_ok [OF ok m(2) hon [OF m(1,2)]] m(3) by (intro quorum_view [OF sc i mem]) auto
  have next_ok: "replica_ok C H cl i n'" if "good n'" "vci_messages (viewChange n') = vci_messages (viewChange n)"
    using replica_ok_next [OF ok run bound that(1)] that(2) old by simp
  show ?thesis
  proof (rule handleMessages_result [OF run g])
    show "nv_ViewNumber (snv_Message m) \<le> maxInt64" if "ev = EvNewView m" for m using that gen by (simp add: genuine_def)
    show "vc_ViewNumber (svc_Message m) \<le> maxInt64" if "ev = EvViewChange m" for m using that gen by (simp add: genuine_def)
  next
    assume t: "tame n n' es"
    then show thesis using that(1) [of n] next_ok by (simp add: tame_def)
  next
    fix m assume m: "ev = EvViewChange m"
      "SignedViewChange_SignatureValid C (peerEntities n) (peerEntityMap n) m = Inr (vc_Node (svc_Message m))"
      and t: "tame (with_message m n) n' es"
    from t have "good n'" "vci_messages (viewChange n') = vci_messages (viewChange (with_message m n))" by (auto simp: tame_def)
    with replica_ok_next [OF ok run bound] with_message_ok(2) [OF ok m(2) hon [OF m]] have "replica_ok C H cl i n'" by simp
    then show thesis
      using that(1) [of "with_message m n"] t by (simp add: good_with_message with_message_def)
  next
    fix req assume "issues0 n req n' es"
    then show thesis using that(2) next_ok by (auto simp: issues0_def)
  next
    fix pp assume "ev = EvPrePrepare pp" "accepts0 C n pp n' es"
    then show thesis using that(3) next_ok by (auto simp: accepts0_def Let_def)
  qed (use v in blast)
qed

lemma backed_put:
  assumes "backed P n" "held n' k = (Some r, Some spp)" "\<And>k'. k' \<noteq> k \<Longrightarrow> held n' k' = held n k'"
    "spp \<in> P'" "P \<subseteq> P'" "number_of spp = k" "digest_of spp = GenerateDigest r"
  shows "backed P' n'"
  unfolding backed_def
proof (intro allI impI)
  fix s q assume q: "fst (held n' (SlotId 0 s)) = Some q"
  show "\<exists>a\<in>P'. number_of a = SlotId 0 s \<and> digest_of a = GenerateDigest q"
  proof (cases "SlotId 0 s = k")
    case True
    with q assms(2) have "q = r" by simp
    with assms(4,6,7) True show ?thesis by (intro bexI [of _ spp]) simp_all
  next
    case False
    with q assms(3) have "fst (held n (SlotId 0 s)) = Some q" by simp
    with assms(1,5) show ?thesis unfolding backed_def by blast
  qed
qed

lemma single_insert: "single P \<Longrightarrow> (\<forall>a\<in>P. number_of a \<noteq> number_of spp) \<Longrightarrow> single (insert spp P)"
  unfolding single_def by (metis insert_iff)

lemma leader_issues:
  assumes "leader_ok P n" "held n' k = (Some r, Some spp)" "\<And>k'. k' \<noteq> k \<Longrightarrow> held n' k' = held n k'"
    "SeqNumber (number_of spp) \<le> issuedSequenceNumber n'" "issuedSequenceNumber n \<le> issuedSequenceNumber n'"
  shows "leader_ok (insert spp P) n'"
proof -
  have "SeqNumber (number_of a) \<le> issuedSequenceNumber n'" if "a \<in> P" for a
  proof -
    from assms(1) that have "SeqNumber (number_of a) \<le> issuedSequenceNumber n" by (simp add: leader_ok_def)
    with assms(5) show ?thesis by simp
  qed
  moreover have "a = spp \<or> a \<in> P" if h: "snd (held n' (SlotId 0 s)) = Some a" for a s
  proof (cases "SlotId 0 s = k")
    case True
    with h assms(2) show ?thesis by simp
  next
    case False
    with h assms(3) have "snd (held n (SlotId 0 s)) = Some a" by simp
    with assms(1) show ?thesis unfolding leader_ok_def by blast
  qed
  ultimately show ?thesis using assms(4) by (simp add: leader_ok_def)
qed

lemma backed_mono: "backed P n \<Longrightarrow> P \<subseteq> P' \<Longrightarrow> backed P' n"
  unfolding backed_def by blast

text \<open>The new state after a run of replica \<open>i\<close> and the proposals in it.\<close>

definition after_run :: "NodeId \<Rightarrow> PBFTNode \<Rightarrow> effect list \<Rightarrow> system \<Rightarrow> system" where
  "after_run i n' es st = st\<lparr>sy_node := (sy_node st)(i := n'), sy_sent := (sy_sent st)(i := sy_sent st i \<union> sent_rpcs es)\<rparr>"

lemma proposed0_after_run:
  "proposed0 L (after_run i n' es st) = (if i = L then proposed0 L st \<union> proposals0 (sent_rpcs es) else proposed0 L st)"
  by (simp add: after_run_def)

lemma sys_ok_after_run:
  assumes "sys_ok C H L cl st" "i \<in> H" "replica_ok C H cl i n'"
    and "\<forall>m. RpcViewChange m \<in> sent_rpcs es \<longrightarrow> 1 \<le> vc_ViewNumber (svc_Message m)"
    and "backed (proposed0 L (after_run i n' es st)) n'"
    and "i = L \<Longrightarrow> single (proposed0 L (after_run i n' es st)) \<and> leader_ok (proposed0 L (after_run i n' es st)) n'"
  shows "sys_ok C H L cl (after_run i n' es st)"
proof -
  let ?st = "after_run i n' es st"
  have "proposed0 L st \<subseteq> proposed0 L ?st" by (simp add: proposed0_after_run)
  then have "backed (proposed0 L ?st) (sy_node st j)" if "j \<in> H" for j
    using assms(1) that backed_mono unfolding sys_ok_def by blast
  then have "replica_ok C H cl j (sy_node ?st j) \<and> backed (proposed0 L ?st) (sy_node ?st j) \<and>
      (\<forall>m. RpcViewChange m \<in> sy_sent ?st j \<longrightarrow> 1 \<le> vc_ViewNumber (svc_Message m))" if "j \<in> H" for j
    using assms(1,3-5) that by (cases "j = i") (auto simp: sys_ok_def after_run_def)
  moreover have "single (proposed0 L ?st) \<and> leader_ok (proposed0 L ?st) (sy_node ?st L)"
  proof (cases "i = L")
    case True
    then show ?thesis using assms(6) by (simp add: after_run_def)
  next
    case False
    then have "proposed0 L ?st = proposed0 L st" "sy_node ?st L = sy_node st L"
      by (simp_all add: proposed0_after_run after_run_def)
    with assms(1) show ?thesis by (simp add: sys_ok_def)
  qed
  ultimately show ?thesis by (simp add: sys_ok_def)
qed

lemma handle_keeps:
  assumes sc: "scene C H L cl" and ok: "sys_ok C H L cl st" and i: "i \<in> H"
    and gen: "genuine C H (sy_sent st) (sy_node st i) ev" and bound: "issuedSequenceNumber (sy_node st i) < maxInt64"
    and run: "handleMessages C ev (sy_node st i) = Inr (n', es)"
  shows "sys_ok C H L cl (after_run i n' es st)"
proof -
  define n where "n = sy_node st i"
  define P where "P = proposed0 L st"
  let ?P' = "proposed0 L (after_run i n' es st)"
  have rep: "replica_ok C H cl i n" and bk: "backed P n"
    and asked: "\<forall>j\<in>H. \<forall>m. RpcViewChange m \<in> sy_sent st j \<longrightarrow> 1 \<le> vc_ViewNumber (svc_Message m)"
    and sg: "single P" and ld: "leader_ok P (sy_node st L)"
    using ok i by (auto simp: sys_ok_def n_def P_def)
  have mem: "node_id n = i" "cluster n = cl" "{j. gget (peermap n) j \<noteq> None} = ids cl - {i}" and pos: "1 \<le> issuedSequenceNumber n"
    using rep by (auto simp: replica_ok_def member_ok_def)
  have lead: "LeaderFor cl 0 = Inr L" using sc by (simp add: scene_def)
  have up: "issuedSequenceNumber n \<le> issuedSequenceNumber n'"
    using handleMessages_advances [OF run] bound pos by (simp add: n_def)
  have P': "?P' = (if i = L then P \<union> proposals0 (sent_rpcs es) else P)" by (simp add: proposed0_after_run P_def)
  note done' = sys_ok_after_run [OF ok i]
  show ?thesis
  proof (rule replica_run [OF sc i rep asked gen [folded n_def] bound [folded n_def] run [folded n_def]])
    fix n0 assume n0: "held n0 = held n" "issuedSequenceNumber n0 = issuedSequenceNumber n"
      and t: "tame n0 n' es" and r: "replica_ok C H cl i n'"
    have "leader_ok P n' \<and> proposals0 (sent_rpcs es) \<subseteq> P" if "i = L"
    proof -
      have "leader_ok P n" using ld that by (simp add: n_def)
      then have "leader_ok P n0" by (simp only: leader_ok_def n0)
      with tame_leader [OF t] up n0(2) show ?thesis by simp
    qed
    moreover have "backed P n'"
    proof (rule tame_backed [OF t])
      show "backed P n0" using bk by (simp only: backed_def n0)
    qed
    moreover from calculation have Q: "?P' = P" by (auto simp: P' Un_absorb2)
    moreover have "\<forall>m. RpcViewChange m \<in> sent_rpcs es \<longrightarrow> 1 \<le> vc_ViewNumber (svc_Message m)"
      using t by (simp add: tame_def)
    ultimately show ?thesis using sg by (intro done' [OF r]) (simp_all only: Q)
  next
    fix req assume is0: "issues0 n req n' es" and r: "replica_ok C H cl i n'"
    from is0 obtain spp k where k: "k = SlotId 0 (add64 (issuedSequenceNumber n) 1)" "number_of spp = k"
        "digest_of spp = GenerateDigest req" "es = [Broadcast (RpcPrePrepare \<lparr>fpp_SignedMessage = spp, fpp_Request = req\<rparr>)]"
        "issuedSequenceNumber n' = SeqNumber k" "held n' k = (Some req, Some spp)" "\<And>k'. k' \<noteq> k \<Longrightarrow> held n' k' = held n k'"
      unfolding issues0_def by blast
    have "led n 0" using is0 by (auto simp: issues0_def isPrimary_led)
    then have iL: "i = L" using mem(1,2) lead by simp
    have s: "add64 (issuedSequenceNumber n) 1 = issuedSequenceNumber n + 1"
      using pos bound by (intro add64_succ) (auto simp: int64_def n_def)
    have ne: "spp_PrePrepareMessage spp \<noteq> zeroPrePrepare"
      using k(1,2) s pos by (auto simp: zeroPrePrepare_def)
    have "proposals0 (sent_rpcs es) = {spp}" using k(1,2) ne by (auto simp: k(4) proposals0_def)
    then have Q: "?P' = insert spp P" unfolding P' using iL by simp
    have low: "SeqNumber (number_of a) \<le> issuedSequenceNumber n" if "a \<in> P" for a
      using ld that iL by (simp add: leader_ok_def n_def)
    have fresh: "number_of a \<noteq> k" if "a \<in> P" for a using low [OF that] s k(1) by auto
    have "single ?P'" unfolding Q using fresh k(2) by (intro single_insert [OF sg]) simp
    moreover have "leader_ok ?P' n'"
    proof -
      have "leader_ok P n" using ld iL by (simp add: n_def)
      then show ?thesis unfolding Q using k(1,2,5) s by (intro leader_issues [OF _ k(6,7)]) simp_all
    qed
    moreover have "backed ?P' n'" by (rule backed_put [OF bk k(6,7)]) (use k(2,3) in \<open>auto simp: Q\<close>)
    ultimately show ?thesis by (intro done' [OF r]) (auto simp: k(4))
  next
    fix pp assume ev: "ev = EvPrePrepare pp" and acc: "accepts0 C n pp n' es" and r: "replica_ok C H cl i n'"
    define spp where "spp = fpp_SignedMessage pp"
    from acc have a: "viewNumber n = 0" "\<not> isPrimary n" "mute es" "ViewNumber (number_of spp) = 0"
        "spp_PrePrepareMessage spp \<noteq> zeroPrePrepare" "digest_of spp = GenerateDigest (fpp_Request pp)"
        "SignedPrePrepare_SignatureValid C (peerEntities n) (peerEntityMap n) spp = Inr (fst (getPrimary n))"
        "held n' (number_of spp) = (Some (fpp_Request pp), Some spp)" "\<And>k'. k' \<noteq> number_of spp \<Longrightarrow> held n' k' = held n k'"
      by (auto simp: accepts0_def Let_def spp_def)
    have ne: "i \<noteq> L" using a(1,2) mem lead by (auto simp: isPrimary_led)
    have "L \<in> ids cl" using sc by (auto simp: scene_def)
    with mem(3) ne have "gget (peermap n) L \<noteq> None" by blast
    then have "fst (getPrimary n) = L" using a(1) mem(2) lead by (auto simp: getPrimary_def)
    with a(7) gen ev sc obtain m where "m \<in> sy_sent st L" "spp \<in> signed_preprepares m"
      by (auto simp: genuine_def n_def spp_def scene_def)
    then have mP: "spp \<in> P" using a(4,5) by (auto simp: P_def proposals0_def)
    have "backed P n'" by (rule backed_put [OF bk a(8,9)]) (use a(6) mP in auto)
    then show ?thesis using a(3) ne by (intro done' [OF r]) (auto simp: P' mute_def)
  qed
qed

lemma order_keeps:
  assumes ok: "sys_ok C H L cl st" and i: "i \<in> H" and n: "n = sy_node st i"
    and same: "gsame (log n) lg" "gsame (pendingCheckpoints n) pd" "gsame (vci_messages (viewChange n)) ms"
  shows "sys_ok C H L cl (st\<lparr>sy_node := (sy_node st)(i := n\<lparr>log := lg, pendingCheckpoints := pd,
       viewChange := (viewChange n)\<lparr>vci_messages := ms\<rparr>\<rparr>)\<rparr>)" (is "sys_ok C H L cl (st\<lparr>sy_node := (sy_node st)(i := ?n)\<rparr>)")
proof -
  have rep: "replica_ok C H cl i n" and bk: "backed (proposed0 L st) n" and ld: "leader_ok (proposed0 L st) (sy_node st L)"
    using ok i n by (simp_all add: sys_ok_def)
  then have wf: "gwf (log n)" "gwf (vci_messages (viewChange n))"
    by (auto simp: replica_ok_def node_ok_def log_ok_def messages_ok_def intro: votes_ok_gwf)
  have "gget lg = gget (log n)" using same(1) wf(1) by (auto simp: gsame_gget)
  then have held: "held (n\<lparr>log := lg\<rparr>) = held n" by (simp add: fun_eq_iff held_def slotAt_def)
  have k: "keeps C n ?n" using same by (rule reorder_keeps)
  have "good ?n" using rep by (simp add: good_def held replica_ok_def)
  moreover have "gget ms = gget (vci_messages (viewChange n))" using same(3) wf(2) by (auto simp: gsame_gget)
  ultimately have r: "replica_ok C H cl i ?n"
    using rep keeps_node_ok [OF k] member_ok_config [OF keeps_config [OF k]] by (simp add: replica_ok_def)
  have "backed P ?n = backed P n" "leader_ok P ?n = leader_ok P n" for P
    by (simp_all add: backed_def leader_ok_def held)
  with ok bk ld r n show ?thesis unfolding sys_ok_def by auto
qed

lemma sys_step_keeps:
  assumes "sys_step C H st st'" "scene C H L cl" "sys_ok C H L cl st"
  shows "sys_ok C H L cl st'"
  using assms(1)
proof (rule sys_stepE)
  fix i ev n' es
  assume "st' = st\<lparr>sy_node := (sy_node st)(i := n'), sy_sent := (sy_sent st)(i := sy_sent st i \<union> sent_rpcs es)\<rparr>"
    "i \<in> H" "genuine C H (sy_sent st) (sy_node st i) ev" "issuedSequenceNumber (sy_node st i) < maxInt64"
    "handleMessages C ev (sy_node st i) = Inr (n', es)"
  with handle_keeps [OF assms(2,3)] show ?thesis by (simp add: after_run_def)
qed (use order_keeps [OF assms(3)] in blast)

interpretation cluster: step_invariant "\<lambda>st. scene C H L cl \<and> cluster_started H cl st"
  "\<lambda>st st'. scene C H L cl \<and> sys_step C H st st'" "sys_ok C H L cl" for C H L cl
  by unfold_locales (auto intro: sys_ok_start sys_step_keeps simp: scene_def)

lemma reachable_sys_ok:
  assumes "scene C H L cl" "cluster_started H cl st" "(sys_step C H)\<^sup>*\<^sup>* st st'"
  shows "sys_ok C H L cl st'"
  using cluster.reachable [of C H L cl st st'] assms by simp

section \<open>Agreement\<close>

lemma sent_grows: "(sys_step C H)\<^sup>*\<^sup>* st st' \<Longrightarrow> sy_sent st i \<subseteq> sy_sent st' i"
  by (induction rule: rtranclp_induct) (auto elim!: sys_stepE split: if_splits)

lemma proposals0_mono: "A \<subseteq> B \<Longrightarrow> proposals0 A \<subseteq> proposals0 B"
  by (auto simp: proposals0_def)

text \<open>What a replica of the cluster hands over for a slot of view 0 is proposed by the leader.\<close>

lemma delivered_proposed:
  assumes "sys_ok C H L cl st" "i \<in> H" "handleMessages C (EvCommit c) (sy_node st i) = Inr (n', es)"
    "Committed (Some r) \<in> set es" "c_Number (sc_CommitMessage c) = SlotId 0 s"
  shows "\<exists>spp\<in>proposed0 L st. number_of spp = SlotId 0 s \<and> digest_of spp = GenerateDigest r"
proof -
  have "handleCommit C c (sy_node st i) = Inr (n', es)"
    using assms(3,4) by (auto simp: handleMessages_def ret_def split: sum.splits)
  from handleCommit_delivery [OF this assms(4)] assms(5) have "fst (held (sy_node st i) (SlotId 0 s)) = Some r" by (simp add: held_def)
  with assms(1,2) show ?thesis by (simp add: sys_ok_def backed_def)
qed

text \<open>C1: Agreement in view 0: what two correct replicas hand over for the same slot of view 0 has one
  digest, and the leader of view 0 proposed it for this slot; provided that this leader is
  correct and fewer nodes are faulty than the votes with which a view is entered. The network
  may lose, delay, repeat and reorder messages, and faulty nodes may send anything but
  forged pre-prepares and view changes.\<close>

theorem agreement_in_view_0:
  assumes "scene C H L cl" "cluster_started H cl st0" "(sys_step C H)\<^sup>*\<^sup>* st0 st1" "(sys_step C H)\<^sup>*\<^sup>* st1 st2"
    and "i \<in> H" "handleMessages C (EvCommit c1) (sy_node st1 i) = Inr (n1, es1)" "Committed (Some r1) \<in> set es1"
    and "j \<in> H" "handleMessages C (EvCommit c2) (sy_node st2 j) = Inr (n2, es2)" "Committed (Some r2) \<in> set es2"
    and "c_Number (sc_CommitMessage c1) = SlotId 0 s" "c_Number (sc_CommitMessage c2) = SlotId 0 s"
  shows "\<exists>m\<in>sy_sent st2 L. \<exists>spp\<in>signed_preprepares m. number_of spp = SlotId 0 s \<and>
    digest_of spp = GenerateDigest r1 \<and> digest_of spp = GenerateDigest r2"
proof -
  have ok1: "sys_ok C H L cl st1" and ok2: "sys_ok C H L cl st2"
    using reachable_sys_ok [OF assms(1,2)] assms(3,4) by (auto intro: rtranclp_trans)
  from delivered_proposed [OF ok1 assms(5-7,11)] obtain a where a: "a \<in> proposed0 L st1" "number_of a = SlotId 0 s"
    "digest_of a = GenerateDigest r1" by blast
  from delivered_proposed [OF ok2 assms(8-10,12)] obtain b where b: "b \<in> proposed0 L st2" "number_of b = SlotId 0 s"
    "digest_of b = GenerateDigest r2" by blast
  have "a \<in> proposed0 L st2" using a(1) proposals0_mono [OF sent_grows [OF assms(4)]] by blast
  moreover have "single (proposed0 L st2)" using ok2 by (simp add: sys_ok_def)
  moreover have "number_of a = number_of b" using a(2) b(2) by simp
  ultimately have "digest_of a = digest_of b" using b(1) unfolding single_def by blast
  with a(3) b have "digest_of b = GenerateDigest r1 \<and> digest_of b = GenerateDigest r2" by simp
  with b(1,2) show ?thesis unfolding proposals0_def by blast
qed

section \<open>A run of four nodes, one of them faulty\<close>

lemma exPeers_2: "StartNode_peers exEnv 2 (Nodes (localCluster 4)) noPeers = Inr (exPeers [1, 3, 4])"
  by (simp add: nodes_4 exRead_public noPeers_def exPeers_def exHost_def Let_def ex_signers)

lemma exNode2_start: "StartNode exEnv (localNode 2) (localCluster 4) = Inr (exNode 2)"
  using exPeers_2 exRead_private [of 2] by (simp add: StartNode_def exNode_def leader_of_four)

definition exSystem :: "PBFTNode \<Rightarrow> PBFTNode \<Rightarrow> rpc set \<Rightarrow> rpc set \<Rightarrow> system" where
  "exSystem a d A D = \<lparr>sy_node = exNode(1 := a, 4 := d), sy_sent = (\<lambda>_. {})(1 := A, 4 := D)\<rparr>"

definition exCorrect :: "NodeId set" where
  "exCorrect = {1, 2, 4}"

lemma ex_scene: "scene example_pgp exCorrect 4 (localCluster 4)"
proof -
  have "ids (localCluster 4) = {1, 2, 3, 4}" by (simp add: ids_def nodes_4 localNode_def)
  moreover have "{1, 2, 3, 4} - exCorrect = {3}" by (auto simp: exCorrect_def)
  ultimately show ?thesis
    by (simp add: scene_def exCorrect_def example_pgp_signer_known leader_of_four)
qed

lemma ex_cluster_started: "cluster_started exCorrect (localCluster 4) (exSystem exBackup exLeader {} {})"
  unfolding cluster_started_def
proof (intro conjI ballI)
  fix i assume "i \<in> exCorrect"
  then have "StartNode exEnv (localNode i) (localCluster 4) = Inr (exNode i)"
    using exNode_start exNode2_start by (auto simp: exCorrect_def)
  moreover have "sy_node (exSystem exBackup exLeader {} {}) i = exNode i"
    by (simp add: exSystem_def exBackup_def exLeader_def)
  ultimately show "\<exists>E hostc. cfg_Id hostc = i \<and>
      StartNode E hostc (localCluster 4) = Inr (sy_node (exSystem exBackup exLeader {} {}) i)"
    by (intro exI [of _ exEnv] exI [of _ "localNode i"]) (simp add: localNode_def)
qed (simp add: exSystem_def fun_eq_iff)

text \<open>Node 4 proposes \<open>op\<close>; node 1 accepts it and prepares it with the vote of node 3.\<close>

definition exSent :: "rpc set" where
  "exSent = {RpcPrePrepare exPrePrepare}"

definition exRun :: system where
  "exRun = exSystem exBackup_prepared exLeader_proposed {RpcPrepare (exPrepare 1), RpcCommit (exCommit 1)} exSent"

lemma ex_sys_1:
  assumes "handleMessages example_pgp ev a = Inr (a', es)" "genuine example_pgp exCorrect (sy_sent (exSystem a d A D)) a ev"
    "issuedSequenceNumber a < maxInt64"
  shows "sys_step example_pgp exCorrect (exSystem a d A D) (exSystem a' d (A \<union> sent_rpcs es) D)"
proof -
  have "exSystem a' d (A \<union> sent_rpcs es) D =
      (exSystem a d A D)\<lparr>sy_node := (sy_node (exSystem a d A D))(1 := a'),
        sy_sent := (sy_sent (exSystem a d A D))(1 := sy_sent (exSystem a d A D) 1 \<union> sent_rpcs es)\<rparr>"
    by (simp add: exSystem_def fun_eq_iff)
  moreover have "sy_node (exSystem a d A D) 1 = a" "1 \<in> exCorrect" by (simp_all add: exSystem_def exCorrect_def)
  ultimately show ?thesis using sys_step.handle [of 1 exCorrect example_pgp "exSystem a d A D" ev a' es] assms by simp
qed

lemma ex_sys_4:
  assumes "handleMessages example_pgp ev d = Inr (d', es)" "genuine example_pgp exCorrect (sy_sent (exSystem a d A D)) d ev"
    "issuedSequenceNumber d < maxInt64"
  shows "sys_step example_pgp exCorrect (exSystem a d A D) (exSystem a d' A (D \<union> sent_rpcs es))"
proof -
  have "exSystem a d' A (D \<union> sent_rpcs es) =
      (exSystem a d A D)\<lparr>sy_node := (sy_node (exSystem a d A D))(4 := d'),
        sy_sent := (sy_sent (exSystem a d A D))(4 := sy_sent (exSystem a d A D) 4 \<union> sent_rpcs es)\<rparr>"
    by (simp add: exSystem_def fun_eq_iff)
  moreover have "sy_node (exSystem a d A D) 4 = d" "4 \<in> exCorrect" by (simp_all add: exSystem_def exCorrect_def)
  ultimately show ?thesis using sys_step.handle [of 4 exCorrect example_pgp "exSystem a d A D" ev d' es] assms by simp
qed

lemma ex_handle_proposed:
  "handleMessages example_pgp (EvClientRequest (Some ''op'')) exLeader =
     Inr (exLeader_proposed, [Broadcast (RpcPrePrepare exPrePrepare)])"
  using ex_proposed by (simp add: handleMessages_def getTimer_def exLeader_primary exLeader_fields)

lemma ex_genuine:
  "genuine example_pgp exCorrect (sy_sent (exSystem exBackup exLeader_proposed {} exSent)) exBackup (EvPrePrepare exPrePrepare)"
proof -
  have "SignedPrePrepare_SignatureValid example_pgp (peerEntities exBackup) (peerEntityMap exBackup)
      (fpp_SignedMessage exPrePrepare) = Inr 4"
    using exValid [of 4] by (simp add: SignedPrePrepare_SignatureValid_def exBackup_simps exPrePrepare_def exSign)
  then show ?thesis by (auto simp: genuine_def exSystem_def exSent_def)
qed

lemma ex_sys_run: "(sys_step example_pgp exCorrect)\<^sup>*\<^sup>* (exSystem exBackup exLeader {} {}) exRun"
proof -
  let ?S = "sys_step example_pgp exCorrect"
  have m: "(2::int) < maxInt64" "(1::int) < maxInt64" by (simp_all add: maxInt64_def)
  have "?S (exSystem exBackup exLeader {} {}) (exSystem exBackup exLeader_proposed {} exSent)"
    using ex_sys_4 [OF ex_handle_proposed, of exBackup "{}" "{}"] m
    by (simp add: genuine_def exLeader_fields exSent_def)
  moreover have "?S (exSystem exBackup exLeader_proposed {} exSent)
      (exSystem exBackup_accepted exLeader_proposed {RpcPrepare (exPrepare 1)} exSent)"
    using ex_sys_1 [OF ex_accepted ex_genuine] m by (simp add: exBackup_fields)
  moreover have "?S (exSystem exBackup_accepted exLeader_proposed {RpcPrepare (exPrepare 1)} exSent) exRun"
    using ex_sys_1 [OF ex_prepared, of exLeader_proposed "{RpcPrepare (exPrepare 1)}" exSent] m
    by (simp add: genuine_def exBackup_accepted_def exRun_def insert_commute)
  ultimately show ?thesis by (meson converse_rtranclp_into_rtranclp rtranclp.rtrancl_refl)
qed

lemma agreement_in_view_0_witness:
  "\<exists>m\<in>sy_sent exRun 4. \<exists>spp\<in>signed_preprepares m. number_of spp = SlotId 0 2 \<and>
     digest_of spp = GenerateDigest ''op'' \<and> digest_of spp = GenerateDigest ''op''"
proof (rule agreement_in_view_0 [OF ex_scene ex_cluster_started ex_sys_run])
  have node: "sy_node exRun 1 = exBackup_prepared" by (simp add: exRun_def exSystem_def)
  show "(sys_step example_pgp exCorrect)\<^sup>*\<^sup>* exRun exRun" by simp
  show "handleMessages example_pgp (EvCommit (exCommit 3)) (sy_node exRun 1) =
      Inr (exBackup_committed, [Committed (Some ''op'')])"
    unfolding node by (rule ex_committed)
  then show "handleMessages example_pgp (EvCommit (exCommit 3)) (sy_node exRun 1) =
      Inr (exBackup_committed, [Committed (Some ''op'')])" .
qed (simp_all add: exCommit_def exSign exCorrect_def)

end
