(* ===== verification/Certificate_Overlap.thy ===== *)
theory Certificate_Overlap
  imports Cluster Certificates
begin

text \<open>
  The certificates of two replicas of one cluster: only the votes for a checkpoint and a proof
  sent by a peer move \<open>lastCheckpoint\<close>, the voters of a certificate are nodes of the cluster,
  and two certificates made of votes share a correct node.
\<close>

section \<open>What moves the last checkpoint\<close>

definition same_checkpoint :: "PBFTNode \<Rightarrow> PBFTNode \<Rightarrow> bool" where
  "same_checkpoint n m \<longleftrightarrow> lastCheckpoint m = lastCheckpoint n"

lemma same_checkpoint_refl [simp]: "same_checkpoint n n"
  by (simp add: same_checkpoint_def)

interpretation resting: run_preorder same_checkpoint
  by unfold_locales (simp_all add: same_checkpoint_def)

lemmas holds_same_checkpoint_trans = resting.holds_trans
lemmas holds_same_checkpoint_andThen = resting.holds_compose

lemma ensureMapping_same: "lastCheckpoint (ensureMapping k n) = lastCheckpoint n"
  by (auto simp: ensureMapping_def split: option.splits)

lemma handleClientRequest_same: "holds (\<lambda>m es. same_checkpoint n m) (handleClientRequest C r n)"
  by (auto simp: handleClientRequest_def Let_def same_checkpoint_def split: option.splits sum.splits)

lemma acceptPrePrepare_same: "holds (\<lambda>m es. same_checkpoint n m) (acceptPrePrepare C pp n)"
  by (auto simp: acceptPrePrepare_def Let_def same_checkpoint_def split: sum.splits)

lemma handlePrePrepare_same: "holds (\<lambda>m es. same_checkpoint n m) (handlePrePrepare C pp n)"
  unfolding handlePrePrepare_def Let_def
  by (auto split: sum.splits option.splits simp: same_checkpoint_def ensureMapping_same
      intro!: holds_same_checkpoint_trans [OF _ acceptPrePrepare_same, unfolded same_checkpoint_def])

lemma handlePrepare_same: "holds (\<lambda>m es. same_checkpoint n m) (handlePrepare C msg n)"
  by (auto simp: handlePrepare_def Let_def same_checkpoint_def split: sum.splits)

lemma handleCommit_same: "holds (\<lambda>m es. same_checkpoint n m) (handleCommit C msg n)"
  by (auto simp: handleCommit_def Let_def same_checkpoint_def andThen_def emit_def tryCheckpoint_def ret_def
      split: sum.splits)

lemma startViewChange_same_checkpoint: "holds (\<lambda>m es. same_checkpoint n m) (startViewChange C view n)"
  by (auto simp: startViewChange_def Let_def same_checkpoint_def split: sum.splits)

lemma sendHeartbeat_same_checkpoint: "holds (\<lambda>m es. same_checkpoint n m) (sendHeartbeat C n)"
  using sendHeartbeat_same [of n C] by (auto simp: holds_def split: sum.splits)

lemma generatePreprepares_same:
  assumes "generatePrepreparesForNewView C view n = Inr (n', pps)"
  shows "same_checkpoint n n'"
proof -
  from assms obtain maxS n1 where p: "proposes C maxS n n1"
    and n': "n' = n1 \<or> n' = n1\<lparr>issuedSequenceNumber := maxS\<rparr>"
    unfolding generatePrepreparesForNewView_def Let_def
    by (auto split: prod.splits if_splits option.splits sum.splits dest!: newview_loop_proposes)
      (metis proposes_refl)+
  from p n' show ?thesis unfolding proposes_def same_checkpoint_def by auto
qed

lemma leadNewView_same: "holds (\<lambda>m es. same_checkpoint n m) (leadNewView C view n)"
proof (cases "generatePrepreparesForNewView C view n")
  case (Inr r)
  obtain n1 pps where r: "r = (n1, pps)" by (cases r)
  have "same_checkpoint n n1" using generatePreprepares_same Inr r by blast
  then show ?thesis
    by (auto simp: leadNewView_def Inr r Let_def same_checkpoint_def enterNewView_def
        intro!: holds_same_checkpoint_trans [OF _ sendHeartbeat_same_checkpoint, unfolded same_checkpoint_def])
qed (simp add: leadNewView_def)

lemma handleViewChange_same: "holds (\<lambda>m es. same_checkpoint n m) (handleViewChange C msg n)"
proof -
  define n1 where "n1 = n\<lparr>viewChange := (viewChange n)\<lparr>vci_messages :=
      gput (vc_Node (svc_Message msg)) msg (vci_messages (viewChange n))\<rparr>\<rparr>"
  have a: "same_checkpoint n n1" by (simp add: n1_def same_checkpoint_def)
  show ?thesis
    unfolding handleViewChange_def Let_def n1_def [symmetric]
    by (auto split: sum.splits prod.splits intro: a holds_same_checkpoint_trans [OF a startViewChange_same_checkpoint]
        holds_same_checkpoint_trans [OF a leadNewView_same])
qed

lemma assignLoopVar_same: "same_checkpoint n (assignLoopVar pp aliased n)"
  unfolding assignLoopVar_def same_checkpoint_def by (induction aliased arbitrary: n) auto

lemma newview_preprepares_same: "holds (\<lambda>m es. same_checkpoint n m) (newview_preprepares C pps aliased n)"
proof (induction pps arbitrary: aliased n)
  case (Cons e rest)
  show ?case
    by (cases e)
      (auto simp: Let_def intro: holds_same_checkpoint_trans [OF assignLoopVar_same] Cons intro!:
        holds_same_checkpoint_trans [OF assignLoopVar_same holds_same_checkpoint_andThen [OF handlePrePrepare_same]])
qed simp

lemma handleNewView_same: "holds (\<lambda>m es. same_checkpoint n m) (handleNewView C msg n)"
proof -
  have "same_checkpoint n (enterNewView view n)" for view
    by (simp add: same_checkpoint_def enterNewView_def)
  then show ?thesis
    unfolding handleNewView_def Let_def
    by (auto intro: holds_same_checkpoint_trans [OF _ newview_preprepares_same])
qed

text \<open>No other event touches the last checkpoint.\<close>

lemma checkpoint_moved_by:
  assumes "handleMessages C ev n = Inr (n', es)" "lastCheckpoint n' \<noteq> lastCheckpoint n"
  shows "(\<exists>m. ev = EvCheckpoint m) \<or> (\<exists>num st. ev = EvSnapshot num st) \<or> (\<exists>p. ev = EvCheckpointProof p)"
proof (rule ccontr)
  assume other: "\<not> ?thesis"
  have t: "same_checkpoint n (timerFired n)" by (simp add: same_checkpoint_def timerFired_def)
  have d: "same_checkpoint n (n\<lparr>down := b\<rparr>)" for b by (simp add: same_checkpoint_def)
  have a: "same_checkpoint n (afterNewView p err n)" "same_checkpoint n (afterHeartbeat C p r err n)" for p err r
    by (auto simp: same_checkpoint_def afterNewView_def afterHeartbeat_def split: sum.splits)
  have "holds (\<lambda>m es. same_checkpoint n m) (handleEvent C ev n)"
  proof (cases ev)
    case EvTimer
    then show ?thesis
      using t holds_same_checkpoint_trans [OF t startViewChange_same_checkpoint]
        holds_same_checkpoint_trans [OF t sendHeartbeat_same_checkpoint]
      by (simp add: handleHeartbeatTimeout_def)
  qed (use other in \<open>auto simp: handlePrePrepare_same handleClientRequest_same handlePrepare_same
      handleCommit_same handleViewChange_same handleNewView_same startViewChange_same_checkpoint handleDebug_def d a\<close>)
  with assms have "same_checkpoint n n'"
    by (auto simp: handleMessages_def split: sum.splits if_splits)
  with assms(2) show False by (simp add: same_checkpoint_def)
qed

section \<open>Certificates overlap\<close>

text \<open>Two sets of more than (N+f)/2 of N nodes share more than f of them.\<close>

lemma large_sets_meet:
  assumes "finite N" "A \<subseteq> N" "B \<subseteq> N" "card N + f < card A + card B"
  shows "f < card (A \<inter> B)"
proof -
  have "card A + card B = card (A \<union> B) + card (A \<inter> B)"
    using assms(1-3) by (intro card_Un_Int) (auto intro: finite_subset)
  moreover have "card (A \<union> B) \<le> card N" using assms(1-3) by (simp add: card_mono)
  ultimately show ?thesis using assms(4) by linarith
qed

text \<open>The nodes with an authentic vote for exactly this slot in the proof of a checkpoint.\<close>

definition voters :: "pgp \<Rightarrow> PBFTNode \<Rightarrow> CheckpointProof \<Rightarrow> NodeId set" where
  "voters C n p = {i. \<exists>v. gget (cp_Proof p) i = Some v \<and> checkpoint_ok C n (cp_Number p) i v}"

lemma moved_certificate:
  assumes "reachable C n" "handleMessages C ev n = Inr (n', es)" "lastCheckpoint n' \<noteq> lastCheckpoint n"
    "\<nexists>p. ev = EvCheckpointProof p"
  shows "2 * (length (peermap n) div 3) + 1 \<le> card (voters C n (lastCheckpoint n'))"
proof -
  from assms(2,3) have h: "handleEvent C ev n = Inr (n', es)"
    by (auto simp: handleMessages_def split: sum.splits if_splits)
  from checkpoint_moved_by [OF assms(2,3)] assms(4)
  consider m where "ev = EvCheckpoint m" | num st where "ev = EvSnapshot num st" by blast
  then obtain m es' where "handleCheckpointNoValidation m n = Inr (n', es')"
    "checkpoint_ok C n (ck_Number (sck_CheckpointMessage m)) (ck_Node (sck_CheckpointMessage m)) m"
  proof cases
    case (1 m)
    with h assms(3) have v: "SignedCheckpoint_SignatureValid C (peerEntities n) (peerEntityMap n) m =
        Inr (ck_Node (sck_CheckpointMessage m))" and r: "handleCheckpointNoValidation m n = Inr (n', es)"
      by (auto simp: handleCheckpoint_def split: sum.splits if_splits)
    from v have "checkpoint_ok C n (ck_Number (sck_CheckpointMessage m)) (ck_Node (sck_CheckpointMessage m)) m"
      by (simp only: checkpoint_ok_def simp_thms)
    with r show ?thesis by (rule that)
  next
    case (2 num st)
    from h assms(3) obtain m es' where sign: "Checkpoint_Sign C (node_entity n)
        \<lparr>ck_Number = num, ck_Snapshot = st, ck_Node = node_id n\<rparr> = Inr m"
      and r: "handleCheckpointNoValidation m n = Inr (n', es')"
      by (auto simp: 2 handleRecvSnapshot_def andThen_def emit_def split: sum.splits)
    from checkpoint.signed_body [OF sign] sign
    have "checkpoint_ok C n (ck_Number (sck_CheckpointMessage m)) (ck_Node (sck_CheckpointMessage m)) m"
      by (simp add: checkpoint_ok_def)
    with r show ?thesis by (rule that)
  qed
  from stable_certificate [OF assms(1) this(1) assms(3) this(2)] show ?thesis unfolding voters_def by (rule conjunct2)
qed

text \<open>The voters are nodes of the cluster the replica was started with.\<close>

lemma voters_in_cluster:
  assumes "pgp_signer_known C" "member_ok cl i n" "i \<in> ids cl"
  shows "voters C n p \<subseteq> ids cl"
proof
  fix j assume "j \<in> voters C n p"
  then obtain v where "checkpoint_ok C n (cp_Number p) j v" by (auto simp: voters_def)
  then consider "SignedCheckpoint_SignatureValid C (peerEntities n) (peerEntityMap n) v = Inr j" | "j = node_id n"
    by (auto simp: checkpoint_ok_def)
  then show "j \<in> ids cl"
  proof cases
    case 1
    then have "gget (peermap n) j \<noteq> None"
      using assms(2) by (intro signer_is_peer [OF assms(1)])
        (auto simp: SignedCheckpoint_SignatureValid_def member_ok_def)
    with assms(2) show ?thesis by (auto simp: member_ok_def)
  qed (use assms(2,3) in \<open>simp add: member_ok_def\<close>)
qed

lemma member_run:
  assumes "StartNode E hostc cl = Inr s" "(node_step C)\<^sup>*\<^sup>* s n"
  shows "member_ok cl (cfg_Id hostc) n \<and> reachable C n"
proof -
  have "member_ok cl (cfg_Id hostc) n = member_ok cl (cfg_Id hostc) s"
    by (rule member_ok_config [OF keeps_config [OF node_steps_keep [OF assms(2)]]])
  then have "member_ok cl (cfg_Id hostc) n" using started_member [OF assms(1)] by simp
  then show ?thesis using assms by (auto simp: reachable_def started_def)
qed

lemma cluster_certificate:
  assumes "pgp_signer_known C" "hostc \<in> set (Nodes cl)" "StartNode E hostc cl = Inr s" "(node_step C)\<^sup>*\<^sup>* s n"
    "handleMessages C ev n = Inr (n', es)" "lastCheckpoint n' \<noteq> lastCheckpoint n" "\<nexists>p. ev = EvCheckpointProof p"
    "card (ids cl) = 3 * f + 1"
  shows "voters C n (lastCheckpoint n') \<subseteq> ids cl \<and> 2 * f + 1 \<le> card (voters C n (lastCheckpoint n'))"
proof -
  from member_run [OF assms(3,4)] have m: "member_ok cl (cfg_Id hostc) n" and r: "reachable C n" by auto
  have i: "cfg_Id hostc \<in> ids cl" using assms(2) by (simp add: ids_def)
  have "length (peermap n) = card (ids cl - {cfg_Id hostc})"
    using gm.size_card [of "peermap n"] m by (simp add: member_ok_def)
  then have "length (peermap n) = 3 * f" using i assms(8) by (simp add: card_Diff_singleton ids_def)
  with moved_certificate [OF r assms(5-7)] voters_in_cluster [OF assms(1) m i] show ?thesis by simp
qed

text \<open>C20: In a cluster of 3f+1 nodes, whenever two started replicas move their last checkpoints in a
  step that is not a peer's checkpoint proof (whose votes are not verified: by votes of the
  peers, or by their own snapshot), at least f+1 nodes of the cluster have an authentic vote in
  both certificates, so at least one correct one.\<close>

theorem certificates_intersect:
  assumes "pgp_signer_known C" "card (ids cl) = 3 * f + 1"
    "hostc1 \<in> set (Nodes cl)" "StartNode E1 hostc1 cl = Inr s1" "(node_step C)\<^sup>*\<^sup>* s1 n1"
    "handleMessages C ev1 n1 = Inr (m1, es1)" "lastCheckpoint m1 \<noteq> lastCheckpoint n1" "\<nexists>p. ev1 = EvCheckpointProof p"
    "hostc2 \<in> set (Nodes cl)" "StartNode E2 hostc2 cl = Inr s2" "(node_step C)\<^sup>*\<^sup>* s2 n2"
    "handleMessages C ev2 n2 = Inr (m2, es2)" "lastCheckpoint m2 \<noteq> lastCheckpoint n2" "\<nexists>p. ev2 = EvCheckpointProof p"
  shows "voters C n1 (lastCheckpoint m1) \<union> voters C n2 (lastCheckpoint m2) \<subseteq> ids cl \<and>
    f + 1 \<le> card (voters C n1 (lastCheckpoint m1) \<inter> voters C n2 (lastCheckpoint m2))"
proof -
  from cluster_certificate [OF assms(1,3-8,2)] cluster_certificate [OF assms(1,9-14,2)]
  have v: "voters C n1 (lastCheckpoint m1) \<subseteq> ids cl" "voters C n2 (lastCheckpoint m2) \<subseteq> ids cl"
    "card (ids cl) + f < card (voters C n1 (lastCheckpoint m1)) + card (voters C n2 (lastCheckpoint m2))"
    using assms(2) by auto
  have "finite (ids cl)" by (simp add: ids_def)
  from large_sets_meet [OF this v] v(1,2) show ?thesis by simp
qed

text \<open>Node 1 gets the votes of nodes 2, 3 and 4 for the checkpoint of slot 100; node 4 those of
  nodes 1 and 2, and the third is its own, for the snapshot its key node made.\<close>

definition exLeader_votes :: "NodeId list \<Rightarrow> PBFTNode" where
  "exLeader_votes is = exLeader\<lparr>pendingCheckpoints := [(SlotId 0 100, exProof is)]\<rparr>"

definition exLeader_stable :: PBFTNode where
  "exLeader_stable = exLeader\<lparr>lastCheckpoint := exProof [1, 2, 4], sequenceNumber := 100\<rparr>"

lemma exLeader_pending: "pendingCheckpoints exLeader = []"
  unfolding exLeader_eq by (simp add: initNode_def)

lemmas ex_leader_checkpoint = ex_step exLeader_fields exLeader_more exLeader_primary exLeader_pending
  handleCheckpoint_def handleCheckpointNoValidation_def
  SignedCheckpoint_SignatureValid_def isStable_def proofSize_def BeforeOrEqual_def Before_def
  exCheckpoint_def exProof_def exLeader_votes_def exLeader_stable_def

lemma ex_leader_vote1:
  "handleMessages example_pgp (EvCheckpoint (exCheckpoint 1)) exLeader = Inr (exLeader_votes [1], [])"
  using exValid4 [of 1] by (simp add: ex_leader_checkpoint)

lemma ex_leader_vote2:
  "handleMessages example_pgp (EvCheckpoint (exCheckpoint 2)) (exLeader_votes [1]) = Inr (exLeader_votes [1, 2], [])"
  using exValid4 [of 2] by (simp add: ex_leader_checkpoint)

lemma ex_leader_snapshot:
  "handleMessages example_pgp (EvSnapshot (SlotId 0 100) [1]) (exLeader_votes [1, 2]) =
     Inr (exLeader_stable, [Snapshotted [1], Broadcast (RpcCheckpoint (exCheckpoint 4))])"
  by (simp add: ex_leader_checkpoint handleRecvSnapshot_def checkpointed_def gkeys_def gdel_def)

lemma exBackup_votes_run: "(node_step example_pgp)\<^sup>*\<^sup>* exBackup (exBackup_votes [2, 3])"
  using node_step.message [OF ex_vote2] node_step.message [OF ex_vote3]
  by (meson converse_rtranclp_into_rtranclp rtranclp.rtrancl_refl)

lemma exLeader_votes_run: "(node_step example_pgp)\<^sup>*\<^sup>* exLeader (exLeader_votes [1, 2])"
  using node_step.message [OF ex_leader_vote1] node_step.message [OF ex_leader_vote2]
  by (meson converse_rtranclp_into_rtranclp rtranclp.rtrancl_refl)

lemma ex_vote4_handled:
  "handleMessages example_pgp (EvCheckpoint (exCheckpoint 4)) (exBackup_votes [2, 3]) = Inr (exBackup_stable, [Snapshotted [1]])"
  using ex_vote4 by (simp add: handleMessages_def exBackup_votes_def getTimer_def exBackup_simps)

lemma ids_of_four: "ids (localCluster 4) = {1, 2, 3, 4}"
  by (simp add: ids_def nodes_4 localNode_def)

lemma certificates_intersect_witness:
  "voters example_pgp (exBackup_votes [2, 3]) (lastCheckpoint exBackup_stable) \<union>
     voters example_pgp (exLeader_votes [1, 2]) (lastCheckpoint exLeader_stable) \<subseteq> ids (localCluster 4) \<and>
   1 + 1 \<le> card (voters example_pgp (exBackup_votes [2, 3]) (lastCheckpoint exBackup_stable) \<inter>
     voters example_pgp (exLeader_votes [1, 2]) (lastCheckpoint exLeader_stable))"
proof (rule certificates_intersect [OF example_pgp_signer_known _ _ exNode_start [of 1, folded exBackup_def]
      exBackup_votes_run ex_vote4_handled _ _ _ exNode_start [of 4, folded exLeader_def]
      exLeader_votes_run ex_leader_snapshot])
  show "lastCheckpoint exBackup_stable \<noteq> lastCheckpoint (exBackup_votes [2, 3])"
    by (simp add: exBackup_stable_def exBackup_votes_def exBackup_fields exProof_def initCheckpoint_def)
  show "lastCheckpoint exLeader_stable \<noteq> lastCheckpoint (exLeader_votes [1, 2])"
    by (simp add: exLeader_stable_def exLeader_votes_def exLeader_more exProof_def initCheckpoint_def)
qed (simp_all add: ids_of_four nodes_4)

end
