(* ===== verification/Progress.thy ===== *)
theory Progress
  imports Scenario Acceptance Safety
begin

text \<open>
  Votes lead to a delivery: in whatever order a replica handles prepares and commits, whatever
  they contain, the commits of enough peers make it hand the request of the slot over.
\<close>

section \<open>Sequences of events\<close>

fun handle_all :: "pgp \<Rightarrow> event list \<Rightarrow> PBFTNode \<Rightarrow> result" where
  "handle_all C [] n = ret n"
| "handle_all C (ev # evs) n = andThen (handleMessages C ev n) (handle_all C evs)"

definition is_vote :: "event \<Rightarrow> bool" where
  "is_vote ev \<longleftrightarrow> (\<exists>m. ev = EvPrepare m) \<or> (\<exists>m. ev = EvCommit m)"

section \<open>Counting votes\<close>

text \<open>What every vote does: the handler returns, in a well-formed state.\<close>

lemma handlePrepare_returns: "\<exists>n' es. handlePrepare C m n = Inr (n', es)"
  unfolding handlePrepare_def Let_def by (auto simp: ret_def emit_def split: sum.splits)

lemma handleCommit_returns: "\<exists>n' es. handleCommit C m n = Inr (n', es)"
  unfolding handleCommit_def Let_def
  by (auto simp: ret_def emit_def andThen_def tryCheckpoint_def split: sum.splits)

lemma handle_vote:
  assumes "node_ok C n"
  shows "handleMessages C (EvPrepare m) n = handlePrepare C m n" "handleMessages C (EvCommit c) n = handleCommit C c n"
  using assms by (auto simp: handleMessages_def node_ok_def timers_ok_getTimer)

lemma vote_handled:
  assumes "node_ok C n" "is_vote ev"
  obtains n1 es1 where "handleMessages C ev n = Inr (n1, es1)" "node_ok C n1"
proof -
  have "\<exists>n1 es1. handleMessages C ev n = Inr (n1, es1)"
    using assms(2) handlePrepare_returns handleCommit_returns by (auto simp: is_vote_def handle_vote [OF assms(1)])
  then obtain n1 es1 where r: "handleMessages C ev n = Inr (n1, es1)" by blast
  from that [OF this keeps_node_ok [OF holdsD [OF handleMessages_keeps this] assms(1)]] show thesis .
qed

lemma votes_return:
  assumes "node_ok C n" "\<forall>ev\<in>set evs. is_vote ev"
  shows "\<exists>n' es. handle_all C evs n = Inr (n', es)"
  using assms
proof (induction evs arbitrary: n)
  case (Cons ev evs)
  from Cons.prems obtain n1 es1 where r: "handleMessages C ev n = Inr (n1, es1)" and ok: "node_ok C n1"
    by (auto elim: vote_handled)
  from Cons.IH [OF ok] Cons.prems(2) r show ?case by (auto simp: andThen_def)
qed (simp add: ret_def)

text \<open>
  The interface of a quorum: \<open>counted n\<close> are the nodes whose votes are in the slot, \<open>senders n ev\<close>
  the node whose vote the event \<open>ev\<close> is (none, if it is no authentic vote for the slot), and a vote
  that completes the quorum has an effect that satisfies \<open>reached\<close>.
\<close>

locale quorum =
  fixes C :: pgp and ready :: "PBFTNode \<Rightarrow> bool" and counted :: "PBFTNode \<Rightarrow> NodeId set"
    and senders :: "PBFTNode \<Rightarrow> event \<Rightarrow> NodeId set" and reached :: "effect \<Rightarrow> bool"
  assumes ready_ok: "ready n \<Longrightarrow> node_ok C n"
    and finite_counted: "finite (counted n)"
    and finite_senders: "finite (senders n ev)"
    and senders_config: "config n' = config n \<Longrightarrow> senders n' = senders n"
    and vote: "ready n \<Longrightarrow> is_vote ev \<Longrightarrow> handleMessages C ev n = Inr (n', es) \<Longrightarrow> (\<exists>e\<in>set es. reached e) \<or>
      ready n' \<and> config n' = config n \<and> counted n \<union> senders n ev \<subseteq> counted n' \<and>
      (senders n ev = {} \<or> card (counted n') < 2 * (length (peermap n) div 3))"
begin

lemma votes_reach:
  assumes "ready n" "\<forall>ev\<in>set evs. is_vote ev" "\<Union> (senders n ` set evs) \<noteq> {}"
    "2 * (length (peermap n) div 3) \<le> card (counted n \<union> \<Union> (senders n ` set evs))"
  shows "\<exists>n' es. handle_all C evs n = Inr (n', es) \<and> (\<exists>e\<in>set es. reached e)"
  using assms
proof (induction evs arbitrary: n)
  case (Cons ev evs)
  let ?q = "2 * (length (peermap n) div 3)" and ?S = "\<Union> (senders n ` set evs)"
  have votes: "is_vote ev" "\<forall>ev\<in>set evs. is_vote ev" using Cons.prems(2) by simp_all
  obtain n1 es1 where r: "handleMessages C ev n = Inr (n1, es1)" and ok: "node_ok C n1"
    using ready_ok [OF Cons.prems(1)] votes(1) by (rule vote_handled)
  from vote [OF Cons.prems(1) votes(1) r] show ?case
  proof
    assume "\<exists>e\<in>set es1. reached e"
    with votes_return [OF ok votes(2)] r show ?thesis by (auto simp: andThen_def)
  next
    assume v: "ready n1 \<and> config n1 = config n \<and> counted n \<union> senders n ev \<subseteq> counted n1 \<and>
      (senders n ev = {} \<or> card (counted n1) < ?q)"
    then have same: "senders n1 = senders n" "peermap n1 = peermap n"
      using senders_config [of n1 n] by (auto simp: config_def)
    have "counted n \<union> \<Union> (senders n ` set (ev # evs)) \<subseteq> counted n1 \<union> ?S" using v by auto
    then have "card (counted n \<union> \<Union> (senders n ` set (ev # evs))) \<le> card (counted n1 \<union> ?S)"
      by (rule card_mono [rotated]) (simp add: finite_counted finite_senders)
    with Cons.prems(4) have q: "?q \<le> card (counted n1 \<union> ?S)" by linarith
    have "?S \<noteq> {}"
    proof
      assume "?S = {}"
      with q v Cons.prems(3) show False by auto
    qed
    with Cons.IH [of n1] v votes(2) q same r show ?thesis by (auto simp: andThen_def)
  qed
qed simp

end

section \<open>Prepares and commits\<close>

text \<open>The node whose authentic vote for slot \<open>k\<close> an event is, and the nodes that have voted.\<close>

fun preparer :: "pgp \<Rightarrow> SlotId \<Rightarrow> PBFTNode \<Rightarrow> event \<Rightarrow> NodeId set" where
  "preparer C k n (EvPrepare m) = (let p = sp_PrepareMessage m in
     if p_Number p = k \<and> SignedPrepare_SignatureValid C (peerEntities n) (peerEntityMap n) m = Inr (p_Node p)
     then {p_Node p} else {})"
| "preparer C k n _ = {}"

fun committer :: "pgp \<Rightarrow> SlotId \<Rightarrow> PBFTNode \<Rightarrow> event \<Rightarrow> NodeId set" where
  "committer C k n (EvCommit m) = (let c = sc_CommitMessage m in
     if c_Number c = k \<and> SignedCommit_SignatureValid C (peerEntities n) (peerEntityMap n) m = Inr (c_Node c)
     then {c_Node c} else {})"
| "committer C k n _ = {}"

definition prepared_by :: "SlotId \<Rightarrow> PBFTNode \<Rightarrow> NodeId set" where
  "prepared_by k n = {j. gget (s_prepares (slotAt n k)) j \<noteq> None}"

definition committed_by :: "SlotId \<Rightarrow> PBFTNode \<Rightarrow> NodeId set" where
  "committed_by k n = {j. gget (s_commits (slotAt n k)) j \<noteq> None}"

lemma finite_voters [simp]: "finite (prepared_by k n)" "finite (committed_by k n)"
  unfolding prepared_by_def committed_by_def by (rule gm.finite_keys)+

lemma sender_facts:
  "finite (preparer C k n ev)" "finite (committer C k n ev)"
  "config n' = config n \<Longrightarrow> preparer C k n' = preparer C k n"
  "config n' = config n \<Longrightarrow> committer C k n' = committer C k n"
proof -
  show "preparer C k n' = preparer C k n" "committer C k n' = committer C k n" if "config n' = config n"
  proof -
    have "preparer C k n' ev = preparer C k n ev" "committer C k n' ev = committer C k n ev" for ev
      using that by (cases ev; simp add: config_def)+
    then show "preparer C k n' = preparer C k n" "committer C k n' = committer C k n" by auto
  qed
qed (cases ev; simp add: Let_def)+

lemma voters_size:
  assumes "node_ok C n"
  shows "length (gput j p (s_prepares (slotAt n k))) = card (insert j (prepared_by k n))"
    "length (gput j c (s_commits (slotAt n k))) = card (insert j (committed_by k n))"
proof -
  have "slot_ok C n k (slotAt n k)" using assms by (simp add: node_ok_def log_ok_slot)
  then have "gwf (gput j p (s_prepares (slotAt n k)))" "gwf (gput j c (s_commits (slotAt n k)))"
    by (auto simp: slot_ok_def dest: votes_ok_gwf)
  then show "length (gput j p (s_prepares (slotAt n k))) = card (insert j (prepared_by k n))"
    "length (gput j c (s_commits (slotAt n k))) = card (insert j (committed_by k n))"
    unfolding prepared_by_def committed_by_def by (simp_all only: gm.size_card gm.keys_put)
qed

lemma slotAt_number [simp]: "slotAt (n\<lparr>sequenceNumber := i\<rparr>) k = slotAt n k"
  by (simp add: slotAt_def)

text \<open>What a vote leaves as it is.\<close>

definition vote_frame :: "SlotId \<Rightarrow> PBFTNode \<Rightarrow> PBFTNode \<Rightarrow> bool" where
  "vote_frame k n n' \<longleftrightarrow> viewChange n' = viewChange n \<and> lastCheckpoint n' = lastCheckpoint n \<and> config n' = config n \<and>
     s_request (slotAt n' k) = s_request (slotAt n k) \<and> s_preprepare (slotAt n' k) = s_preprepare (slotAt n k) \<and>
     prepared_by k n \<subseteq> prepared_by k n' \<and> committed_by k n \<subseteq> committed_by k n'"

lemma handlePrepare_vote:
  "holds (\<lambda>n' es. vote_frame k n n' \<and> s_committed (slotAt n' k) = s_committed (slotAt n k)) (handlePrepare C m n)"
  unfolding handlePrepare_def Let_def
  by (auto simp: vote_frame_def prepared_by_def committed_by_def split: sum.splits)

lemma handleCommit_vote:
  "handleCommit C m n = Inr (n', es) \<Longrightarrow> vote_frame k n n' \<and>
    (committer C k n (EvCommit m) = {} \<longrightarrow> s_committed (slotAt n' k) = s_committed (slotAt n k))"
  unfolding handleCommit_def Let_def
  by (auto simp: ret_def emit_def andThen_def tryCheckpoint_def vote_frame_def prepared_by_def committed_by_def Let_def
      split: sum.splits if_splits)

text \<open>An authentic vote: it completes the quorum, or it is one voter more.\<close>

lemma handlePrepare_counts:
  assumes "node_ok C n" "\<not> vci_inProgress (viewChange n)" "s_preprepare (slotAt n k) \<noteq> None"
    "j \<in> preparer C k n (EvPrepare m)" "\<And>c. \<exists>sc. Commit_Sign C (node_entity n) c = Inr sc"
    "handlePrepare C m n = Inr (n', es)"
  shows "if 2 * (length (peermap n) div 3) \<le> card (insert j (prepared_by k n))
    then \<exists>c. Broadcast (RpcCommit c) \<in> set es \<and> c_Number (sc_CommitMessage c) = k \<and> c_Node (sc_CommitMessage c) = node_id n
    else prepared_by k n' = insert j (prepared_by k n)"
proof -
  define p where "p = sp_PrepareMessage m"
  from assms(4) have p: "p_Number p = k" "p_Node p = j"
      "SignedPrepare_SignatureValid C (peerEntities n) (peerEntityMap n) m = Inr (p_Node p)"
    by (auto simp: p_def Let_def split: if_splits)
  obtain sc where sc: "Commit_Sign C (node_entity n) \<lparr>c_Number = k, c_RequestDigest = p_RequestDigest p, c_Node = node_id n\<rparr> = Inr sc"
    using assms(5) by blast
  then have "sc_CommitMessage sc = \<lparr>c_Number = k, c_RequestDigest = p_RequestDigest p, c_Node = node_id n\<rparr>"
    by (rule commit.signed_body)
  with assms(2,3,6) p sc voters_size(1) [OF assms(1), of j m k] show ?thesis
    unfolding handlePrepare_def Let_def p_def [symmetric]
    by (auto simp: ret_def emit_def isPrepared_def prepared_by_def split: if_splits)
qed

lemma handleCommit_counts:
  assumes "node_ok C n" "\<not> vci_inProgress (viewChange n)" "\<not> Before k (cp_Number (lastCheckpoint n))"
    "j \<in> committer C k n (EvCommit m)" "\<not> s_committed (slotAt n k)" "s_request (slotAt n k) = Some r"
    "handleCommit C m n = Inr (n', es)"
  shows "if 2 * (length (peermap n) div 3) \<le> card (insert j (committed_by k n)) then Committed (Some r) \<in> set es
    else \<not> s_committed (slotAt n' k) \<and> committed_by k n' = insert j (committed_by k n)"
  using assms voters_size(2) [OF assms(1), of j m k] unfolding handleCommit_def Let_def
  by (auto simp: Let_def ret_def emit_def andThen_def tryCheckpoint_def isCommitted_def committed_by_def
      split: sum.splits if_splits)

text \<open>A slot that waits for prepares, and one that waits for commits.\<close>

definition awaits_prepares :: "pgp \<Rightarrow> SlotId \<Rightarrow> NodeId \<Rightarrow> PBFTNode \<Rightarrow> bool" where
  "awaits_prepares C k i n \<longleftrightarrow> node_ok C n \<and> \<not> vci_inProgress (viewChange n) \<and> s_preprepare (slotAt n k) \<noteq> None \<and>
     node_id n = i \<and> (\<forall>c. \<exists>sc. Commit_Sign C (node_entity n) c = Inr sc)"

definition awaits_commits :: "pgp \<Rightarrow> SlotId \<Rightarrow> string \<Rightarrow> PBFTNode \<Rightarrow> bool" where
  "awaits_commits C k r n \<longleftrightarrow> node_ok C n \<and> \<not> vci_inProgress (viewChange n) \<and>
     \<not> Before k (cp_Number (lastCheckpoint n)) \<and> \<not> s_committed (slotAt n k) \<and> s_request (slotAt n k) = Some r"

definition own_commit :: "SlotId \<Rightarrow> NodeId \<Rightarrow> effect \<Rightarrow> bool" where
  "own_commit k i e \<longleftrightarrow> (\<exists>c. e = Broadcast (RpcCommit c) \<and> c_Number (sc_CommitMessage c) = k \<and> c_Node (sc_CommitMessage c) = i)"

lemma vote_cases:
  assumes "node_ok C n" "is_vote ev" "handleMessages C ev n = Inr (n', es)"
  obtains (prepare) m where "ev = EvPrepare m" "handlePrepare C m n = Inr (n', es)"
    "vote_frame k n n'" "s_committed (slotAt n' k) = s_committed (slotAt n k)"
  | (commit) m where "ev = EvCommit m" "handleCommit C m n = Inr (n', es)" "vote_frame k n n'"
    "committer C k n ev = {} \<Longrightarrow> s_committed (slotAt n' k) = s_committed (slotAt n k)"
proof -
  from assms(2) consider m where "ev = EvPrepare m" | m where "ev = EvCommit m" by (auto simp: is_vote_def)
  then show thesis
  proof cases
    case (1 m)
    with assms(3) have "handlePrepare C m n = Inr (n', es)" by (simp add: handle_vote [OF assms(1)])
    from prepare [OF 1 this] holdsD [OF handlePrepare_vote this, of k] show thesis by blast
  next
    case (2 m)
    with assms(3) have "handleCommit C m n = Inr (n', es)" by (simp add: handle_vote [OF assms(1)])
    from commit [OF 2 this] handleCommit_vote [OF this, of k] 2 show thesis by blast
  qed
qed

interpretation prepares: quorum C "awaits_prepares C k i" "prepared_by k" "preparer C k" "own_commit k i" for C k i
proof unfold_locales
  fix n ev n' es
  assume w: "awaits_prepares C k i n" and v: "is_vote ev" and r: "handleMessages C ev n = Inr (n', es)"
  have ok: "node_ok C n" using w by (simp add: awaits_prepares_def)
  have frame: "vote_frame k n n'" using vote_cases [OF ok v r, of k] by blast
  moreover have "node_ok C n'" using keeps_node_ok [OF holdsD [OF handleMessages_keeps r] ok] .
  ultimately have w': "awaits_prepares C k i n'" and c: "config n' = config n"
    using w by (auto simp: awaits_prepares_def vote_frame_def config_def)
  show "(\<exists>e\<in>set es. own_commit k i e) \<or>
      awaits_prepares C k i n' \<and> config n' = config n \<and> prepared_by k n \<union> preparer C k n ev \<subseteq> prepared_by k n' \<and>
      (preparer C k n ev = {} \<or> card (prepared_by k n') < 2 * (length (peermap n) div 3))"
  proof (cases "preparer C k n ev = {}")
    case True
    then show ?thesis using w' c frame by (simp add: vote_frame_def)
  next
    case False
    then obtain m j where m: "ev = EvPrepare m" "preparer C k n ev = {j}"
      by (cases "(C, k, n, ev)" rule: preparer.cases) (auto simp: Let_def split: if_splits)
    with r have "handlePrepare C m n = Inr (n', es)" by (simp add: handle_vote [OF ok])
    from handlePrepare_counts [OF ok _ _ _ _ this, of k j] w m
    show ?thesis using w' c by (auto simp: awaits_prepares_def own_commit_def split: if_splits)
  qed
qed (auto simp: awaits_prepares_def sender_facts(1) intro: sender_facts(3))

interpretation commits: quorum C "awaits_commits C k r" "committed_by k" "committer C k" "(=) (Committed (Some r))" for C k r
proof unfold_locales
  fix n ev n' es
  assume w: "awaits_commits C k r n" and v: "is_vote ev" and h: "handleMessages C ev n = Inr (n', es)"
  have ok: "node_ok C n" using w by (simp add: awaits_commits_def)
  have frame: "vote_frame k n n'" using vote_cases [OF ok v h, of k] by blast
  moreover have "node_ok C n'" using keeps_node_ok [OF holdsD [OF handleMessages_keeps h] ok] .
  ultimately have w': "\<not> s_committed (slotAt n' k) \<Longrightarrow> awaits_commits C k r n'" and c: "config n' = config n"
    using w by (auto simp: awaits_commits_def vote_frame_def)
  show "(\<exists>e\<in>set es. Committed (Some r) = e) \<or>
      awaits_commits C k r n' \<and> config n' = config n \<and> committed_by k n \<union> committer C k n ev \<subseteq> committed_by k n' \<and>
      (committer C k n ev = {} \<or> card (committed_by k n') < 2 * (length (peermap n) div 3))"
  proof (cases "committer C k n ev = {}")
    case True
    then have "\<not> s_committed (slotAt n' k)"
      using vote_cases [OF ok v h, of k] w by (metis awaits_commits_def)
    then show ?thesis using True w' c frame by (simp add: vote_frame_def)
  next
    case False
    then obtain m j where m: "ev = EvCommit m" "committer C k n ev = {j}"
      by (cases "(C, k, n, ev)" rule: committer.cases) (auto simp: Let_def split: if_splits)
    with h have "handleCommit C m n = Inr (n', es)" by (simp add: handle_vote [OF ok])
    from handleCommit_counts [OF ok _ _ _ _ _ this, of k j r] w m
    show ?thesis using w' c by (auto simp: awaits_commits_def split: if_splits)
  qed
qed (auto simp: awaits_commits_def sender_facts(2) intro: sender_facts(4))

section \<open>The normal case goes on\<close>

text \<open>C11: A replica that holds a pre-prepare for a slot and is not in a view change signs and broadcasts
  a commit for it when it handles prepares and commits in any order, with any others among
  them, as soon as the authentic prepares it knows for the slot make 2f voters, its own
  included. No vote stops it.\<close>

theorem prepares_are_answered:
  assumes "reachable C n" "\<not> vci_inProgress (viewChange n)" "s_preprepare (slotAt n k) \<noteq> None"
    "\<forall>c. \<exists>sc. Commit_Sign C (node_entity n) c = Inr sc" "\<forall>ev\<in>set evs. is_vote ev"
    "\<Union> (preparer C k n ` set evs) \<noteq> {}"
    "2 * (length (peermap n) div 3) \<le> card (prepared_by k n \<union> \<Union> (preparer C k n ` set evs))"
  shows "\<exists>n' es c. handle_all C evs n = Inr (n', es) \<and> Broadcast (RpcCommit c) \<in> set es \<and>
    c_Number (sc_CommitMessage c) = k \<and> c_Node (sc_CommitMessage c) = node_id n"
proof -
  have "awaits_prepares C k (node_id n) n" using assms(2-4) reachable_ok [OF assms(1)] by (simp add: awaits_prepares_def)
  from prepares.votes_reach [OF this assms(5-7)] show ?thesis by (auto simp: own_commit_def)
qed

definition exVotes :: "event list" where
  "exVotes = [EvCommit (exCommit 3), EvPrepare (exPrepare 3), EvCommit (exCommit 2)]"

lemma exVotes_senders:
  "\<Union> (preparer example_pgp (SlotId 0 2) exBackup_accepted ` set exVotes) = {3}"
  "\<Union> (committer example_pgp (SlotId 0 2) exBackup_accepted ` set exVotes) = {2, 3}"
  using exValid [of 2] exValid [of 3]
  by (auto simp: exVotes_def exPrepare_def exCommit_def exSign SignedPrepare_SignatureValid_def
      SignedCommit_SignatureValid_def exBackup_accepted_def exBackup_simps Let_def)

lemma exVotes_votes: "\<forall>ev\<in>set exVotes. is_vote ev"
  by (simp add: exVotes_def is_vote_def)

lemma exBackup_accepted_waits:
  "\<not> vci_inProgress (viewChange exBackup_accepted)" "slotAt exBackup_accepted (SlotId 0 2) = exSlot1"
  "lastCheckpoint exBackup_accepted = initCheckpoint" "length (peermap exBackup_accepted) = 3"
  "prepared_by (SlotId 0 2) exBackup_accepted = {1}" "node_id exBackup_accepted = 1"
  by (auto simp: exBackup_accepted_def exBackup_simps slotAt_def gget_def prepared_by_def exSlot1_def)

lemma prepares_are_answered_witness:
  "\<exists>n' es c. handle_all example_pgp exVotes exBackup_accepted = Inr (n', es) \<and> Broadcast (RpcCommit c) \<in> set es \<and>
    c_Number (sc_CommitMessage c) = SlotId 0 2 \<and> c_Node (sc_CommitMessage c) = node_id exBackup_accepted"
  by (rule prepares_are_answered [OF exBackup_accepted_reachable _ _ _ exVotes_votes])
    (simp_all add: exVotes_senders exBackup_accepted_waits exSign, simp add: exSlot1_def)

text \<open>C10: A replica that holds the request of a slot hands it over to the key node when it handles
  prepares and commits in any order, with any others among them, as soon as it handles
  authentic commits for the slot that make 2f voters with those it had. No vote stops it.\<close>

theorem commits_are_delivered:
  assumes "reachable C n" "\<not> vci_inProgress (viewChange n)" "s_request (slotAt n k) = Some r"
    "\<not> s_committed (slotAt n k)" "\<not> Before k (cp_Number (lastCheckpoint n))" "\<forall>ev\<in>set evs. is_vote ev"
    "\<Union> (committer C k n ` set evs) \<noteq> {}"
    "2 * (length (peermap n) div 3) \<le> card (committed_by k n \<union> \<Union> (committer C k n ` set evs))"
  shows "\<exists>n' es. handle_all C evs n = Inr (n', es) \<and> Committed (Some r) \<in> set es"
proof -
  have "awaits_commits C k r n" using assms(2-5) reachable_ok [OF assms(1)] by (simp add: awaits_commits_def)
  from commits.votes_reach [OF this assms(6-8)] show ?thesis by auto
qed

lemma commits_are_delivered_witness:
  "\<exists>n' es. handle_all example_pgp exVotes exBackup_accepted = Inr (n', es) \<and> Committed (Some ''op'') \<in> set es"
proof (rule commits_are_delivered [OF exBackup_accepted_reachable _ _ _ _ exVotes_votes])
  have "card {2, 3 :: NodeId} \<le> card (committed_by (SlotId 0 2) exBackup_accepted \<union> {2, 3})"
    by (intro card_mono) simp_all
  then show "2 * (length (peermap exBackup_accepted) div 3) \<le> card (committed_by (SlotId 0 2) exBackup_accepted \<union>
      \<Union> (committer example_pgp (SlotId 0 2) exBackup_accepted ` set exVotes))"
    by (simp add: exVotes_senders exBackup_accepted_waits)
qed (simp_all add: exVotes_senders exBackup_accepted_waits exSlot1_def Before_def initCheckpoint_def)

section \<open>Well-formed states\<close>

text \<open>C35: Every reachable state of a replica is well formed in the ways its types do not show: its maps
  have one entry for a key, every vote is filed under the slot and the node it names, a slot
  holds a request exactly when it holds a pre-prepare, the timer its role needs exists, and
  every view has a leader.\<close>

theorem reachable_states_well_formed:
  assumes "reachable C n"
  shows "gwf (log n) \<and> gwf (pendingCheckpoints n) \<and> gwf (vci_messages (viewChange n)) \<and>
    (\<forall>k. gwf (s_prepares (slotAt n k)) \<and> gwf (s_commits (slotAt n k)) \<and>
      (s_preprepare (slotAt n k) = None \<longleftrightarrow> s_request (slotAt n k) = None)) \<and>
    (\<forall>k i m. gget (s_prepares (slotAt n k)) i = Some m \<longrightarrow> p_Number (sp_PrepareMessage m) = k \<and> p_Node (sp_PrepareMessage m) = i) \<and>
    (\<forall>k i m. gget (s_commits (slotAt n k)) i = Some m \<longrightarrow> c_Number (sc_CommitMessage m) = k \<and> c_Node (sc_CommitMessage m) = i) \<and>
    (\<forall>k p. gget (pendingCheckpoints n) k = Some p \<longrightarrow> cp_Number p = k \<and> gwf (cp_Proof p)) \<and>
    (\<exists>t. getTimer n = Inr t) \<and> (\<forall>v. \<exists>i. LeaderFor (cluster n) v = Inr i)"
proof -
  have ok: "node_ok C n" by (rule reachable_ok [OF assms])
  have slot: "slot_ok C n k (slotAt n k)" for k using ok by (simp add: node_ok_def log_ok_slot)
  have "gwf (log n)" "gwf (pendingCheckpoints n)" "gwf (vci_messages (viewChange n))"
    using ok by (auto simp: node_ok_def log_ok_def pending_ok_def messages_ok_def intro: votes_ok_gwf)
  moreover have "gwf (s_prepares (slotAt n k))" "gwf (s_commits (slotAt n k))"
    "s_preprepare (slotAt n k) = None \<longleftrightarrow> s_request (slotAt n k) = None" for k
    using slot [of k] by (auto simp: slot_ok_def intro: votes_ok_gwf)
  moreover have "p_Number (sp_PrepareMessage m) = k \<and> p_Node (sp_PrepareMessage m) = i"
    if "gget (s_prepares (slotAt n k)) i = Some m" for k i m
    using slot [of k] that by (auto simp: slot_ok_def votes_ok_def prepare_ok_def)
  moreover have "c_Number (sc_CommitMessage m) = k \<and> c_Node (sc_CommitMessage m) = i"
    if "gget (s_commits (slotAt n k)) i = Some m" for k i m
    using slot [of k] that by (auto simp: slot_ok_def votes_ok_def commit_ok_def)
  moreover have "cp_Number p = k \<and> gwf (cp_Proof p)" if "gget (pendingCheckpoints n) k = Some p" for k p
    using ok that by (auto simp: node_ok_def pending_ok_def intro: votes_ok_gwf)
  moreover have "\<exists>t. getTimer n = Inr t" "\<exists>i. LeaderFor (cluster n) v = Inr i" for v
    using ok by (simp_all add: node_ok_def timers_ok_getTimer)
  ultimately show ?thesis by simp
qed

lemma reachable_states_well_formed_witness:
  "gget (s_prepares (slotAt exBackup_prepared (SlotId 0 2))) 3 = Some (exPrepare 3) \<and>
    p_Number (sp_PrepareMessage (exPrepare 3)) = SlotId 0 2 \<and> p_Node (sp_PrepareMessage (exPrepare 3)) = 3"
proof -
  have "gget (s_prepares (slotAt exBackup_prepared (SlotId 0 2))) 3 = Some (exPrepare 3)"
    by (simp add: exBackup_prepared_def exSlot2_def slotAt_def gget_def)
  with reachable_states_well_formed [OF exBackup_prepared_reachable] show ?thesis by blast
qed

end
