(* ===== verification/Loop_Variable.thy ===== *)
theory Loop_Variable
  imports Progress
begin

text \<open>
  What the shared loop variable of \<open>handleNewView\<close> does: every slot that a new view fills holds the
  request of the proposal which the loop enumerates last. Go enumerates a map in any order, so
  two correct replicas can hand over different requests for one slot.
\<close>

section \<open>The loop\<close>

lemma handlePrePrepare_fills:
  assumes "handlePrePrepare C pp n = Inr (n', es)"
  defines "num \<equiv> pp_Number (spp_PrePrepareMessage (fpp_SignedMessage pp))"
  shows "s_request (slotAt n' k) = s_request (slotAt n k) \<or>
    k = num \<and> s_request (slotAt n k) = None \<and> s_request (slotAt n' k) = Some (fpp_Request pp)"
  using assms(1)
proof (cases rule: handlePrePrepare_cases)
  case (accepted n1)
  have upd: "slotAt (m\<lparr>issuedSequenceNumber := i\<rparr>) j = slotAt m j" for m i j by (simp add: slotAt_def)
  from accepted have "s_request (slotAt n' k) = (if k = num then Some (fpp_Request pp) else s_request (slotAt n k))"
    by (auto simp: acceptPrePrepare_def Let_def num_def upd split: sum.splits if_splits)
  with accepted(10) show ?thesis by (simp add: num_def)
qed simp

lemma assignLoopVar_request:
  "s_request (slotAt (assignLoopVar pp ks n) k) = (if k \<in> set ks then Some (fpp_Request pp) else s_request (slotAt n k))"
  unfolding assignLoopVar_def by (induction ks arbitrary: n) auto

lemma newview_preprepares_last:
  assumes "newview_preprepares C pps aliased n = Inr (n', es)" "pps \<noteq> []"
  shows "s_request (slotAt n' k) =
      (if k \<in> set aliased then Some (fpp_Request (snd (last pps))) else s_request (slotAt n' k)) \<and>
    (s_request (slotAt n k) = None \<longrightarrow> s_request (slotAt n' k) \<in> {None, Some (fpp_Request (snd (last pps)))})"
  using assms
proof (induction pps arbitrary: aliased n es)
  case (Cons e rest)
  obtain x pp where e: "e = (x, pp)" by (cases e)
  define n1 where "n1 = assignLoopVar pp aliased n"
  define num where "num = pp_Number (spp_PrePrepareMessage (fpp_SignedMessage pp))"
  have old: "s_request (slotAt n1 k) = (if k \<in> set aliased then Some (fpp_Request pp) else s_request (slotAt n k))"
    by (simp add: n1_def assignLoopVar_request)
  have step: "newview_preprepares C (e # rest) aliased n = (if SeqNumber num > sequenceNumber n1 then
      andThen (handlePrePrepare C pp n1) (\<lambda>n'. newview_preprepares C rest
        (if s_request (slotAt n1 num) = None \<and> s_request (slotAt n' num) \<noteq> None then num # aliased else aliased) n')
      else newview_preprepares C rest aliased n1)"
    by (simp only: e newview_preprepares.simps Let_def n1_def num_def)
  have "\<exists>n2 es2 al. newview_preprepares C rest al n2 = Inr (n', es2) \<and> set aliased \<subseteq> set al \<and>
      (s_request (slotAt n2 k) = s_request (slotAt n1 k) \<or>
       k \<in> set al \<and> s_request (slotAt n1 k) = None \<and> s_request (slotAt n2 k) = Some (fpp_Request pp))"
  proof (cases "SeqNumber num > sequenceNumber n1")
    case False
    with Cons.prems(1) step show ?thesis by auto
  next
    case True
    with Cons.prems(1) obtain n2 es1 es2 where h: "handlePrePrepare C pp n1 = Inr (n2, es1)"
      and r: "newview_preprepares C rest (if s_request (slotAt n1 num) = None \<and> s_request (slotAt n2 num) \<noteq> None
          then num # aliased else aliased) n2 = Inr (n', es2)"
      unfolding step by (auto simp only: if_True andThen_eq_Inr)
    from handlePrePrepare_fills [OF h, of k] r show ?thesis unfolding num_def by fastforce
  qed
  then obtain n2 es2 al where r: "newview_preprepares C rest al n2 = Inr (n', es2)" and al: "set aliased \<subseteq> set al"
    and n2: "s_request (slotAt n2 k) = s_request (slotAt n1 k) \<or>
       k \<in> set al \<and> s_request (slotAt n1 k) = None \<and> s_request (slotAt n2 k) = Some (fpp_Request pp)" by blast
  show ?case
  proof (cases "rest = []")
    case True
    then have "n' = n2" using r by (simp add: ret_def)
    with n2 old True e show ?thesis by auto
  next
    case False
    from Cons.IH [OF r False] al n2 old False show ?thesis by (auto split: if_splits)
  qed
qed simp

lemma enterNewView_slots: "slotAt (enterNewView v n) k = slotAt n k"
  by (simp add: slotAt_def enterNewView_def)

text \<open>C34: Every slot that a new view fills holds the request of the proposal that the loop over the
  message's map enumerates last, whichever slot that one is for: the slots keep pointers to
  the one loop variable. The digest in the slot is still its own.\<close>

theorem new_view_fills_with_last:
  assumes "handleNewView C m n = Inr (n', es)" "s_request (slotAt n k) = None" "s_request (slotAt n' k) = Some r"
  shows "r = fpp_Request (snd (last (nv_PrePrepares (snv_Message m))))"
proof (cases "nv_PrePrepares (snv_Message m) = []")
  case True
  with assms show ?thesis by (auto simp: handleNewView_def Let_def enterNewView_slots ret_def split: if_splits)
next
  case False
  let ?v = "nv_ViewNumber (snv_Message m)"
  from assms have "newview_preprepares C (nv_PrePrepares (snv_Message m)) [] (enterNewView ?v n) = Inr (n', es)"
    by (auto simp: handleNewView_def Let_def ret_def split: if_splits)
  from newview_preprepares_last [OF this False, of k] assms(2,3) show ?thesis by (simp add: enterNewView_slots)
qed

section \<open>Two orders of one new view\<close>

text \<open>Node 4 proposes \<open>a\<close> for slot (1, 2) and \<open>b\<close> for slot (1, 3).\<close>

definition exProposal :: "SlotId \<times> string \<Rightarrow> SlotId \<times> FullPrePrepare" where
  "exProposal = (\<lambda>(k, r). (k, \<lparr>fpp_SignedMessage = projr (PrePrepare_Sign example_pgp (exKey 4)
     \<lparr>pp_Number = k, pp_RequestDigest = GenerateDigest r\<rparr>), fpp_Request = r\<rparr>))"

definition exView1 :: "(SlotId \<times> string) list \<Rightarrow> SignedNewView" where
  "exView1 ps = projr (NewView_Sign example_pgp (exKey 4) \<lparr>nv_ViewNumber = 1, nv_ViewChanges = [],
     nv_PrePrepares = map exProposal ps, nv_Node = 4\<rparr>)"

abbreviation exA :: "SlotId \<times> string" where
  "exA \<equiv> (SlotId 1 2, ''a'')"

abbreviation exB :: "SlotId \<times> string" where
  "exB \<equiv> (SlotId 1 3, ''b'')"

text \<open>The votes of node \<open>i\<close>.\<close>

definition exPrepare1 :: "SlotId \<times> string \<Rightarrow> NodeId \<Rightarrow> SignedPrepare" where
  "exPrepare1 = (\<lambda>(k, r) i. projr (Prepare_Sign example_pgp (exKey i)
     \<lparr>p_Number = k, p_RequestDigest = GenerateDigest r, p_Node = i\<rparr>))"

definition exCommit1 :: "SlotId \<times> string \<Rightarrow> NodeId \<Rightarrow> SignedCommit" where
  "exCommit1 = (\<lambda>(k, r) i. projr (Commit_Sign example_pgp (exKey i)
     \<lparr>c_Number = k, c_RequestDigest = GenerateDigest r, c_Node = i\<rparr>))"

text \<open>Node 1 after the new view with these two proposals in this order.\<close>

definition exFilledSlot :: "SlotId \<times> string \<Rightarrow> SlotId \<times> string \<Rightarrow> Slot" where
  "exFilledSlot p q = \<lparr>s_request = Some (snd q), s_requestDigest = GenerateDigest (snd p),
     s_preprepare = Some (fpp_SignedMessage (snd (exProposal q))), s_prepares = [(1, exPrepare1 p 1)], s_commits = [],
     s_prepared = False, s_committed = False\<rparr>"

definition exFilled :: "SlotId \<times> string \<Rightarrow> SlotId \<times> string \<Rightarrow> PBFTNode" where
  "exFilled p q = exBackup\<lparr>viewNumber := 1, issuedSequenceNumber := 3,
     log := [(fst p, exFilledSlot p q), (fst q, exFilledSlot q q)]\<rparr>"

lemma ex_filled:
  assumes "(p, q) \<in> {(exA, exB), (exB, exA)}"
  shows "handleMessages example_pgp (EvNewView (exView1 [p, q])) exBackup =
    Inr (exFilled p q, [Broadcast (RpcPrepare (exPrepare1 p 1)), Broadcast (RpcPrepare (exPrepare1 q 1))])"
  using assms exValid [of 4] leader_of_four
  by (auto simp: ex_step exBackup_simps handleNewView_def currentView_def enterNewView_def startTimers_def
      isPrimary_def exView1_def exProposal_def handlePrePrepare_def acceptPrePrepare_def
      SignedPrePrepare_SignatureValid_def zeroPrePrepare_def assignLoopVar_def getPrimary_def getTimeout_def
      exFilled_def exFilledSlot_def exPrepare1_def)
    (simp_all add: exBackup_eq initNode_def TIMEOUT_def quot64_def wrap64_def)

text \<open>
  Node 1 after the prepare of node 3 for the proposal of slot (1, 2): it is prepared, and node 1
  has voted to commit it. The commit of node 3 for this slot then hands over what the slot holds.
\<close>

definition exVotedSlot :: "SlotId \<times> string \<Rightarrow> Slot" where
  "exVotedSlot q = (exFilledSlot exA q)\<lparr>s_prepares := [(1, exPrepare1 exA 1), (3, exPrepare1 exA 3)],
     s_prepared := True, s_commits := [(1, exCommit1 exA 1)]\<rparr>"

definition exVoted :: "SlotId \<times> string \<Rightarrow> SlotId \<times> string \<Rightarrow> PBFTNode" where
  "exVoted p q = (exFilled p q)\<lparr>log := gput (SlotId 1 2) (exVotedSlot q) (log (exFilled p q))\<rparr>"

lemma ex_filled_voted:
  assumes "(p, q) \<in> {(exA, exB), (exB, exA)}"
  shows "handleMessages example_pgp (EvPrepare (exPrepare1 exA 3)) (exFilled p q) =
    Inr (exVoted p q, [Broadcast (RpcCommit (exCommit1 exA 1))])"
proof -
  from assms consider "p = exA" "q = exB" | "p = exB" "q = exA" by auto
  then show ?thesis
    by cases (use exValid [of 3] leader_of_four in
      \<open>simp_all add: ex_step exBackup_fields isPrimary_def exFilled_def handlePrepare_def
      SignedPrepare_SignatureValid_def isPrepared_def exPrepare1_def exCommit1_def exFilledSlot_def
      exVoted_def exVotedSlot_def\<close>)
qed

lemma ex_filled_commits:
  assumes "(p, q) \<in> {(exA, exB), (exB, exA)}"
  shows "\<exists>n. handleMessages example_pgp (EvCommit (exCommit1 exA 3)) (exVoted p q) =
    Inr (n, [Committed (Some (snd q))])"
proof -
  from assms consider "p = exA" "q = exB" | "p = exB" "q = exA" by auto
  then show ?thesis
    by cases (use exValid [of 3] leader_of_four in
      \<open>simp_all add: ex_step exBackup_fields isPrimary_def exFilled_def handleCommit_def
      SignedCommit_SignatureValid_def isCommitted_def exCommit1_def exFilledSlot_def
      exVoted_def exVotedSlot_def Before_def tryCheckpoint_def\<close>)
qed

lemma new_view_fills_with_last_witness:
  "''b'' = fpp_Request (snd (last (nv_PrePrepares (snv_Message (exView1 [exA, exB])))))"
proof (rule new_view_fills_with_last [where k = "SlotId 1 2" and n = exBackup])
  have "getTimer exBackup = Inr (newTimer 750000000)" by (simp add: exBackup_simps)
  then show "handleNewView example_pgp (exView1 [exA, exB]) exBackup =
      Inr (exFilled exA exB, [Broadcast (RpcPrepare (exPrepare1 exA 1)), Broadcast (RpcPrepare (exPrepare1 exB 1))])"
    using ex_filled [of exA exB] by (simp add: handleMessages_def)
qed (simp_all add: slotAt_def exBackup_fields exFilled_def exFilledSlot_def gget_def emptySlot_def)

text \<open>C9: There is no agreement on the requests of later views: a started replica handles a new view
  whose map proposes \<open>a\<close> for slot (1, 2), a prepare and a commit for exactly this slot; the commit
  hands over \<open>b\<close> when Go enumerates the map in the one order and \<open>a\<close> in the other. No signature is
  forged and the leader is correct.\<close>

theorem no_agreement_in_view_1:
  "started exBackup \<and>
   gsame (nv_PrePrepares (snv_Message (exView1 [exA, exB]))) (nv_PrePrepares (snv_Message (exView1 [exB, exA]))) \<and>
   map_option fpp_Request (gget (nv_PrePrepares (snv_Message (exView1 [exA, exB]))) (SlotId 1 2)) = Some ''a'' \<and>
   c_Number (sc_CommitMessage (exCommit1 exA 3)) = SlotId 1 2 \<and>
   (\<exists>n1 es1 m1 n2 es2 m2.
     handle_all example_pgp [EvNewView (exView1 [exA, exB]), EvPrepare (exPrepare1 exA 3)] exBackup = Inr (n1, es1) \<and>
     handleMessages example_pgp (EvCommit (exCommit1 exA 3)) n1 = Inr (m1, [Committed (Some ''b'')]) \<and>
     handle_all example_pgp [EvNewView (exView1 [exB, exA]), EvPrepare (exPrepare1 exA 3)] exBackup = Inr (n2, es2) \<and>
     handleMessages example_pgp (EvCommit (exCommit1 exA 3)) n2 = Inr (m2, [Committed (Some ''a'')]))"
proof -
  have s: "gsame (nv_PrePrepares (snv_Message (exView1 [exA, exB]))) (nv_PrePrepares (snv_Message (exView1 [exB, exA])))"
    "map_option fpp_Request (gget (nv_PrePrepares (snv_Message (exView1 [exA, exB]))) (SlotId 1 2)) = Some ''a''"
    "c_Number (sc_CommitMessage (exCommit1 exA 3)) = SlotId 1 2"
    by (auto simp: gsame_def gwf_def exView1_def exSign exProposal_def gget_def exCommit1_def)
  have "\<exists>n es n'. handle_all example_pgp [EvNewView (exView1 [p, q]), EvPrepare (exPrepare1 exA 3)] exBackup = Inr (n, es) \<and>
      handleMessages example_pgp (EvCommit (exCommit1 exA 3)) n = Inr (n', [Committed (Some (snd q))])"
    if pq: "(p, q) \<in> {(exA, exB), (exB, exA)}" for p q
    using ex_filled_commits [OF pq] by (simp add: ex_filled [OF pq] ex_filled_voted [OF pq] andThen_def ret_def)
  from this [of exA exB] this [of exB exA] s exBackup_started show ?thesis
    by (simp del: handle_all.simps)
qed

end
