(* ===== verification/Equivocation.thy ===== *)
theory Equivocation
  imports Progress
begin

text \<open>
  One faulty node is enough to break agreement when it is the leader: it signs two pre-prepares for
  one slot. Prepares and commits count whatever digest they carry, so the votes of the
  correct replicas for the one request commit the other at the replica that holds it.
\<close>

section \<open>Any of the three backups\<close>

definition others :: "NodeId \<Rightarrow> NodeId list" where
  "others i = filter (\<lambda>j. j \<noteq> i) [1, 2, 3, 4]"

lemma exPeers_any:
  "i \<in> {1, 2, 3} \<Longrightarrow> StartNode_peers exEnv i (Nodes (localCluster 4)) noPeers = Inr (exPeers (others i))"
  by (elim insertE emptyE)
    (simp_all add: others_def nodes_4 exRead_public noPeers_def exPeers_def exHost_def Let_def ex_signers)

lemma exNode_any:
  assumes "i \<in> {1, 2, 3}"
  shows "StartNode exEnv (localNode i) (localCluster 4) = Inr (exNode i)"
  using exPeers_any [OF assms] exRead_private [of i] assms
  by (auto simp: StartNode_def exNode_def leader_of_four others_def)

lemma exNode_eq:
  assumes "i \<in> {1, 2, 3}"
  shows "exNode i = (initNode (localNode i) (localCluster 4) (exKey i) (exPeers (others i)))
     \<lparr>timeoutTimer := Some (newTimer 750000000)\<rparr>"
  using assms
  by (elim insertE emptyE)
    (simp_all add: others_def exNode_def startTimers_def isPrimary_def initNode_def leader_of_four getTimeout_def
      quot64_def wrap64_def TIMEOUT_def exPeers_def gput_def)

lemma exNode_fields:
  assumes "i \<in> {1, 2, 3}"
  shows "node_id (exNode i) = i" "node_entity (exNode i) = exKey i" "length (peermap (exNode i)) = 3"
    "cluster (exNode i) = localCluster 4" "peerEntityMap (exNode i) = ps_entityMap (exPeers (others i))"
    "peerEntities (exNode i) = map exKey (others i)" "log (exNode i) = []" "viewNumber (exNode i) = 0"
    "sequenceNumber (exNode i) = 1" "issuedSequenceNumber (exNode i) = 1"
    "viewChange (exNode i) = \<lparr>vci_messages = [], vci_inProgress = False, vci_viewNumber = 0\<rparr>"
    "lastCheckpoint (exNode i) = initCheckpoint" "timeoutTimer (exNode i) = Some (newTimer 750000000)"
    "\<not> isPrimary (exNode i)" "getPrimary (exNode i) = (4, exHost 4)" "getTimeout (exNode i) = 750000000"
  using assms
  by (elim insertE emptyE;
      simp add: others_def exNode_eq initNode_def exPeers_def gput_def isPrimary_def leader_of_four getPrimary_def gget_def
        getTimeout_def quot64_def wrap64_def TIMEOUT_def)+

lemma exNode_timer: "i \<in> {1, 2, 3} \<Longrightarrow> (exNode i)\<lparr>timeoutTimer := Some (newTimer 750000000)\<rparr> = exNode i"
  by (simp add: exNode_eq)

lemma exValid_any:
  assumes "i \<in> {1, 2, 3}" "j \<in> {1, 2, 3, 4}" "j \<noteq> i"
  shows "signer_id example_pgp (map exKey (others i)) (ps_entityMap (exPeers (others i))) doc
     (Fingerprint (exKey j) @ json_Encode doc) = Inr j"
  using assms by (elim insertE emptyE) (auto simp: others_def signer_id_def example_pgp_def exPeers_def ex_signers)

section \<open>One slot, two requests\<close>

text \<open>The pre-prepare of the leader for the request \<open>r\<close>, and the votes of node \<open>j\<close> for it.\<close>

definition exOffer :: "string \<Rightarrow> FullPrePrepare" where
  "exOffer r = \<lparr>fpp_SignedMessage = projr (PrePrepare_Sign example_pgp (exKey 4)
     \<lparr>pp_Number = SlotId 0 2, pp_RequestDigest = GenerateDigest r\<rparr>), fpp_Request = r\<rparr>"

definition exPrepareFor :: "string \<Rightarrow> NodeId \<Rightarrow> SignedPrepare" where
  "exPrepareFor r j = projr (Prepare_Sign example_pgp (exKey j)
     \<lparr>p_Number = SlotId 0 2, p_RequestDigest = GenerateDigest r, p_Node = j\<rparr>)"

definition exCommitFor :: "string \<Rightarrow> NodeId \<Rightarrow> SignedCommit" where
  "exCommitFor r j = projr (Commit_Sign example_pgp (exKey j)
     \<lparr>c_Number = SlotId 0 2, c_RequestDigest = GenerateDigest r, c_Node = j\<rparr>)"

text \<open>
  Node \<open>i\<close> with the request \<open>r\<close> in the slot; then with the prepare of node \<open>j\<close> for \<open>r'\<close>, which makes
  it sign a commit for \<open>r'\<close>.
\<close>

definition exOfferSlot :: "NodeId \<Rightarrow> string \<Rightarrow> Slot" where
  "exOfferSlot i r = \<lparr>s_request = Some r, s_requestDigest = GenerateDigest r,
     s_preprepare = Some (fpp_SignedMessage (exOffer r)), s_prepares = [(i, exPrepareFor r i)], s_commits = [],
     s_prepared = False, s_committed = False\<rparr>"

definition exOffered :: "NodeId \<Rightarrow> string \<Rightarrow> PBFTNode" where
  "exOffered i r = (exNode i)\<lparr>issuedSequenceNumber := 2, log := [(SlotId 0 2, exOfferSlot i r)]\<rparr>"

definition exVoted :: "NodeId \<Rightarrow> string \<Rightarrow> string \<Rightarrow> NodeId \<Rightarrow> PBFTNode" where
  "exVoted i r r' j = (exOffered i r)\<lparr>log := [(SlotId 0 2, (exOfferSlot i r)
     \<lparr>s_prepares := [(i, exPrepareFor r i), (j, exPrepareFor r' j)], s_commits := [(i, exCommitFor r' i)],
      s_prepared := True\<rparr>)]\<rparr>"

lemma ex_offered:
  assumes "i \<in> {1, 2, 3}"
  shows "handleMessages example_pgp (EvPrePrepare (exOffer r)) (exNode i) =
    Inr (exOffered i r, [Broadcast (RpcPrepare (exPrepareFor r i))])"
proof -
  have "4 \<noteq> i" using assms by auto
  from exValid_any [OF assms _ this] show ?thesis
    by (simp add: ex_step exNode_fields [OF assms] exNode_timer [OF assms] handlePrePrepare_def acceptPrePrepare_def
      SignedPrePrepare_SignatureValid_def zeroPrePrepare_def exOffer_def exPrepareFor_def exOffered_def exOfferSlot_def)
qed

lemma ex_voted:
  assumes "i \<in> {1, 2, 3}" "j \<in> {1, 2, 3}" "j \<noteq> i"
  shows "handleMessages example_pgp (EvPrepare (exPrepareFor r' j)) (exOffered i r) =
    Inr (exVoted i r r' j, [Broadcast (RpcCommit (exCommitFor r' i))])"
proof -
  have p: "\<not> isPrimary (exOffered i r)" using exNode_fields [OF assms(1)] by (simp add: exOffered_def isPrimary_def)
  have "j \<in> {1, 2, 3, 4}" using assms(2) by blast
  from exValid_any [OF assms(1) this assms(3)] p assms(3) show ?thesis
    by (simp add: ex_step exNode_fields [OF assms(1)] handlePrepare_def SignedPrepare_SignatureValid_def isPrepared_def
      exPrepareFor_def exCommitFor_def exOffered_def exOfferSlot_def exVoted_def)
qed

lemma ex_delivered:
  assumes "i \<in> {1, 2, 3}" "j \<in> {1, 2, 3}" "j \<noteq> i"
  shows "\<exists>n. handleMessages example_pgp (EvCommit (exCommitFor r' j)) (exVoted i r r' j) = Inr (n, [Committed (Some r)])"
proof -
  have p: "\<not> isPrimary (exVoted i r r' j)" using exNode_fields [OF assms(1)] by (simp add: exVoted_def exOffered_def isPrimary_def)
  have "j \<in> {1, 2, 3, 4}" using assms(2) by blast
  from exValid_any [OF assms(1) this assms(3)] p assms(3) show ?thesis
    by (simp add: ex_step exNode_fields [OF assms(1)] handleCommit_def SignedCommit_SignatureValid_def isCommitted_def
      Before_def tryCheckpoint_def exCommitFor_def exOffered_def exOfferSlot_def exVoted_def)
qed

text \<open>C8: A faulty leader alone breaks agreement, in a cluster of four nodes that should stand one faulty
  node: it signs the pre-prepares of \<open>a\<close> and \<open>b\<close> for one slot and sends the one to nodes 1 and 3 and
  the other to node 2; with the votes of node 3 node 1 hands over \<open>a\<close> and node 2 hands over \<open>b\<close>.
  The three replicas run the code from their start, and broadcast every vote that is handled.\<close>

theorem faulty_leader_splits_replicas:
  "\<exists>pa pb p1 p3 c3 n1 es1 n2 es2 n3 es3.
     started (exNode 1) \<and> started (exNode 2) \<and> started (exNode 3) \<and>
     pp_Number (spp_PrePrepareMessage (fpp_SignedMessage pa)) = pp_Number (spp_PrePrepareMessage (fpp_SignedMessage pb)) \<and>
     handle_all example_pgp [EvPrePrepare pa, EvPrepare p3, EvCommit c3] (exNode 1) = Inr (n1, es1) \<and>
     handle_all example_pgp [EvPrePrepare pb, EvPrepare p3, EvCommit c3] (exNode 2) = Inr (n2, es2) \<and>
     handle_all example_pgp [EvPrePrepare pa, EvPrepare p1] (exNode 3) = Inr (n3, es3) \<and>
     Broadcast (RpcPrepare p1) \<in> set es1 \<and> Broadcast (RpcPrepare p3) \<in> set es3 \<and> Broadcast (RpcCommit c3) \<in> set es3 \<and>
     Committed (Some ''a'') \<in> set es1 \<and> Committed (Some ''b'') \<in> set es2"
proof -
  have run: "\<exists>n. handle_all example_pgp [EvPrePrepare (exOffer r), EvPrepare (exPrepareFor ''a'' 3), EvCommit (exCommitFor ''a'' 3)]
      (exNode i) = Inr (n, [Broadcast (RpcPrepare (exPrepareFor r i)), Broadcast (RpcCommit (exCommitFor ''a'' i)), Committed (Some r)])"
    if "i \<in> {1, 2}" for i r
    using ex_offered [of i r] ex_voted [of i 3 "''a''" r] ex_delivered [of i 3 "''a''" r] that
    by (auto simp: andThen_def ret_def)
  have "handle_all example_pgp [EvPrePrepare (exOffer ''a''), EvPrepare (exPrepareFor ''a'' 1)] (exNode 3) =
      Inr (exVoted 3 ''a'' ''a'' 1, [Broadcast (RpcPrepare (exPrepareFor ''a'' 3)), Broadcast (RpcCommit (exCommitFor ''a'' 3))])"
    using ex_offered [of 3 "''a''"] ex_voted [of 3 1 "''a''" "''a''"] by (simp add: andThen_def ret_def)
  moreover from run [of 1 "''a''"] obtain n1 where "handle_all example_pgp
      [EvPrePrepare (exOffer ''a''), EvPrepare (exPrepareFor ''a'' 3), EvCommit (exCommitFor ''a'' 3)] (exNode 1) =
      Inr (n1, [Broadcast (RpcPrepare (exPrepareFor ''a'' 1)), Broadcast (RpcCommit (exCommitFor ''a'' 1)), Committed (Some ''a'')])"
    by auto
  moreover from run [of 2 "''b''"] obtain n2 where "handle_all example_pgp
      [EvPrePrepare (exOffer ''b''), EvPrepare (exPrepareFor ''a'' 3), EvCommit (exCommitFor ''a'' 3)] (exNode 2) =
      Inr (n2, [Broadcast (RpcPrepare (exPrepareFor ''b'' 2)), Broadcast (RpcCommit (exCommitFor ''a'' 2)), Committed (Some ''b'')])"
    by auto
  moreover have "started (exNode i)" if "i \<in> {1, 2, 3}" for i using exNode_any [OF that] unfolding started_def by blast
  moreover have "pp_Number (spp_PrePrepareMessage (fpp_SignedMessage (exOffer ''a''))) =
      pp_Number (spp_PrePrepareMessage (fpp_SignedMessage (exOffer ''b'')))"
    by (simp add: exOffer_def exSign)
  ultimately show ?thesis
    by (intro exI [of _ "exOffer ''a''"] exI [of _ "exOffer ''b''"] exI [of _ "exPrepareFor ''a'' 1"]
      exI [of _ "exPrepareFor ''a'' 3"] exI [of _ "exCommitFor ''a'' 3"] exI [of _ n1] exI [of _ n2]) simp
qed

end
