(* ===== verification/Json_Decode.thy ===== *)
theory Json_Decode
  imports Json
begin

text \<open>
  What the key server and the authority use of \<open>json.Unmarshal\<close>, of \<open>json.Decoder.Decode\<close> and
  of \<open>base64.StdEncoding.DecodeString\<close>. A parser reads the value at the start of a document and
  returns what follows it; \<open>Unmarshal\<close> wants nothing but white space there, a decoder of a
  stream does not look. A parsed value is then stored into a map of strings or into the
  fields of a struct; a document of another type is an error, and every caller gives up on
  an error, so a partly filled target is not modelled.
\<close>

section \<open>String literals\<close>

definition quoteC :: char where "quoteC = char_of (34 :: nat)"
definition backslashC :: char where "backslashC = char_of (92 :: nat)"

definition hex_val :: "char \<Rightarrow> nat option" where
  "hex_val c =
     (let b = of_char c :: nat
      in if 48 \<le> b \<and> b \<le> 57 then Some (b - 48)
         else if 97 \<le> b \<and> b \<le> 102 then Some (b - 87)
         else if 65 \<le> b \<and> b \<le> 70 then Some (b - 55) else None)"

fun hex4 :: "string \<Rightarrow> (nat \<times> string) option" where
  "hex4 (a # b # c # d # rest) =
     (case (hex_val a, hex_val b, hex_val c, hex_val d) of
        (Some a, Some b, Some c, Some d) \<Rightarrow> Some (4096 * a + 256 * b + 16 * c + d, rest)
      | _ \<Rightarrow> None)"
| "hex4 _ = None"

text \<open>A second \<open>\u\<close> escape that completes a surrogate pair.\<close>

definition low_surrogate :: "nat \<Rightarrow> string \<Rightarrow> (int \<times> string) option" where
  "low_surrogate r s =
     (if 55296 \<le> r \<and> r < 56320 \<and> take 2 s = [backslashC, CHR ''u''] then
        (case hex4 (drop 2 s) of
           None \<Rightarrow> None
         | Some (r2, rest) \<Rightarrow>
             if 56320 \<le> r2 \<and> r2 < 57344 then Some (int ((r - 55296) * 1024 + (r2 - 56320) + 65536), rest)
             else None)
      else None)"

definition simple_escape :: "char \<Rightarrow> char option" where
  "simple_escape e =
     (if e = quoteC \<or> e = backslashC \<or> e = CHR ''/'' then Some e
      else if e = CHR ''b'' then Some (char_of (8 :: nat)) else if e = CHR ''f'' then Some (char_of (12 :: nat))
      else if e = CHR ''n'' then Some (char_of (10 :: nat)) else if e = CHR ''r'' then Some (char_of (13 :: nat))
      else if e = CHR ''t'' then Some (char_of (9 :: nat)) else None)"

definition prepend :: "string \<Rightarrow> (string \<times> string) option \<Rightarrow> (string \<times> string) option" where
  "prepend p r = map_option (\<lambda>(s, rest). (p @ s, rest)) r"

lemma hex4_shorter: "hex4 s = Some (r, rest) \<Longrightarrow> length rest < length s"
  by (cases s rule: hex4.cases) (auto split: option.splits)

lemma low_surrogate_shorter: "low_surrogate r s = Some (k, rest) \<Longrightarrow> length rest < length s"
  by (auto simp: low_surrogate_def split: if_splits option.splits dest!: hex4_shorter)

text \<open>The text after the opening quote: its value and what follows the closing quote.\<close>

function unquote :: "string \<Rightarrow> (string \<times> string) option" where
  "unquote s =
     (case s of
        [] \<Rightarrow> None
      | c # cs \<Rightarrow>
          if c = quoteC then Some ([], cs)
          else if c = backslashC then
            (case cs of
               [] \<Rightarrow> None
             | e # rest \<Rightarrow>
                 if e = CHR ''u'' then
                   (case hex4 rest of
                      None \<Rightarrow> None
                    | Some (r, rest') \<Rightarrow>
                        if 55296 \<le> r \<and> r < 57344 then
                          (case low_surrogate r rest' of
                             Some (k, rest'') \<Rightarrow> prepend (encode_rune k) (unquote rest'')
                           | None \<Rightarrow> prepend (encode_rune 65533) (unquote rest'))
                        else prepend (encode_rune (int r)) (unquote rest'))
                 else (case simple_escape e of
                         None \<Rightarrow> None | Some x \<Rightarrow> prepend [x] (unquote rest)))
          else if (of_char c :: nat) < 32 then None
          else
            let n = utf8_size (bytes_nat s)
            in if n = 0 then prepend (encode_rune 65533) (unquote cs)
               else prepend (take n s) (unquote (drop n s)))"
  by pat_completeness auto
termination
  by (relation "measure length") (auto dest!: hex4_shorter low_surrogate_shorter)

declare unquote.simps [simp del]

lemma prepend_Some: "prepend p r = Some (s, rest) \<longleftrightarrow> (\<exists>s'. r = Some (s', rest) \<and> s = p @ s')"
  by (auto simp: prepend_def)

lemma unquote_shorter: "unquote s = Some (x, rest) \<Longrightarrow> length rest < length s"
proof (induction "length s" arbitrary: s x rule: less_induct)
  case less
  have IH: "length rest < length s" if "unquote t = Some (y, rest)" "length t < length s" for t y
    using less.hyps [OF that(2) that(1)] that(2) by simp
  show ?case
  proof (cases s)
    case Nil
    with less.prems show ?thesis by (simp add: unquote.simps)
  next
    case (Cons c cs)
    with less.prems IH show ?thesis
      by (subst (asm) unquote.simps)
        (auto simp: prepend_Some Let_def split: if_splits list.splits option.splits prod.splits
          dest!: hex4_shorter low_surrogate_shorter)
  qed
qed

section \<open>Tokens\<close>

datatype token =
    TNull | TTrue | TFalse
  | TNum string
  | TStr string
  | TComma | TColon | TLBrace | TRBrace | TLBracket | TRBracket

definition is_ws :: "char \<Rightarrow> bool" where
  "is_ws c \<longleftrightarrow> c \<in> {CHR '' '', char_of (9 :: nat), char_of (10 :: nat), char_of (13 :: nat)}"

definition is_digit :: "char \<Rightarrow> bool" where
  "is_digit c \<longleftrightarrow> digit_of c \<noteq> None"

text \<open>The parts of a number: the integer, the fraction and the exponent; each leaves the rest.\<close>

definition scan_int :: "string \<Rightarrow> (string \<times> string) option" where
  "scan_int s =
     (case s of
        [] \<Rightarrow> None
      | c # cs \<Rightarrow>
          if c = CHR ''0'' then Some ([c], cs)
          else if is_digit c then Some (takeWhile is_digit s, dropWhile is_digit s) else None)"

definition scan_digits :: "string \<Rightarrow> (string \<times> string) option" where
  "scan_digits s =
     (if takeWhile is_digit s = [] then None else Some (takeWhile is_digit s, dropWhile is_digit s))"

definition scan_frac :: "string \<Rightarrow> (string \<times> string) option" where
  "scan_frac s = (if take 1 s = ''.'' then prepend ''.'' (scan_digits (drop 1 s)) else Some ([], s))"

definition scan_exp :: "string \<Rightarrow> (string \<times> string) option" where
  "scan_exp s =
     (if take 1 s = ''e'' \<or> take 1 s = ''E'' then
        (if take 1 (drop 1 s) = ''+'' \<or> take 1 (drop 1 s) = ''-''
         then prepend (take 2 s) (scan_digits (drop 2 s)) else prepend (take 1 s) (scan_digits (drop 1 s)))
      else Some ([], s))"

definition scan_number :: "string \<Rightarrow> (string \<times> string) option" where
  "scan_number s =
     (let sign = (if take 1 s = ''-'' then ''-'' else [])
      in case scan_int (drop (length sign) s) of
           None \<Rightarrow> None
         | Some (i, r) \<Rightarrow>
             (case scan_frac r of
                None \<Rightarrow> None
              | Some (f, r') \<Rightarrow> prepend (sign @ i @ f) (scan_exp r')))"

definition token_at :: "string \<Rightarrow> (token \<times> string) option" where
  "token_at s =
     (case s of
        [] \<Rightarrow> None
      | c # cs \<Rightarrow>
          if c = quoteC then map_option (\<lambda>(x, r). (TStr x, r)) (unquote cs)
          else if c = CHR '','' then Some (TComma, cs) else if c = CHR '':'' then Some (TColon, cs)
          else if c = CHR ''{'' then Some (TLBrace, cs) else if c = CHR ''}'' then Some (TRBrace, cs)
          else if c = CHR ''['' then Some (TLBracket, cs) else if c = CHR '']'' then Some (TRBracket, cs)
          else if take 4 s = ''null'' then Some (TNull, drop 4 s)
          else if take 4 s = ''true'' then Some (TTrue, drop 4 s)
          else if take 5 s = ''false'' then Some (TFalse, drop 5 s)
          else map_option (\<lambda>(x, r). (TNum x, r)) (scan_number s))"

definition next_token :: "string \<Rightarrow> (token \<times> string) option" where
  "next_token s = token_at (dropWhile is_ws s)"

lemma scan_digits_shorter: "scan_digits s = Some (x, r) \<Longrightarrow> length r < length s"
  by (cases s) (auto simp: scan_digits_def length_dropWhile_le less_Suc_eq_le split: if_splits)

lemma scan_int_shorter: "scan_int s = Some (x, r) \<Longrightarrow> length r < length s"
  by (cases s) (auto simp: scan_int_def length_dropWhile_le less_Suc_eq_le split: if_splits)

lemma scan_frac_le: "scan_frac s = Some (x, r) \<Longrightarrow> length r \<le> length s"
  by (cases s) (auto simp: scan_frac_def prepend_Some dest!: scan_digits_shorter split: if_splits)

lemma scan_exp_le: "scan_exp s = Some (x, r) \<Longrightarrow> length r \<le> length s"
  by (auto simp: scan_exp_def prepend_Some dest!: scan_digits_shorter split: if_splits)

lemma scan_number_shorter: "scan_number s = Some (x, r) \<Longrightarrow> length r < length s"
  by (cases s)
    (auto simp: scan_number_def prepend_Some Let_def
      dest!: scan_int_shorter scan_frac_le scan_exp_le split: if_splits option.splits)

lemma token_at_shorter: "token_at s = Some (t, r) \<Longrightarrow> length r < length s"
  by (cases s) (auto simp: token_at_def dest!: unquote_shorter scan_number_shorter split: if_splits option.splits)

lemma next_token_shorter: "next_token s = Some (t, r) \<Longrightarrow> length r < length s"
  unfolding next_token_def by (meson token_at_shorter length_dropWhile_le order_less_le_trans)

section \<open>Values\<close>

datatype jval =
    VNull
  | VBool bool
  | VNum string
  | VStr string
  | VArr "jval list"
  | VObj "(string \<times> jval) list"

text \<open>
  The arrays and objects around the current position, innermost first: the elements read so
  far (latest first), and for an object the key of the current member.
\<close>

datatype frame =
    InArr "jval list"
  | InObj "(string \<times> jval) list" string

datatype task = Want | Got jval

definition member_key :: "string \<Rightarrow> (string \<times> string) option" where
  "member_key s =
     (case next_token s of
        Some (TStr k, r) \<Rightarrow> (case next_token r of Some (TColon, r') \<Rightarrow> Some (k, r') | _ \<Rightarrow> None)
      | _ \<Rightarrow> None)"

lemma member_key_shorter: "member_key s = Some (k, r) \<Longrightarrow> length r < length s"
  by (auto simp: member_key_def dest!: next_token_shorter split: option.splits token.splits)

function parse :: "task \<Rightarrow> frame list \<Rightarrow> string \<Rightarrow> (jval \<times> string) option" where
  "parse Want st s =
     (case next_token s of
        Some (TNull, r) \<Rightarrow> parse (Got VNull) st r
      | Some (TTrue, r) \<Rightarrow> parse (Got (VBool True)) st r
      | Some (TFalse, r) \<Rightarrow> parse (Got (VBool False)) st r
      | Some (TNum x, r) \<Rightarrow> parse (Got (VNum x)) st r
      | Some (TStr x, r) \<Rightarrow> parse (Got (VStr x)) st r
      | Some (TLBracket, r) \<Rightarrow>
          (case next_token r of
             Some (TRBracket, r') \<Rightarrow> parse (Got (VArr [])) st r'
           | _ \<Rightarrow> parse Want (InArr [] # st) r)
      | Some (TLBrace, r) \<Rightarrow>
          (case next_token r of
             Some (TRBrace, r') \<Rightarrow> parse (Got (VObj [])) st r'
           | _ \<Rightarrow> (case member_key r of None \<Rightarrow> None | Some (k, r') \<Rightarrow> parse Want (InObj [] k # st) r'))
      | _ \<Rightarrow> None)"
| "parse (Got v) [] s = Some (v, s)"
| "parse (Got v) (InArr xs # st) s =
     (case next_token s of
        Some (TComma, r) \<Rightarrow> parse Want (InArr (v # xs) # st) r
      | Some (TRBracket, r) \<Rightarrow> parse (Got (VArr (rev (v # xs)))) st r
      | _ \<Rightarrow> None)"
| "parse (Got v) (InObj kvs k # st) s =
     (case next_token s of
        Some (TComma, r) \<Rightarrow>
          (case member_key r of None \<Rightarrow> None | Some (k', r') \<Rightarrow> parse Want (InObj ((k, v) # kvs) k' # st) r')
      | Some (TRBrace, r) \<Rightarrow> parse (Got (VObj (rev ((k, v) # kvs)))) st r
      | _ \<Rightarrow> None)"
  by pat_completeness auto
termination
  by (relation "measure (\<lambda>(_, _, s). length s)") (auto dest!: next_token_shorter member_key_shorter)

declare parse.simps(1,3,4) [simp del]

section \<open>Documents into Go values\<close>

text \<open>The characters of a byte slice.\<close>

definition chars_of :: "byte list \<Rightarrow> string" where
  "chars_of bs = map (\<lambda>b. char_of (unat b)) bs"

text \<open>\<open>Unmarshal\<close> reads a whole document; \<open>Decode\<close> the value at the start of a stream.\<close>

definition parse_document :: "byte list \<Rightarrow> jval option" where
  "parse_document data =
     (case parse Want [] (chars_of data) of
        None \<Rightarrow> None
      | Some (v, r) \<Rightarrow> if dropWhile is_ws r = [] then Some v else None)"

definition parse_stream :: "byte list \<Rightarrow> jval option" where
  "parse_stream data = map_option fst (parse Want [] (chars_of data))"

text \<open>
  A string, an \<open>int64\<close>, a map of strings. \<open>null\<close> leaves a string or a number as it is (\<open>old\<close>)
  and makes a map nil; a later member of an object overwrites an earlier one.
\<close>

definition into_string :: "string \<Rightarrow> jval \<Rightarrow> string option" where
  "into_string old v = (case v of VStr s \<Rightarrow> Some s | VNull \<Rightarrow> Some old | _ \<Rightarrow> None)"

definition into_int64 :: "int \<Rightarrow> jval \<Rightarrow> int option" where
  "into_int64 old v = (case v of VNum x \<Rightarrow> Atoi x | VNull \<Rightarrow> Some old | _ \<Rightarrow> None)"

fun into_entries :: "(string \<times> jval) list \<Rightarrow> (string, string) gomap \<Rightarrow> (string, string) gomap option" where
  "into_entries [] m = Some m"
| "into_entries ((k, v) # kvs) m =
     (case into_string [] v of None \<Rightarrow> None | Some x \<Rightarrow> into_entries kvs (gput k x m))"

definition Unmarshal_map :: "byte list \<Rightarrow> (string, string) gomap option option" where
  "Unmarshal_map data =
     (case parse_document data of
        Some VNull \<Rightarrow> Some None
      | Some (VObj kvs) \<Rightarrow> map_option Some (into_entries kvs [])
      | _ \<Rightarrow> None)"

text \<open>
  The fields of a struct are found by their name without regard to case; the Kelvin sign
  and the long s fold to \<open>k\<close> and \<open>s\<close>. Members with other names are ignored. The target is
  updated by \<open>assign\<close>, which is \<open>None\<close> for a value of the wrong type.
\<close>

fun fold_case :: "nat list \<Rightarrow> nat list" where
  "fold_case [] = []"
| "fold_case (b # bs) =
     (if b = 226 \<and> take 2 bs = [132, 170] then 107 # fold_case (drop 2 bs)
      else if b = 197 \<and> take 1 bs = [191] then 115 # fold_case (drop 1 bs)
      else (if 65 \<le> b \<and> b \<le> 90 then b + 32 else b) # fold_case bs)"

definition names :: "string \<Rightarrow> string \<Rightarrow> bool" where
  "names key field \<longleftrightarrow> fold_case (bytes_nat key) = fold_case (bytes_nat field)"

fun into_struct :: "(string \<Rightarrow> jval \<Rightarrow> 's \<Rightarrow> 's option) \<Rightarrow> (string \<times> jval) list \<Rightarrow> 's \<Rightarrow> 's option" where
  "into_struct assign [] x = Some x"
| "into_struct assign ((k, v) # kvs) x =
     (case assign k v x of None \<Rightarrow> None | Some y \<Rightarrow> into_struct assign kvs y)"

definition decode_struct :: "(string \<Rightarrow> jval \<Rightarrow> 's \<Rightarrow> 's option) \<Rightarrow> 's \<Rightarrow> jval option \<Rightarrow> 's option" where
  "decode_struct assign x doc =
     (case doc of Some VNull \<Rightarrow> Some x | Some (VObj kvs) \<Rightarrow> into_struct assign kvs x | _ \<Rightarrow> None)"

section \<open>Base64\<close>

definition b64_val :: "char \<Rightarrow> nat option" where
  "b64_val c =
     (let b = of_char c :: nat
      in if 65 \<le> b \<and> b \<le> 90 then Some (b - 65) else if 97 \<le> b \<and> b \<le> 122 then Some (b - 71)
         else if 48 \<le> b \<and> b \<le> 57 then Some (b + 4) else if c = CHR ''+'' then Some 62
         else if c = CHR ''/'' then Some 63 else None)"

text \<open>The bytes decoded before the first error, and whether there was none.\<close>

fun b64_decode :: "string \<Rightarrow> nat list \<times> bool" where
  "b64_decode [] = ([], True)"
| "b64_decode (a # b # c # d # rest) =
     (case (b64_val a, b64_val b) of
        (Some x, Some y) \<Rightarrow>
          if c = CHR ''='' then
            (if d = CHR ''='' then ([x * 4 + y div 16], rest = []) else ([], False))
          else (case b64_val c of
              None \<Rightarrow> ([], False)
            | Some z \<Rightarrow>
                if d = CHR ''='' then ([x * 4 + y div 16, y mod 16 * 16 + z div 4], rest = [])
                else (case b64_val d of
                    None \<Rightarrow> ([], False)
                  | Some w \<Rightarrow>
                      (let (r, ok) = b64_decode rest
                       in ([x * 4 + y div 16, y mod 16 * 16 + z div 4, z mod 4 * 64 + w] @ r, ok))))
      | _ \<Rightarrow> ([], False))"
| "b64_decode _ = ([], False)"

text \<open>\<open>DecodeString\<close> skips line ends.\<close>

definition DecodeString :: "string \<Rightarrow> byte list \<times> bool" where
  "DecodeString s =
     (let (bs, ok) = b64_decode (filter (\<lambda>c. (of_char c :: nat) \<noteq> 10 \<and> (of_char c :: nat) \<noteq> 13) s)
      in (map word_of_nat bs, ok))"

end
