(* ===== verification/Json_Roundtrip.thy ===== *)
theory Json_Roundtrip
  imports Json_Decode
begin

text \<open>
  The decoder reads back what the encoder writes: every document whose strings are valid UTF-8
  comes back as it was, the other strings with U+FFFD for every invalid byte.
\<close>

section \<open>Strings\<close>

function sanitize :: "string \<Rightarrow> string" where
  "sanitize s =
     (if s = [] then []
      else let n = utf8_size (bytes_nat s)
           in if n = 0 then encode_rune 65533 @ sanitize (drop 1 s) else take n s @ sanitize (drop n s))"
  by pat_completeness auto
termination by (relation "measure length") auto

declare sanitize.simps [simp del]

definition valid_utf8 :: "string \<Rightarrow> bool" where
  "valid_utf8 s \<longleftrightarrow> sanitize s = s"

lemma utf8_size_le: "utf8_size bs \<le> length bs"
  by (cases bs) (auto split: list.splits)

lemma utf8_size_le4: "utf8_size bs \<le> 4"
  by (cases bs) (auto split: list.splits)

lemma utf8_size_prefix: "utf8_size bs = n \<Longrightarrow> 0 < n \<Longrightarrow> utf8_size (take n bs @ cs) = n"
  by (cases bs) (auto split: list.splits if_splits)

lemma utf8_size_1: "utf8_size (b # bs) = Suc 0 \<longleftrightarrow> b < 128"
  by (auto split: list.splits)

lemma utf8_size_more: "utf8_size (b # bs) = n \<Longrightarrow> 1 < n \<Longrightarrow> 194 \<le> b"
  by (auto split: if_splits list.splits)

lemma bytes_nat_simps [simp]:
  "bytes_nat [] = []" "bytes_nat (c # s) = of_char c # bytes_nat s" "bytes_nat (s @ t) = bytes_nat s @ bytes_nat t"
  "length (bytes_nat s) = length s" "bytes_nat (take n s) = take n (bytes_nat s)"
  by (simp_all add: bytes_nat_def take_map)

lemma char_range: "(of_char c :: nat) < 256"
  by (rule nat_of_char_less_256)

lemma char_eqI: "(of_char c :: nat) = of_char d \<Longrightarrow> c = d"
  by simp

text \<open>Hexadecimal digits.\<close>

lemma hex_val_digit: "d < 16 \<Longrightarrow> hex_val (hex_digit d) = Some d"
  by (auto simp: hex_val_def hex_digit_def Let_def)

lemma char_lits: "CHR ''0'' = hex_digit 0" "CHR ''u'' \<noteq> quoteC" "CHR ''u'' \<noteq> backslashC" "backslashC \<noteq> quoteC"
  by (auto simp: hex_digit_def quoteC_def backslashC_def intro: char_eqI dest: arg_cong [where f = "of_char :: char \<Rightarrow> nat"])

lemma encode_rune_byte: "b < 128 \<Longrightarrow> encode_rune (int b) = [char_of b]"
  by (simp add: encode_rune_def Let_def)

lemma unquote_u:
  assumes "hex4 rest = Some (r, rest')" "\<not> (55296 \<le> r \<and> r < 57344)"
  shows "unquote (backslashC # CHR ''u'' # rest) = prepend (encode_rune (int r)) (unquote rest')"
  using assms by (subst unquote.simps) (auto simp: char_lits)

lemma unquote_simple:
  assumes "simple_escape e = Some x"
  shows "unquote (backslashC # e # rest) = prepend [x] (unquote rest)"
  using assms char_lits by (subst unquote.simps) (auto simp: simple_escape_def split: if_splits)

lemma simple_escapes:
  "simple_escape CHR ''n'' = Some (char_of (10 :: nat))" "simple_escape CHR ''r'' = Some (char_of (13 :: nat))"
  "simple_escape CHR ''t'' = Some (char_of (9 :: nat))"
  by code_simp+

lemma unquote_plain:
  assumes "c \<noteq> quoteC" "c \<noteq> backslashC" "32 \<le> (of_char c :: nat)" "utf8_size (bytes_nat (c # cs)) = n" "0 < n"
  shows "unquote (c # cs) = prepend (take n (c # cs)) (unquote (drop n (c # cs)))"
  using assms by (subst unquote.simps) (simp add: Let_def)

lemma unquote_escape_ascii:
  assumes "(of_char c :: nat) < 128"
  shows "unquote (escape_ascii c @ rest) = prepend [c] (unquote rest)"
proof -
  define b where "b = (of_char c :: nat)"
  have c: "c = char_of b" by (simp add: b_def)
  have b: "b < 128" using assms by (simp add: b_def)
  have bs: "char_of (92 :: nat) = backslashC" by (simp add: backslashC_def)
  consider "b = 34 \<or> b = 92" | "b = 10" | "b = 13" | "b = 9"
    | "b < 32 \<or> b = 60 \<or> b = 62 \<or> b = 38" "b \<notin> {34, 92, 10, 13, 9}"
    | "\<not> (b < 32 \<or> b = 60 \<or> b = 62 \<or> b = 38)" "b \<notin> {34, 92, 10, 13, 9}" by blast
  then show ?thesis
  proof cases
    case 1
    then have "escape_ascii c = [backslashC, c]" by (simp add: escape_ascii_def b_def [symmetric] bs)
    moreover have "simple_escape c = Some c"
      using 1 by (auto simp: simple_escape_def c quoteC_def backslashC_def)
    ultimately show ?thesis by (simp add: unquote_simple)
  next
    case 5
    have d: "b div 16 < 16" "b mod 16 < 16" using assms by (simp_all add: b_def [symmetric])
    have "hex4 (CHR ''0'' # CHR ''0'' # hex_digit (b div 16) # hex_digit (b mod 16) # rest) = Some (b, rest)"
      unfolding char_lits(1) using d by (simp add: hex_val_digit)
    moreover have "encode_rune (int b) = [c]" using assms encode_rune_byte [of b] by (simp add: b_def)
    ultimately have "unquote (backslashC # CHR ''u'' # CHR ''0'' # CHR ''0'' # hex_digit (b div 16) # hex_digit (b mod 16) # rest) =
        prepend [c] (unquote rest)"
      using assms by (simp add: unquote_u b_def [symmetric] del: hex4.simps)
    moreover have "escape_ascii c = backslashC # ''u00'' @ [hex_digit (b div 16), hex_digit (b mod 16)]"
      using 5 by (simp add: escape_ascii_def b_def [symmetric] bs)
    ultimately show ?thesis by simp
  next
    case 6
    then have "escape_ascii c = [c]" by (simp add: escape_ascii_def b_def [symmetric])
    moreover have "c \<noteq> quoteC" "c \<noteq> backslashC" using 6 b by (auto simp: c quoteC_def backslashC_def)
    ultimately show ?thesis
      using 6 assms unquote_plain [of c rest 1] by (simp add: b_def)
  next
    case 2
    then have "escape_ascii c = [backslashC, CHR ''n'']" by (simp add: escape_ascii_def b_def [symmetric] bs)
    with simple_escapes 2 show ?thesis by (simp add: unquote_simple c)
  next
    case 3
    then have "escape_ascii c = [backslashC, CHR ''r'']" by (simp add: escape_ascii_def b_def [symmetric] bs)
    with simple_escapes 3 show ?thesis by (simp add: unquote_simple c)
  next
    case 4
    then have "escape_ascii c = [backslashC, CHR ''t'']" by (simp add: escape_ascii_def b_def [symmetric] bs)
    with simple_escapes 4 show ?thesis by (simp add: unquote_simple c)
  qed
qed

lemma hex4_fffd: "hex4 (CHR ''f'' # CHR ''f'' # CHR ''f'' # CHR ''d'' # rest) = Some (65533, rest)"
  by (simp add: hex_val_def)

lemma unquote_fffd:
  "unquote (backslashC # CHR ''u'' # CHR ''f'' # CHR ''f'' # CHR ''f'' # CHR ''d'' # rest) =
    prepend (encode_rune 65533) (unquote rest)"
  using unquote_u [OF hex4_fffd] by simp

lemma unquote_escape_rune:
  assumes n: "utf8_size (bytes_nat s) = n" "1 < n"
  shows "unquote (escape_rune (take n s) @ rest) = prepend (take n s) (unquote rest)"
proof -
  from n obtain c cs where s: "s = c # cs" by (cases s) auto
  have c: "194 \<le> (of_char c :: nat)" using utf8_size_more [of "of_char c" "bytes_nat cs" n] n s by simp
  obtain m where m: "n = Suc m" using n(2) by (cases n) auto
  have len: "length (take n s) = n" using utf8_size_le [of "bytes_nat s"] n by simp
  have bs: "char_of (92 :: nat) = backslashC" by (simp add: backslashC_def)
  have plain: "unquote (take n s @ rest) = prepend (take n s) (unquote rest)"
  proof -
    have "utf8_size (bytes_nat (take n s @ rest)) = n"
      using utf8_size_prefix [OF n(1)] n(2) by simp
    moreover have "take n s @ rest = c # take m cs @ rest" by (simp add: s m)
    moreover have "c \<noteq> quoteC" "c \<noteq> backslashC" "32 \<le> (of_char c :: nat)" using c by (auto simp: quoteC_def backslashC_def)
    moreover have "0 < n" using n(2) by simp
    ultimately have "unquote (take n s @ rest) = prepend (take n (take n s @ rest)) (unquote (drop n (take n s @ rest)))"
      by (metis unquote_plain)
    with len show ?thesis by simp
  qed
  have hexes: "hex4 (CHR ''2'' # CHR ''0'' # CHR ''2'' # CHR ''8'' # rest) = Some (8232, rest)"
    "hex4 (CHR ''2'' # CHR ''0'' # CHR ''2'' # CHR ''9'' # rest) = Some (8233, rest)"
    by (simp_all add: hex_val_def)
  have same: "bytes_nat t = bytes_nat u \<Longrightarrow> t = u" for t u
    unfolding bytes_nat_def by (metis inj_map_eq_map inj_of_char)
  have e1: "encode_rune 8232 = take n s" if "bytes_nat (take n s) = [226, 128, 168]"
    by (rule same, subst that) (simp add: encode_rune_def)
  have e2: "encode_rune 8233 = take n s" if "bytes_nat (take n s) = [226, 128, 169]"
    by (rule same, subst that) (simp add: encode_rune_def)
  show ?thesis
    using plain unquote_u [OF hexes(1)] unquote_u [OF hexes(2)] e1 e2
    by (auto simp del: bytes_nat_simps(5) simp add: escape_rune_def bs)
qed

lemma prepend_prepend [simp]: "prepend p (prepend q r) = prepend (p @ q) r"
  by (cases r) (auto simp: prepend_def)

lemma prepend_of_Some [simp]: "prepend p (Some (s, r)) = Some (p @ s, r)"
  by (simp add: prepend_def)

theorem unquote_escape: "unquote (escape_string s @ quoteC # rest) = Some (sanitize s, rest)"
proof (induction s rule: escape_string.induct)
  case (1 s)
  show ?case
  proof (cases s)
    case Nil
    then show ?thesis
      by (simp add: escape_string.simps sanitize.simps unquote.simps)
  next
    case (Cons c cs)
    then have ne: "s \<noteq> []" by simp
    define n where "n = utf8_size (bytes_nat s)"
    consider "n = 0" | "n = 1" | "1 < n" by linarith
    then show ?thesis
    proof cases
      case 1
      have "unquote (escape_string (drop 1 s) @ quoteC # rest) = Some (sanitize (drop 1 s), rest)"
        using "1.IH"(1) [OF ne n_def 1] .
      with 1 ne show ?thesis
        by (subst escape_string.simps, subst sanitize.simps)
          (simp add: n_def [symmetric] backslashC_def [symmetric] unquote_fffd)
    next
      case 2
      then have "(of_char c :: nat) < 128"
        using utf8_size_1 [of "of_char c" "bytes_nat cs"] Cons by (simp add: n_def)
      moreover have hd: "hd s = c" "take 1 s = [c]" using Cons by simp_all
      moreover have "unquote (escape_string (drop 1 s) @ quoteC # rest) = Some (sanitize (drop 1 s), rest)"
        using "1.IH"(2) [OF ne n_def] 2 by simp
      ultimately show ?thesis
        using 2 ne hd
        by (subst escape_string.simps, subst sanitize.simps)
          (simp add: n_def [symmetric] unquote_escape_ascii del: utf8_size.simps)
    next
      case 3
      have "unquote (escape_string (drop n s) @ quoteC # rest) = Some (sanitize (drop n s), rest)"
        using "1.IH"(3) [OF ne n_def] 3 by simp
      with 3 ne show ?thesis
        by (subst escape_string.simps, subst sanitize.simps)
          (simp add: n_def [symmetric] unquote_escape_rune [OF n_def [symmetric]])
    qed
  qed
qed

section \<open>Decoded strings are valid UTF-8\<close>

lemma sanitize_Nil [simp]: "sanitize [] = []"
  by (simp add: sanitize.simps)

lemma sanitize_step:
  assumes "utf8_size (bytes_nat s) = n" "0 < n"
  shows "sanitize (take n s @ t) = take n s @ sanitize t"
proof -
  have len: "length (take n s) = n" using utf8_size_le [of "bytes_nat s"] assms by simp
  then have ne: "take n s @ t \<noteq> []" using assms(2) by auto
  have "utf8_size (bytes_nat (take n s @ t)) = n" using utf8_size_prefix [OF assms] by simp
  with ne assms(2) len show ?thesis by (subst sanitize.simps) (simp add: Let_def)
qed

lemma digit_ge: "m \<le> q \<Longrightarrow> q div 64 = 0 \<Longrightarrow> m \<le> q mod (64 :: nat)"
  using mult_div_mod_eq [of 64 q] by linarith

lemma digit_less: "q < 64 * k + m \<Longrightarrow> q div 64 = k \<Longrightarrow> q mod (64 :: nat) < m"
  using mult_div_mod_eq [of 64 q] by linarith

lemma rune_size:
  assumes "r < 1114112" "\<not> (55296 \<le> r \<and> r < 57344)"
  shows "utf8_size (bytes_nat (encode_rune (int r))) = length (encode_rune (int r))"
proof -
  consider "r < 128" | "128 \<le> r" "r < 2048" | "2048 \<le> r" "r < 65536" | "65536 \<le> r" by linarith
  then show ?thesis
  proof cases
    case 1
    then show ?thesis by (simp add: encode_rune_byte)
  next
    case 2
    have "2 \<le> r div 64" "r div 64 < 32" using 2 by linarith+
    with 2 show ?thesis by (simp add: encode_rune_def Let_def cont_byte_def)
  next
    case 3
    define a b c where "a = r div 4096" and "b = r div 64 mod 64" and "c = r mod 64"
    have "encode_rune (int r) = [char_of (224 + a), char_of (128 + b), char_of (128 + c)]"
      using 3 assms by (auto simp: encode_rune_def a_def b_def c_def)
    moreover have "a < 16" "b < 64" "c < 64" using 3 by (simp_all add: a_def b_def c_def)
    moreover have "a = 0 \<longrightarrow> 32 \<le> b" "a = 13 \<longrightarrow> b < 32"
    proof -
      have a: "a = r div 64 div 64" by (simp add: a_def div_mult2_eq [symmetric])
      have "32 \<le> r div 64" using 3 by linarith
      then show "a = 0 \<longrightarrow> 32 \<le> b" unfolding a b_def using digit_ge by blast
      have "a = 13 \<longrightarrow> r div 64 < 64 * 13 + 32" using assms unfolding a by linarith
      then show "a = 13 \<longrightarrow> b < 32" unfolding a b_def using digit_less [of "r div 64" 13] by blast
    qed
    ultimately show ?thesis by (auto simp: cont_byte_def)
  next
    case 4
    define a b c d where "a = r div 262144" and "b = r div 4096 mod 64" and "c = r div 64 mod 64" and "d = r mod 64"
    have "encode_rune (int r) = [char_of (240 + a), char_of (128 + b), char_of (128 + c), char_of (128 + d)]"
      using 4 assms by (simp add: encode_rune_def a_def b_def c_def d_def)
    moreover have "a < 5" "b < 64" "c < 64" "d < 64" using assms by (simp_all add: a_def b_def c_def d_def)
    moreover have "a = 0 \<longrightarrow> 16 \<le> b" "a = 4 \<longrightarrow> b < 16"
    proof -
      have a: "a = r div 4096 div 64" by (simp add: a_def div_mult2_eq [symmetric])
      have "16 \<le> r div 4096" "r div 4096 < 64 * 4 + 16" using 4 assms by linarith+
      then show "a = 0 \<longrightarrow> 16 \<le> b" "a = 4 \<longrightarrow> b < 16"
        unfolding a b_def using digit_ge digit_less [of "r div 4096" 4] by blast+
    qed
    ultimately show ?thesis by (auto simp: cont_byte_def)
  qed
qed

lemma encode_rune_cases: "\<exists>r. r < 1114112 \<and> \<not> (55296 \<le> r \<and> r < 57344) \<and> encode_rune k = encode_rune (int r)"
proof (cases "k < 0 \<or> k > 1114111 \<or> (55296 \<le> k \<and> k \<le> 57343)")
  case True
  then have "encode_rune k = encode_rune (int 65533)" by (simp add: encode_rune_def)
  then show ?thesis by (intro exI [of _ 65533]) simp
next
  case False
  then show ?thesis by (intro exI [of _ "nat k"]) auto
qed

lemma sanitize_rune: "sanitize (encode_rune k @ t) = encode_rune k @ sanitize t"
proof -
  from encode_rune_cases obtain r where "r < 1114112" "\<not> (55296 \<le> r \<and> r < 57344)" and k: "encode_rune k = encode_rune (int r)"
    by blast
  then have s: "utf8_size (bytes_nat (encode_rune k)) = length (encode_rune k)" using rune_size by simp
  moreover have "0 < length (encode_rune k)" by (simp add: encode_rune_def Let_def)
  ultimately show ?thesis using sanitize_step [OF s, of t] by simp
qed

lemma sanitize_ascii: "(of_char c :: nat) < 128 \<Longrightarrow> sanitize (c # t) = c # sanitize t"
  using sanitize_step [of "[c]" 1 t] by simp

lemma sanitize_append: "sanitize (sanitize s @ t) = sanitize s @ sanitize t"
proof (induction s rule: sanitize.induct)
  case (1 s)
  show ?case
  proof (cases "s = []")
    case False
    define n where "n = utf8_size (bytes_nat s)"
    show ?thesis
    proof (cases "n = 0")
      case True
      then have "sanitize s = encode_rune 65533 @ sanitize (drop 1 s)"
        using False by (subst sanitize.simps) (simp add: n_def)
      then show ?thesis using "1.IH"(1) [OF False n_def True] by (simp add: sanitize_rune)
    next
      case n: False
      then have "sanitize s = take n s @ sanitize (drop n s)"
        using False by (subst sanitize.simps) (simp add: n_def Let_def)
      then show ?thesis using "1.IH"(2) [OF False n_def n] n by (simp add: sanitize_step [OF n_def [symmetric]])
    qed
  qed simp
qed

lemma valid_sanitize [simp]: "valid_utf8 (sanitize s)"
  using sanitize_append [of s "[]"] by (simp add: valid_utf8_def)

lemma valid_append: "valid_utf8 s \<Longrightarrow> valid_utf8 t \<Longrightarrow> valid_utf8 (s @ t)"
  using sanitize_append [of s t] by (simp add: valid_utf8_def)

lemma valid_ascii: "\<forall>c\<in>set s. (of_char c :: nat) < 128 \<Longrightarrow> valid_utf8 s"
  by (induction s) (auto simp: valid_utf8_def sanitize_ascii)

lemma valid_rune: "valid_utf8 (encode_rune k)"
  using sanitize_rune [of k "[]"] by (simp add: valid_utf8_def)

lemma valid_piece: "utf8_size (bytes_nat s) = n \<Longrightarrow> 0 < n \<Longrightarrow> valid_utf8 (take n s)"
  using sanitize_step [of s n "[]"] by (simp add: valid_utf8_def)

lemma valid_escape: "simple_escape e = Some x \<Longrightarrow> valid_utf8 s \<Longrightarrow> valid_utf8 (x # s)"
  by (rule valid_append [where s = "[x]", simplified], rule valid_ascii)
    (auto simp: simple_escape_def quoteC_def backslashC_def split: if_splits)

lemma unquote_valid: "unquote s = Some (x, rest) \<Longrightarrow> valid_utf8 x"
proof (induction "length s" arbitrary: s x rule: less_induct)
  case less
  have IH: "valid_utf8 y" if "unquote t = Some (y, rest)" "length t < length s" for t y
    using less.hyps [OF that(2) that(1)] .
  show ?case
  proof (cases s)
    case Nil
    with less.prems show ?thesis by (simp add: unquote.simps)
  next
    case (Cons c cs)
    with less.prems IH show ?thesis
      by (subst (asm) unquote.simps)
        (auto simp: prepend_Some Let_def valid_ascii simp del: utf8_size.simps
          split: if_splits list.splits option.splits prod.splits
          dest!: hex4_shorter low_surrogate_shorter intro!: valid_append valid_rune intro: valid_piece valid_escape)
  qed
qed

section \<open>Documents\<close>

fun value_of :: "json \<Rightarrow> jval" where
  "value_of JNull = VNull"
| "value_of (JInt i) = VNum (show_int i)"
| "value_of (JStr s) = VStr (sanitize s)"
| "value_of (JBytes bs) = VStr (base64 (map unat bs))"
| "value_of (JArr xs) = VArr (map value_of xs)"
| "value_of (JObj kvs) = VObj (map (\<lambda>(k, v). (sanitize k, value_of v)) kvs)"

text \<open>A rendered value is followed by the end or by a character that continues no number.\<close>

definition delim :: "string \<Rightarrow> bool" where
  "delim s \<longleftrightarrow> s = [] \<or> hd s \<in> {CHR '','', CHR '']'', CHR ''}'', char_of (10 :: nat)}"

lemma delim_simps [simp]:
  "delim []" "delim (CHR '','' # s)" "delim (CHR '']'' # s)" "delim (CHR ''}'' # s)" "delim (char_of (10 :: nat) # s)"
  by (simp_all add: delim_def)

lemma no_ws: "c \<in> {quoteC, CHR ''['', CHR ''{'', CHR '']'', CHR ''}'', CHR '','', CHR '':'', CHR ''n'', CHR ''-''} \<Longrightarrow> \<not> is_ws c"
  by (elim insertE emptyE; simp only:) code_simp+

lemma next_token_char:
  "next_token (CHR '','' # s) = Some (TComma, s)" "next_token (CHR '':'' # s) = Some (TColon, s)"
  "next_token (CHR ''{'' # s) = Some (TLBrace, s)" "next_token (CHR ''}'' # s) = Some (TRBrace, s)"
  "next_token (CHR ''['' # s) = Some (TLBracket, s)" "next_token (CHR '']'' # s) = Some (TRBracket, s)"
proof -
  have q: "CHR '','' \<noteq> quoteC" "CHR '':'' \<noteq> quoteC" "CHR ''{'' \<noteq> quoteC" "CHR ''}'' \<noteq> quoteC" "CHR ''['' \<noteq> quoteC"
    "CHR '']'' \<noteq> quoteC" by code_simp+
  show "next_token (CHR '','' # s) = Some (TComma, s)" "next_token (CHR '':'' # s) = Some (TColon, s)"
    "next_token (CHR ''{'' # s) = Some (TLBrace, s)" "next_token (CHR ''}'' # s) = Some (TRBrace, s)"
    "next_token (CHR ''['' # s) = Some (TLBracket, s)" "next_token (CHR '']'' # s) = Some (TRBracket, s)"
    by (simp_all add: next_token_def token_at_def no_ws q)
qed

lemma next_token_quoted: "next_token (quote_string s @ rest) = Some (TStr (sanitize s), rest)"
  by (simp add: quote_string_def next_token_def token_at_def no_ws quoteC_def [symmetric] unquote_escape)

lemma next_token_null: "next_token (''null'' @ rest) = Some (TNull, rest)"
proof -
  have "CHR ''n'' \<noteq> quoteC" by code_simp
  then show ?thesis by (simp add: next_token_def token_at_def no_ws)
qed

text \<open>Base64 needs no escapes.\<close>

definition plain :: "char \<Rightarrow> bool" where
  "plain c \<longleftrightarrow> (of_char c :: nat) \<notin> {34, 92} \<and> 32 \<le> (of_char c :: nat) \<and> (of_char c :: nat) < 128"

lemma plain_not: "plain c \<Longrightarrow> c \<noteq> quoteC" "plain c \<Longrightarrow> c \<noteq> backslashC"
  by (auto simp: plain_def quoteC_def backslashC_def)

lemma plain_b64: "d < 64 \<Longrightarrow> plain (b64_char d)"
  by (auto simp: plain_def b64_char_def)

lemma plain_base64: "\<forall>b\<in>set bs. b < 256 \<Longrightarrow> \<forall>c\<in>set (base64 bs). plain c"
proof -
  have e: "plain CHR ''=''" unfolding plain_def by simp
  have d: "a < 256 \<Longrightarrow> a div 4 < 64" "a < 256 \<Longrightarrow> b < 256 \<Longrightarrow> a mod 4 * 16 + b div 16 < 64" "a mod 4 * 16 < 64"
    "c < 256 \<Longrightarrow> b mod 16 * 4 + c div 64 < 64" "b mod 16 * 4 < 64" "c mod 64 < 64" for a b c :: nat
    by linarith+
  show "\<forall>b\<in>set bs. b < 256 \<Longrightarrow> \<forall>c\<in>set (base64 bs). plain c"
    by (induction bs rule: base64.induct) (simp_all add: e plain_b64 d)
qed

lemma unquote_plain_text: "\<forall>c\<in>set s. plain c \<Longrightarrow> unquote (s @ quoteC # rest) = Some (s, rest)"
proof (induction s)
  case Nil
  then show ?case by (simp add: unquote.simps)
next
  case (Cons c s)
  then show ?case
    using unquote_plain [of c "s @ quoteC # rest" 1] plain_not [of c] by (simp add: plain_def)
qed

lemma next_token_bytes:
  "next_token (char_of (34 :: nat) # base64 (map unat (bs :: byte list)) @ char_of (34 :: nat) # rest) = Some (TStr (base64 (map unat bs)), rest)"
proof -
  have "\<forall>b\<in>set (map unat bs). b < 256" by (auto intro: unsigned_less [THEN order_less_le_trans])
  from unquote_plain_text [OF plain_base64 [OF this]] show ?thesis
    by (simp add: next_token_def token_at_def no_ws quoteC_def [symmetric])
qed

text \<open>Numbers.\<close>

lemma show_nat_digits: "\<forall>c\<in>set (show_nat n). is_digit c"
  by (induction n rule: show_nat.induct) (subst show_nat.simps, auto simp: is_digit_def digit_of_def)

lemma show_nat_shape: "\<exists>c cs. show_nat n = c # cs \<and> (c = CHR ''0'' \<longrightarrow> n = 0 \<and> cs = [])"
proof (induction n rule: show_nat.induct)
  case (1 n)
  show ?case
  proof (cases "n < 10")
    case True
    have "n = 0" if "CHR ''0'' = char_of (48 + n)"
      using True arg_cong [OF that, of "of_char :: char \<Rightarrow> nat"] by simp
    with True show ?thesis by (auto simp: show_nat.simps)
  next
    case False
    with 1 obtain c cs where "show_nat (n div 10) = c # cs" "c = CHR ''0'' \<longrightarrow> n div 10 = 0" by blast
    with False show ?thesis by (subst show_nat.simps) auto
  qed
qed

lemma delim_not_digit: "delim s \<Longrightarrow> takeWhile is_digit s = [] \<and> dropWhile is_digit s = s"
  by (cases s) (auto simp: delim_def is_digit_def digit_of_def)

lemma delim_stops: "delim s \<Longrightarrow> take 1 s \<noteq> ''.'' \<and> take 1 s \<noteq> ''e'' \<and> take 1 s \<noteq> ''E''"
proof (cases s)
  case (Cons c cs)
  have "CHR ''.'' \<noteq> char_of (10 :: nat)" "CHR ''e'' \<noteq> char_of (10 :: nat)" "CHR ''E'' \<noteq> char_of (10 :: nat)" by code_simp+
  moreover assume "delim s"
  ultimately show ?thesis using Cons by (auto simp: delim_def)
qed simp

lemma scan_nat: "delim rest \<Longrightarrow> scan_int (show_nat n @ rest) = Some (show_nat n, rest)"
proof -
  assume d: "delim rest"
  obtain c cs where s: "show_nat n = c # cs" "c = CHR ''0'' \<longrightarrow> n = 0 \<and> cs = []" using show_nat_shape by blast
  have "takeWhile is_digit (show_nat n @ rest) = show_nat n" "dropWhile is_digit (show_nat n @ rest) = rest"
    using show_nat_digits [of n] delim_not_digit [OF d] by (simp_all add: takeWhile_append2 dropWhile_append2)
  moreover have "is_digit c" using show_nat_digits [of n] s by simp
  ultimately show ?thesis using s by (auto simp: scan_int_def)
qed

lemma scan_show_int: "delim rest \<Longrightarrow> scan_number (show_int i @ rest) = Some (show_int i, rest)"
proof -
  assume d: "delim rest"
  obtain c cs where s: "show_nat (nat i) = c # cs" using show_nat_shape by blast
  have "is_digit c" using show_nat_digits [of "nat i"] s by simp
  moreover have "\<not> is_digit CHR ''-''" by (simp add: is_digit_def digit_of_def)
  ultimately have "c \<noteq> CHR ''-''" by blast
  with s have "i \<ge> 0 \<Longrightarrow> take 1 (show_nat (nat i) @ rest) \<noteq> ''-''" by simp
  then show ?thesis
    using delim_stops [OF d]
    by (simp add: scan_number_def show_int_def scan_nat [OF d] scan_frac_def scan_exp_def)
qed

lemma digit_token:
  assumes "is_digit c \<or> c = CHR ''-''"
  shows "next_token (c # s) = map_option (\<lambda>(x, r). (TNum x, r)) (scan_number (c # s))"
proof -
  have b: "(of_char c :: nat) = 45 \<or> 48 \<le> (of_char c :: nat) \<and> (of_char c :: nat) \<le> 57"
    using assms by (auto simp: is_digit_def digit_of_def split: if_splits)
  have "c \<noteq> d" if "(of_char d :: nat) < 45 \<or> of_char d = (46 :: nat) \<or> of_char d = (47 :: nat) \<or> 57 < (of_char d :: nat)" for d
    using b that by auto
  then show ?thesis by (simp add: next_token_def token_at_def is_ws_def quoteC_def)
qed

lemma next_token_int: "delim rest \<Longrightarrow> next_token (show_int i @ rest) = Some (TNum (show_int i), rest)"
proof -
  assume d: "delim rest"
  obtain c cs where s: "show_nat (nat i) = c # cs" using show_nat_shape by blast
  have "is_digit c" using show_nat_digits [of "nat i"] s by simp
  with s have "\<exists>c' cs'. show_int i = c' # cs' \<and> (is_digit c' \<or> c' = CHR ''-'')" by (auto simp: show_int_def)
  then show ?thesis using digit_token scan_show_int [OF d, of i] by fastforce
qed

text \<open>The first character of a rendered value closes nothing.\<close>

lemma render_not_close:
  assumes "delim rest"
  shows "next_token (render j @ rest) \<noteq> Some (TRBracket, r)"
proof (cases j)
  case JNull
  then show ?thesis using next_token_null [of rest] by simp
next
  case (JInt i)
  then show ?thesis using next_token_int [OF assms] by simp
next
  case (JStr s)
  then show ?thesis using next_token_quoted [of s rest] by simp
next
  case (JBytes bs)
  then show ?thesis using next_token_bytes [of bs rest] by simp
qed (simp_all add: next_token_char)

lemma member_key_quoted: "member_key (quote_string k @ CHR '':'' # rest) = Some (sanitize k, rest)"
  by (simp add: member_key_def next_token_quoted next_token_char)

text \<open>The parser reads a rendered value and goes on with what follows it.\<close>

definition parsed :: "json \<Rightarrow> bool" where
  "parsed j \<longleftrightarrow> (\<forall>st rest. delim rest \<longrightarrow> parse Want st (render j @ rest) = parse (Got (value_of j)) st rest)"

lemma parse_elements:
  "xs \<noteq> [] \<Longrightarrow> \<forall>x\<in>set xs. parsed x \<Longrightarrow>
    parse Want (InArr acc # st) (join_with '','' (map render xs) @ CHR '']'' # rest) =
    parse (Got (VArr (rev acc @ map value_of xs))) st rest"
proof (induction xs arbitrary: acc)
  case (Cons x xs)
  show ?case
  proof (cases xs)
    case Nil
    then show ?thesis using Cons.prems by (simp add: parsed_def parse.simps(3) next_token_char)
  next
    case (Cons y ys)
    then have "join_with '','' (map render (x # xs)) = render x @ '','' @ join_with '','' (map render xs)" by simp
    then show ?thesis
      using Cons Cons.IH [of "value_of x # acc"] Cons.prems
      by (simp add: parsed_def parse.simps(3) next_token_char del: join_with.simps)
  qed
qed simp

definition render_member :: "string \<times> json \<Rightarrow> string" where
  "render_member kv = (case kv of (k, v) \<Rightarrow> quote_string k @ '':'' @ render v)"

lemma parse_members:
  "\<forall>kv\<in>set kvs. parsed (snd kv) \<Longrightarrow> parsed v \<Longrightarrow>
    parse Want (InObj acc k # st) (render v @ concat (map (\<lambda>kv. '','' @ render_member kv) kvs) @ CHR ''}'' # rest) =
    parse (Got (VObj (rev acc @ (k, value_of v) # map (\<lambda>(k, v). (sanitize k, value_of v)) kvs))) st rest"
proof (induction kvs arbitrary: acc k v)
  case Nil
  then show ?case by (simp add: parsed_def parse.simps(4) next_token_char)
next
  case (Cons kv kvs)
  obtain k' v' where kv: "kv = (k', v')" by (cases kv)
  have "parse Want (InObj acc k # st) (render v @ concat (map (\<lambda>kv. '','' @ render_member kv) (kv # kvs)) @ CHR ''}'' # rest) =
      parse Want (InObj ((k, value_of v) # acc) (sanitize k' ) # st)
        (render v' @ concat (map (\<lambda>kv. '','' @ render_member kv) kvs) @ CHR ''}'' # rest)"
    using Cons.prems(2) by (simp add: parsed_def kv render_member_def parse.simps(4) next_token_char member_key_quoted)
  also have "\<dots> = parse (Got (VObj (rev acc @ (k, value_of v) # map (\<lambda>(k, v). (sanitize k, value_of v)) (kv # kvs)))) st rest"
    using Cons.IH [of v' "(k, value_of v) # acc" "sanitize k'"] Cons.prems kv by simp
  finally show ?case .
qed

lemma join_concat: "join_with sep (x # xs) = x @ concat (map (\<lambda>y. sep @ y) xs)"
  by (induction xs arbitrary: x) simp_all

lemma render_parsed: "parsed j"
proof (induction j)
  case JNull
  show ?case by (simp add: parsed_def parse.simps(1) next_token_null [simplified])
next
  case (JInt i)
  show ?case by (simp add: parsed_def parse.simps(1) next_token_int)
next
  case (JStr s)
  show ?case by (simp add: parsed_def parse.simps(1) next_token_quoted)
next
  case (JBytes bs)
  show ?case by (simp add: parsed_def parse.simps(1) next_token_bytes)
next
  case (JArr xs)
  show ?case
  proof (cases xs)
    case Nil
    then show ?thesis by (simp add: parsed_def parse.simps(1) next_token_char)
  next
    case (Cons x ys)
    have "next_token (join_with '','' (map render xs) @ CHR '']'' # rest) \<noteq> Some (TRBracket, r)" for rest r
    proof (cases ys)
      case Nil
      then show ?thesis using Cons render_not_close [of "CHR '']'' # rest" x r] by simp
    next
      case (Cons y zs)
      then show ?thesis
        using \<open>xs = x # ys\<close> render_not_close [of "CHR '','' # (join_with '','' (map render ys) @ CHR '']'' # rest)" x r] by simp
    qed
    then have "parse Want st (render (JArr xs) @ rest) =
        parse Want (InArr [] # st) (join_with '','' (map render xs) @ CHR '']'' # rest)" for st rest
      by (auto simp: parse.simps(1) next_token_char split: option.split token.split)
    then show ?thesis using parse_elements [of xs "[]"] JArr Cons by (simp add: parsed_def)
  qed
next
  case (JObj kvs)
  show ?case
  proof (cases kvs)
    case Nil
    then show ?thesis by (simp add: parsed_def parse.simps(1) next_token_char)
  next
    case (Cons kv rest')
    obtain k v where kv: "kv = (k, v)" by (cases kv)
    have all: "\<forall>kv\<in>set kvs. parsed (snd kv)" using JObj by fastforce
    have m: "map (\<lambda>(k, v). quote_string k @ '':'' @ render v) xs = map render_member xs" for xs
      by (simp add: render_member_def)
    have "parse Want st (render (JObj kvs) @ rest) =
        parse Want (InObj [] (sanitize k) # st)
          (render v @ concat (map (\<lambda>kv. '','' @ render_member kv) rest') @ CHR ''}'' # rest)" for st rest
      unfolding render.simps m Cons kv list.map join_concat
      by (simp add: parse.simps(1) next_token_char render_member_def next_token_quoted member_key_quoted o_def)
    then show ?thesis
      using parse_members [of rest' v "[]"] all Cons kv by (simp add: parsed_def)
  qed
qed

lemma chars_bytes [simp]: "chars_of (bytes_of s) = s"
proof -
  have "char_of (unat (word_of_nat (of_char c) :: byte)) = c" for c
    using nat_of_char_less_256 [of c] by (simp add: unat_of_nat)
  then show ?thesis by (simp add: chars_of_def bytes_of_def o_def)
qed

lemma bytes_chars [simp]: "bytes_of (chars_of bs) = bs"
proof -
  have "word_of_nat (unat b mod 256) = b" for b :: byte
    using unsigned_less [of b, where ?'a = nat] by simp
  then show ?thesis by (simp add: chars_of_def bytes_of_def o_def)
qed

lemma parse_render: "delim rest \<Longrightarrow> parse Want [] (render j @ rest) = Some (value_of j, rest)"
  using render_parsed [of j] by (simp add: parsed_def)

lemma newline_ws: "is_ws (char_of (10 :: nat))"
  by (simp add: is_ws_def)

lemma parse_Marshal: "parse_document (json_Marshal j) = Some (value_of j)"
  using parse_render [of "[]" j] by (simp add: parse_document_def json_Marshal_def)

lemma parse_Encode: "parse_document (json_Encode j) = Some (value_of j)"
  using parse_render [of "[char_of (10 :: nat)]" j] newline_ws
  by (simp add: parse_document_def json_Encode_def)

lemma stream_Encode: "parse_stream (json_Encode j) = Some (value_of j)"
  using parse_render [of "[char_of (10 :: nat)]" j] by (simp add: parse_stream_def json_Encode_def)

text \<open>What was decoded is valid UTF-8.\<close>

fun utf8_value :: "jval \<Rightarrow> bool" where
  "utf8_value (VStr s) = valid_utf8 s"
| "utf8_value (VArr vs) = list_all utf8_value vs"
| "utf8_value (VObj kvs) = list_all (\<lambda>(k, v). utf8_value v) kvs"
| "utf8_value _ = True"

fun utf8_frame :: "frame \<Rightarrow> bool" where
  "utf8_frame (InArr vs) = list_all utf8_value vs"
| "utf8_frame (InObj kvs k) = list_all (\<lambda>(k, v). utf8_value v) kvs"

fun utf8_task :: "task \<Rightarrow> bool" where
  "utf8_task Want = True"
| "utf8_task (Got v) = utf8_value v"

lemma token_utf8: "next_token s = Some (TStr x, r) \<Longrightarrow> valid_utf8 x"
  by (auto simp: next_token_def token_at_def dest: unquote_valid split: list.splits if_splits)

lemma parse_open_array:
  assumes "next_token s = Some (TLBracket, q)" "parse Want st s = Some x"
  shows "parse Want (InArr [] # st) q = Some x \<or>
    (\<exists>q'. next_token q = Some (TRBracket, q') \<and> parse (Got (VArr [])) st q' = Some x)"
proof (cases "next_token q")
  case None
  then show ?thesis using assms by (simp add: parse.simps(1) [of st s])
next
  case (Some p)
  then show ?thesis using assms by (cases p; cases "fst p") (simp_all add: parse.simps(1) [of st s])
qed

lemma parse_open_object:
  assumes "next_token s = Some (TLBrace, q)" "parse Want st s = Some x"
  shows "(\<exists>k q'. member_key q = Some (k, q') \<and> parse Want (InObj [] k # st) q' = Some x) \<or>
    (\<exists>q'. next_token q = Some (TRBrace, q') \<and> parse (Got (VObj [])) st q' = Some x)"
proof (cases "next_token q")
  case None
  then show ?thesis using assms by (simp add: parse.simps(1) [of st s] split: option.splits prod.splits)
next
  case (Some p)
  then show ?thesis
    using assms by (cases p; cases "fst p") (simp_all add: parse.simps(1) [of st s] split: option.splits prod.splits)
qed

lemma parse_utf8:
  "utf8_task t \<Longrightarrow> list_all utf8_frame st \<Longrightarrow> parse t st s = Some (v, r) \<Longrightarrow> utf8_value v"
proof (induction "length s" arbitrary: t st s rule: less_induct)
  case less
  note IH = less.hyps
  show ?case
  proof (cases t)
    case Want
    with less.prems(3) obtain tok q where tok: "next_token s = Some (tok, q)"
      by (auto simp: parse.simps(1) split: option.splits)
    then have q: "length q < length s" by (rule next_token_shorter)
    have fin: "parse (Got w) st q = Some (v, r) \<Longrightarrow> utf8_value w \<Longrightarrow> utf8_value v" for w
      using IH [OF q, of "Got w" st] less.prems(2) by simp
    show ?thesis
    proof (cases tok)
      case TLBracket
      with parse_open_array tok less.prems Want consider
          "parse Want (InArr [] # st) q = Some (v, r)"
        | q' where "next_token q = Some (TRBracket, q')" "parse (Got (VArr [])) st q' = Some (v, r)" by metis
      then show ?thesis
      proof cases
        case 1
        then show ?thesis using IH [OF q, of Want "InArr [] # st"] less.prems(2) by simp
      next
        case 2
        then show ?thesis using IH [OF order_less_trans [OF next_token_shorter [OF 2(1)] q] _ less.prems(2) 2(2)] by simp
      qed
    next
      case TLBrace
      with parse_open_object tok less.prems Want consider
          k q' where "member_key q = Some (k, q')" "parse Want (InObj [] k # st) q' = Some (v, r)"
        | q' where "next_token q = Some (TRBrace, q')" "parse (Got (VObj [])) st q' = Some (v, r)" by metis
      then show ?thesis
      proof cases
        case 1
        then show ?thesis using IH [OF order_less_trans [OF member_key_shorter [OF 1(1)] q] _ _ 1(2)] less.prems(2) by simp
      next
        case 2
        then show ?thesis using IH [OF order_less_trans [OF next_token_shorter [OF 2(1)] q] _ less.prems(2) 2(2)] by simp
      qed
    qed (use less.prems(3) Want tok token_utf8 [of s] in \<open>auto simp: parse.simps(1) [of st s] dest: fin\<close>)
  next
    case (Got w)
    show ?thesis
    proof (cases st)
      case (Cons fr st')
      with less.prems(3) Got obtain tok q where tok: "next_token s = Some (tok, q)"
        by (cases fr) (auto simp: parse.simps(3,4) split: option.splits)
      then have q: "length q < length s" by (rule next_token_shorter)
      show ?thesis
      proof (cases fr)
        case (InArr xs)
        then show ?thesis
          using less.prems Got Cons tok IH [OF q, of Want "InArr (w # xs) # st'"]
            IH [OF q, of "Got (VArr (rev (w # xs)))" st']
          by (auto simp: parse.simps(3) split: token.splits)
      next
        case (InObj kvs k)
        have "utf8_value v" if "member_key q = Some (k', q')" "parse Want (InObj ((k, w) # kvs) k' # st') q' = Some (v, r)" for k' q'
          using IH [of q' Want "InObj ((k, w) # kvs) k' # st'"] that member_key_shorter [OF that(1)] q less.prems Got Cons InObj
          by simp
        then show ?thesis
          using less.prems Got Cons InObj tok IH [OF q, of "Got (VObj (rev ((k, w) # kvs)))" st']
          by (auto simp: parse.simps(4) split: token.splits option.splits)
      qed
    qed (use less.prems Got in simp)
  qed
qed

lemma stream_utf8: "parse_stream data = Some v \<Longrightarrow> utf8_value v"
  unfolding parse_stream_def using parse_utf8 [of Want "[]"] by fastforce

section \<open>Base64\<close>

lemma b64_val_char: "d < 64 \<Longrightarrow> b64_val (b64_char d) = Some d"
proof -
  assume d: "d < 64"
  have "b64_val CHR ''+'' = Some 62" "b64_val CHR ''/'' = Some 63" by code_simp+
  with d show ?thesis by (auto simp: b64_val_def b64_char_def Let_def)
qed

lemma b64_not_pad: "d < 64 \<Longrightarrow> b64_char d \<noteq> CHR ''=''"
  by (rule notI, drule arg_cong [where f = "of_char :: char \<Rightarrow> nat"]) (auto simp: b64_char_def split: if_splits)

lemma b64_split:
  "b < 256 \<Longrightarrow> b div 16 div 16 = (0 :: nat)" "b < 256 \<Longrightarrow> b div 16 mod 16 = (b div 16 :: nat)"
  "c < 256 \<Longrightarrow> c div 64 div 4 = (0 :: nat)" "c < 256 \<Longrightarrow> c div 64 mod 4 = (c div 64 :: nat)"
  by simp_all

lemma b64_decode_base64: "\<forall>b\<in>set bs. b < 256 \<Longrightarrow> b64_decode (base64 bs) = (bs, True)"
proof (induction bs rule: base64.induct)
  case (2 a)
  then have "a div 4 < 64" "a mod 4 * 16 < 64" by simp_all
  then show ?case by (simp add: b64_val_char)
next
  case (3 a b)
  then have "a div 4 < 64" "a mod 4 * 16 + b div 16 < 64" "b mod 16 * 4 < 64" by simp_all linarith+
  then show ?case using 3 by (simp add: b64_val_char b64_not_pad b64_split div_mult_mod_eq)
next
  case (4 a b c rest)
  then have "a div 4 < 64" "a mod 4 * 16 + b div 16 < 64" "b mod 16 * 4 + c div 64 < 64" "c mod 64 < 64"
    by simp_all linarith+
  then show ?case using 4 by (simp add: b64_val_char b64_not_pad b64_split div_mult_mod_eq)
qed simp

lemma DecodeString_base64: "DecodeString (base64 (map unat (bs :: byte list))) = (bs, True)"
proof -
  have r: "\<forall>b\<in>set (map unat bs). b < 256" by (auto intro: unsigned_less [THEN order_less_le_trans])
  have "filter (\<lambda>c. (of_char c :: nat) \<noteq> 10 \<and> (of_char c :: nat) \<noteq> 13) (base64 (map unat bs)) = base64 (map unat bs)"
    using plain_base64 [OF r] by (intro filter_True) (auto simp: plain_def)
  then show ?thesis by (simp add: DecodeString_def b64_decode_base64 [OF r] o_def)
qed

end
