(* ===== verification/Keystore.thy ===== *)
theory Keystore
  imports Json_Roundtrip
begin

text \<open>
  src/distributepki/keystore: the table of a key server that maps an alias to its key
  (keystore.go), and the older key-value store (kvstore.go, whose \<open>Put\<close> and \<open>readCommits\<close>
  are empty). A table is a Go map or, after a snapshot \<open>null\<close>, the nil map (\<open>None\<close>). The
  locks make every operation atomic.
\<close>

section \<open>Operations\<close>

record Keystore =
  ks_keys :: "(string, string) gomap option"

text \<open>Ranging over the initial table copies it in iteration order.\<close>

definition copy_map :: "(string, string) gomap \<Rightarrow> (string, string) gomap \<Rightarrow> (string, string) gomap" where
  "copy_map src dst = fold (\<lambda>(k, v). gput k v) src dst"

definition NewKeystore :: "(string, string) gomap \<Rightarrow> Keystore" where
  "NewKeystore initial = \<lparr>ks_keys = Some (copy_map initial [])\<rparr>"

definition CreateKey :: "string \<Rightarrow> string \<Rightarrow> Keystore \<Rightarrow> fault + Keystore" where
  "CreateKey alias_name key ks =
     (case ks_keys ks of
        None \<Rightarrow> Inl NilMap
      | Some m \<Rightarrow> Inr (ks\<lparr>ks_keys := Some (gput alias_name key m)\<rparr>))"

definition UpdateKey :: "string \<Rightarrow> string \<Rightarrow> Keystore \<Rightarrow> fault + Keystore" where
  "UpdateKey alias_name key ks =
     (case ks_keys ks of
        None \<Rightarrow> Inl NilMap
      | Some m \<Rightarrow> Inr (ks\<lparr>ks_keys := Some (gput alias_name key m)\<rparr>))"

definition read_key :: "Keystore \<Rightarrow> string \<Rightarrow> string option" where
  "read_key ks alias_name = (case ks_keys ks of None \<Rightarrow> None | Some m \<Rightarrow> gget m alias_name)"

definition LookupKey :: "string \<Rightarrow> Keystore \<Rightarrow> bool \<times> string" where
  "LookupKey alias_name ks = (case read_key ks alias_name of Some key \<Rightarrow> (True, key) | None \<Rightarrow> (False, []))"

definition json_strings :: "(string, string) gomap option \<Rightarrow> json" where
  "json_strings m = (case m of None \<Rightarrow> JNull | Some m \<Rightarrow> json_map (map (\<lambda>(k, v). (k, JStr v)) m))"

definition GetSnapshot :: "Keystore \<Rightarrow> byte list" where
  "GetSnapshot ks = json_Marshal (json_strings (ks_keys ks))"

text \<open>\<open>None\<close> is an error; the store is then left as it is.\<close>

definition ApplySnapshot :: "byte list \<Rightarrow> Keystore \<Rightarrow> Keystore option" where
  "ApplySnapshot snapshot ks =
     (case Unmarshal_map snapshot of None \<Rightarrow> None | Some m \<Rightarrow> Some (ks\<lparr>ks_keys := m\<rparr>))"

subsection \<open>The key-value store\<close>

record Kvstore =
  kvStore :: "(string, string) gomap option"

definition NewKVStore :: "(string, string) gomap option \<Rightarrow> Kvstore" where
  "NewKVStore initialStore =
     \<lparr>kvStore = (case initialStore of None \<Rightarrow> Some [] | Some m \<Rightarrow> Some m)\<rparr>"

definition kv_Get :: "string \<Rightarrow> Kvstore \<Rightarrow> string \<times> bool" where
  "kv_Get key s =
     (case (case kvStore s of None \<Rightarrow> None | Some m \<Rightarrow> gget m key) of Some v \<Rightarrow> (v, True) | None \<Rightarrow> ([], False))"

definition kv_GetSnapshot :: "Kvstore \<Rightarrow> byte list" where
  "kv_GetSnapshot s = json_Marshal (json_strings (kvStore s))"

definition kv_ApplySnapshot :: "byte list \<Rightarrow> Kvstore \<Rightarrow> Kvstore option" where
  "kv_ApplySnapshot snapshot s =
     (case Unmarshal_map snapshot of None \<Rightarrow> None | Some m \<Rightarrow> Some (s\<lparr>kvStore := m\<rparr>))"

section \<open>What a client of a store relies on\<close>

text \<open>A store that can be saved and loaded.\<close>

locale snapshots =
  fixes lookup :: "'s \<Rightarrow> string \<Rightarrow> string option"
    and save :: "'s \<Rightarrow> byte list"
    and load :: "byte list \<Rightarrow> 's \<Rightarrow> 's option"
    and ok :: "'s \<Rightarrow> bool"
  assumes load_save: "ok s \<Longrightarrow> \<exists>s'. load (save s) t = Some s' \<and> ok s' \<and> lookup s' = lookup s"
begin

lemma transfer: "ok s \<Longrightarrow> \<exists>s'. load (save s) t = Some s' \<and> lookup s' = lookup s"
  using load_save by blast

end

text \<open>A store that can be written too: replaying the same writes over a loaded snapshot.\<close>

locale key_store = snapshots lookup save load ok
  for lookup :: "'s \<Rightarrow> string \<Rightarrow> string option" and save load ok +
  fixes put :: "string \<Rightarrow> string \<Rightarrow> 's \<Rightarrow> fault + 's"
  assumes put_ok: "ok s \<Longrightarrow> valid_utf8 k \<Longrightarrow> valid_utf8 v \<Longrightarrow>
      \<exists>s'. put k v s = Inr s' \<and> ok s' \<and> lookup s' = (lookup s)(k \<mapsto> v)"
begin

fun puts :: "(string \<times> string) list \<Rightarrow> 's \<Rightarrow> fault + 's" where
  "puts [] s = Inr s"
| "puts ((k, v) # kvs) s = (case put k v s of Inl f \<Rightarrow> Inl f | Inr s' \<Rightarrow> puts kvs s')"

lemma puts_lookup:
  "ok s \<Longrightarrow> \<forall>(k, v)\<in>set kvs. valid_utf8 k \<and> valid_utf8 v \<Longrightarrow>
    \<exists>s'. puts kvs s = Inr s' \<and> ok s' \<and> lookup s' = lookup s ++ map_of (rev kvs)"
proof (induction kvs arbitrary: s)
  case (Cons kv kvs)
  obtain k v where kv: "kv = (k, v)" by (cases kv)
  with Cons.prems put_ok obtain s1 where s1: "put k v s = Inr s1" "ok s1" "lookup s1 = (lookup s)(k \<mapsto> v)"
    by (metis (no_types, lifting) case_prodD list.set_intros(1))
  from Cons.IH [OF s1(2)] Cons.prems kv obtain s2 where
    "puts kvs s1 = Inr s2" "ok s2" "lookup s2 = lookup s1 ++ map_of (rev kvs)" by auto
  then show ?case by (auto simp: kv s1 map_add_def fun_eq_iff split: option.splits)
qed simp

lemma replay:
  assumes "ok s" "\<forall>(k, v)\<in>set kvs. valid_utf8 k \<and> valid_utf8 v"
  shows "\<exists>s1 s2 s3. load (save s) t = Some s1 \<and> puts kvs s1 = Inr s2 \<and> puts kvs s = Inr s3 \<and> lookup s2 = lookup s3"
  using load_save [OF assms(1), of t] puts_lookup assms by metis

end

section \<open>Snapshots of a table of strings\<close>

definition strings_ok :: "(string, string) gomap option \<Rightarrow> bool" where
  "strings_ok m \<longleftrightarrow> (\<exists>kvs. m = Some kvs \<and> gwf kvs \<and> (\<forall>(k, v)\<in>set kvs. valid_utf8 k \<and> valid_utf8 v))"

lemma set_insert_key: "set (insert_key kv kvs) = insert kv (set kvs)"
  by (induction kvs) auto

lemma set_sorted: "set (foldr insert_key kvs []) = set kvs"
  by (induction kvs) (auto simp: set_insert_key)

lemma distinct_insert_key:
  "distinct (map fst (insert_key kv kvs)) \<longleftrightarrow> fst kv \<notin> fst ` set kvs \<and> distinct (map fst kvs)"
  by (induction kvs) (auto simp: set_insert_key)

lemma distinct_sorted: "distinct (map fst (foldr insert_key kvs [])) \<longleftrightarrow> distinct (map fst kvs)"
  by (induction kvs) (simp_all add: distinct_insert_key set_sorted)

lemma into_entries_strings:
  "into_entries (map (\<lambda>(k, v). (k, VStr v)) kvs) m = Some (fold (\<lambda>(k, v). gput k v) kvs m)"
  by (induction kvs arbitrary: m) (auto simp: into_string_def)

lemma gget_fold: "gget (fold (\<lambda>(k, v). gput k v) kvs m) = gget m ++ map_of (rev kvs)"
  by (induction kvs arbitrary: m) (auto simp: map_add_def fun_eq_iff split: option.splits)

lemma gwf_fold: "gwf m \<Longrightarrow> gwf (fold (\<lambda>(k, v). gput k v) kvs m)"
  by (induction kvs arbitrary: m) auto

lemma map_of_rev_distinct: "distinct (map fst m) \<Longrightarrow> map_of (rev m) = map_of m"
  using map_of_inject_set [of "rev m" m] by (simp add: rev_map [symmetric])

lemma gget_copy: "gwf m \<Longrightarrow> gget (copy_map m []) = gget m"
  by (simp add: copy_map_def gget_fold gwf_def map_of_rev_distinct fun_eq_iff map_add_def gget_def split: option.splits)

lemma strings_ok_gput: "strings_ok (Some m) \<Longrightarrow> valid_utf8 k \<Longrightarrow> valid_utf8 v \<Longrightarrow> strings_ok (Some (gput k v m))"
  unfolding strings_ok_def using set_gput_subset [of _ _ k v m] by fastforce

lemma strings_ok_copy:
  assumes "\<forall>(k, v)\<in>set kvs. valid_utf8 k \<and> valid_utf8 v"
  shows "strings_ok (Some (copy_map kvs []))"
proof -
  have "strings_ok (Some m) \<Longrightarrow> strings_ok (Some (fold (\<lambda>(k, v). gput k v) kvs m))" for m
    using assms by (induction kvs arbitrary: m) (auto simp: strings_ok_gput)
  moreover have "strings_ok (Some [])" by (simp add: strings_ok_def)
  ultimately show ?thesis by (simp add: copy_map_def)
qed

definition string_of :: "json \<Rightarrow> string" where
  "string_of j = (case j of JStr s \<Rightarrow> s | _ \<Rightarrow> [])"

lemma snapshot_strings:
  assumes "strings_ok (Some m)"
  shows "\<exists>m'. Unmarshal_map (json_Marshal (json_strings (Some m))) = Some (Some m') \<and> strings_ok (Some m') \<and> gget m' = gget m"
proof -
  let ?j = "\<lambda>(k, v). (k, JStr v)"
  define srt where "srt = foldr insert_key (map ?j m) []"
  define ents where "ents = map (\<lambda>(k, j). (k, string_of j)) srt"
  have "set srt = ?j ` set m" by (simp add: srt_def set_sorted)
  then have srt: "(k, j) \<in> set srt \<longleftrightarrow> (\<exists>v. (k, v) \<in> set m \<and> j = JStr v)" for k j by auto
  then have ents: "set ents = set m" by (force simp: ents_def string_of_def image_iff)
  have keys: "map fst ents = map fst srt" by (auto simp: ents_def)
  have wf: "distinct (map fst m)" and utf8: "\<forall>(k, v)\<in>set m. valid_utf8 k \<and> valid_utf8 v"
    using assms by (auto simp: strings_ok_def gwf_def)
  from utf8 have utf8': "(k, v) \<in> set m \<Longrightarrow> sanitize k = k \<and> sanitize v = v" for k v by (auto simp: valid_utf8_def)
  have "map fst (map ?j m) = map fst m" by auto
  with wf have "distinct (map fst (map ?j m))" by (simp only:)
  then have dist: "distinct (map fst ents)" by (simp only: keys srt_def distinct_sorted)
  have "map (\<lambda>(k, v). (sanitize k, value_of v)) srt = map (\<lambda>(k, v). (k, VStr v)) ents"
    using srt utf8' by (auto simp: ents_def string_of_def)
  then have "Unmarshal_map (json_Marshal (json_strings (Some m))) = Some (Some (fold (\<lambda>(k, v). gput k v) ents []))"
    by (simp add: Unmarshal_map_def parse_Marshal json_strings_def json_map_def srt_def [symmetric] into_entries_strings)
  moreover have "gget (fold (\<lambda>(k, v). gput k v) ents []) = gget m"
  proof -
    have "map_of ents = map_of m" using map_of_inject_set [OF dist wf] ents by simp
    then show ?thesis using map_of_rev_distinct [OF dist] by (simp add: gget_fold fun_eq_iff map_add_def gget_def split: option.splits)
  qed
  moreover have "strings_ok (Some (fold (\<lambda>(k, v). gput k v) ents []))"
    using strings_ok_copy [of ents] dist utf8 ents by (simp add: gwf_def copy_map_def)
  ultimately show ?thesis by blast
qed

section \<open>The stores keep the contract\<close>

definition store_ok :: "Keystore \<Rightarrow> bool" where
  "store_ok ks \<longleftrightarrow> strings_ok (ks_keys ks)"

interpretation ks: key_store read_key GetSnapshot ApplySnapshot store_ok CreateKey
proof unfold_locales
  fix s t :: Keystore
  assume "store_ok s"
  then obtain m where m: "ks_keys s = Some m" "strings_ok (Some m)" by (auto simp: store_ok_def strings_ok_def)
  with snapshot_strings [OF m(2)] obtain m' where
    "Unmarshal_map (GetSnapshot s) = Some (Some m')" "strings_ok (Some m')" "gget m' = gget m" by (auto simp: GetSnapshot_def)
  then show "\<exists>s'. ApplySnapshot (GetSnapshot s) t = Some s' \<and> store_ok s' \<and> read_key s' = read_key s"
    using m by (simp add: ApplySnapshot_def store_ok_def read_key_def fun_eq_iff)
next
  fix s :: Keystore and k v
  assume ok: "store_ok s" "valid_utf8 k" "valid_utf8 v"
  then obtain m where "ks_keys s = Some m" "strings_ok (Some m)" by (auto simp: store_ok_def strings_ok_def)
  then show "\<exists>s'. CreateKey k v s = Inr s' \<and> store_ok s' \<and> read_key s' = (read_key s)(k \<mapsto> v)"
    using strings_ok_gput ok(2,3) by (simp add: CreateKey_def store_ok_def read_key_def fun_eq_iff)
qed

interpretation kv: snapshots "\<lambda>s k. if snd (kv_Get k s) then Some (fst (kv_Get k s)) else None"
    kv_GetSnapshot kv_ApplySnapshot "\<lambda>s. strings_ok (kvStore s)"
proof unfold_locales
  fix s t :: Kvstore
  assume "strings_ok (kvStore s)"
  then obtain m where m: "kvStore s = Some m" "strings_ok (Some m)" by (auto simp: strings_ok_def)
  with snapshot_strings [OF m(2)] obtain m' where
    "Unmarshal_map (kv_GetSnapshot s) = Some (Some m')" "strings_ok (Some m')" "gget m' = gget m" by (auto simp: kv_GetSnapshot_def)
  then show "\<exists>s'. kv_ApplySnapshot (kv_GetSnapshot s) t = Some s' \<and> strings_ok (kvStore s') \<and>
      (\<lambda>k. if snd (kv_Get k s') then Some (fst (kv_Get k s')) else None) =
      (\<lambda>k. if snd (kv_Get k s) then Some (fst (kv_Get k s)) else None)"
    using m by (simp add: kv_ApplySnapshot_def kv_Get_def fun_eq_iff split: option.splits)
qed

lemma UpdateKey_CreateKey: "UpdateKey = CreateKey"
  by (simp add: fun_eq_iff UpdateKey_def CreateKey_def)

lemma NewKeystore_ok:
  "gwf m \<Longrightarrow> \<forall>(k, v)\<in>set m. valid_utf8 k \<and> valid_utf8 v \<Longrightarrow> store_ok (NewKeystore m) \<and> read_key (NewKeystore m) = gget m"
  by (auto simp: NewKeystore_def store_ok_def read_key_def fun_eq_iff gget_copy intro: strings_ok_copy)

section \<open>Properties\<close>

text \<open>C23: The key store refines a partial map: writing an alias (as a create or as an update) changes
  the answer for this alias only, a new store answers as the initial table, and a lookup
  answers whether the alias is bound and with its key.\<close>

theorem keystore_refines_map:
  assumes "gwf initial" "CreateKey a k s = Inr s'"
  shows "UpdateKey a k s = Inr s' \<and> read_key s' = (read_key s)(a \<mapsto> k) \<and>
    LookupKey b s' = (if b = a then (True, k) else LookupKey b s) \<and>
    LookupKey b (NewKeystore initial) = (case gget initial b of Some key \<Rightarrow> (True, key) | None \<Rightarrow> (False, []))"
proof -
  have "read_key s' = (read_key s)(a \<mapsto> k)"
    using assms(2) by (auto simp: CreateKey_def read_key_def fun_eq_iff split: option.splits)
  moreover have "read_key (NewKeystore initial) = gget initial"
    using assms(1) by (simp add: NewKeystore_def read_key_def fun_eq_iff gget_copy)
  ultimately show ?thesis using assms(2) by (simp add: UpdateKey_CreateKey LookupKey_def)
qed

lemma keystore_refines_map_witness:
  "UpdateKey ''bob'' ''K2'' (NewKeystore [(''bob'', ''K1'')]) = Inr \<lparr>ks_keys = Some [(''bob'', ''K2'')]\<rparr> \<and>
   read_key \<lparr>ks_keys = Some [(''bob'', ''K2'')]\<rparr> = (read_key (NewKeystore [(''bob'', ''K1'')]))(''bob'' \<mapsto> ''K2'') \<and>
   LookupKey ''eve'' \<lparr>ks_keys = Some [(''bob'', ''K2'')]\<rparr> =
     (if ''eve'' = ''bob'' then (True, ''K2'') else LookupKey ''eve'' (NewKeystore [(''bob'', ''K1'')])) \<and>
   LookupKey ''eve'' (NewKeystore [(''eve'', ''K3'')]) =
     (case gget [(''eve'', ''K3'')] ''eve'' of Some key \<Rightarrow> (True, key) | None \<Rightarrow> (False, []))"
  by (rule keystore_refines_map) (simp_all add: gwf_def CreateKey_def NewKeystore_def copy_map_def gput_def)

text \<open>C22: A snapshot that one store writes makes every other store answer like it, whatever its
  own table was, as long as the aliases and keys are valid UTF-8.\<close>

theorem snapshot_round_trip:
  assumes "store_ok s"
  shows "\<exists>t'. ApplySnapshot (GetSnapshot s) t = Some t' \<and> (\<forall>a. LookupKey a t' = LookupKey a s) \<and>
    Unmarshal_map (GetSnapshot s) = Some (ks_keys t')"
proof -
  from ks.transfer [OF assms, of t] obtain t' where
    "ApplySnapshot (GetSnapshot s) t = Some t'" "read_key t' = read_key s" by blast
  then show ?thesis by (auto simp: LookupKey_def ApplySnapshot_def split: option.splits)
qed

lemma ascii_valid: "list_all (\<lambda>c. (of_char c :: nat) < 128) s \<Longrightarrow> valid_utf8 s"
  by (rule valid_ascii) (simp add: list_all_iff)

lemma snapshot_round_trip_witness:
  "\<exists>t'. ApplySnapshot (GetSnapshot \<lparr>ks_keys = Some [(''bob'', ''K2''), (''al'', ''K1'')]\<rparr>) (NewKeystore []) = Some t' \<and>
    (\<forall>a. LookupKey a t' = LookupKey a \<lparr>ks_keys = Some [(''bob'', ''K2''), (''al'', ''K1'')]\<rparr>) \<and>
    Unmarshal_map (GetSnapshot \<lparr>ks_keys = Some [(''bob'', ''K2''), (''al'', ''K1'')]\<rparr>) = Some (ks_keys t')"
  by (rule snapshot_round_trip) (simp add: store_ok_def strings_ok_def gwf_def ascii_valid)

text \<open>A snapshot with the text \<open>null\<close> is accepted and leaves the nil map: every lookup fails
  and the next key that is committed stops the process.\<close>

theorem null_snapshot_stops_writes:
  "\<exists>s'. ApplySnapshot (json_Marshal JNull) s = Some s' \<and> LookupKey a s' = (False, []) \<and>
    CreateKey a k s' = Inl NilMap \<and> UpdateKey a k s' = Inl NilMap"
  by (simp add: ApplySnapshot_def Unmarshal_map_def parse_Marshal LookupKey_def read_key_def CreateKey_def UpdateKey_def)

end
