(* ===== verification/Client_Api.thy ===== *)
theory Client_Api
  imports Keystore Signing
begin

text \<open>
  src/distributepki/clientapi/interface.go: the operations on keys, their digest, the
  signatures that authorise them, and the JSON bodies they arrive in.
\<close>

section \<open>Operations\<close>

definition OP_CREATE :: int where "OP_CREATE = 1"
definition OP_UPDATE :: int where "OP_UPDATE = 2"
definition OP_LOOKUP :: int where "OP_LOOKUP = 3"

text \<open>
  \<open>Client\<close> is a \<open>net.Addr\<close>, nil in every operation this program builds; an address that is
  not nil is represented by the document \<open>encoding/json\<close> writes for it.
\<close>

record Create =
  create_Alias :: string
  create_Key :: string
  create_Timestamp :: int
  create_Client :: "json option"
  create_Signature :: string

record Update =
  update_Alias :: string
  update_Key :: string
  update_Timestamp :: int
  update_Client :: "json option"
  update_Signature :: string

record Lookup =
  lookup_Alias :: string
  lookup_Client :: "json option"

text \<open>The dynamic type of the field \<open>Op\<close>: one of the three structs, nil, or any other type (its document).\<close>

datatype operation =
    OpCreate Create
  | OpUpdate Update
  | OpLookup Lookup
  | OpNil
  | OpOther json

record KeyOperation =
  ko_OpCode :: int
  ko_Op :: operation
  ko_Digest :: "byte list"

definition json_client :: "json option \<Rightarrow> json" where
  "json_client c = (case c of None \<Rightarrow> JNull | Some d \<Rightarrow> d)"

fun json_operation :: "operation \<Rightarrow> json" where
  "json_operation (OpCreate c) = JObj [(''Alias'', JStr (create_Alias c)), (''Key'', JStr (create_Key c)),
     (''Timestamp'', JInt (create_Timestamp c)), (''Client'', json_client (create_Client c)),
     (''Signature'', JStr (create_Signature c))]"
| "json_operation (OpUpdate u) = JObj [(''Alias'', JStr (update_Alias u)), (''Key'', JStr (update_Key u)),
     (''Timestamp'', JInt (update_Timestamp u)), (''Client'', json_client (update_Client u)),
     (''Signature'', JStr (update_Signature u))]"
| "json_operation (OpLookup l) = JObj [(''Alias'', JStr (lookup_Alias l)), (''Client'', json_client (lookup_Client l))]"
| "json_operation OpNil = JNull"
| "json_operation (OpOther d) = d"

definition json_KeyOperation :: "KeyOperation \<Rightarrow> json" where
  "json_KeyOperation ko = JObj [(''OpCode'', JInt (ko_OpCode ko)), (''Op'', json_operation (ko_Op ko)),
     (''Digest'', json_array (ko_Digest ko))]"

definition generateDigest :: "KeyOperation \<Rightarrow> byte list" where
  "generateDigest ko = Sum256 (json_Encode (json_KeyOperation ko))"

definition SetDigest :: "KeyOperation \<Rightarrow> KeyOperation" where
  "SetDigest ko = ko\<lparr>ko_Digest := generateDigest (ko\<lparr>ko_Digest := zeroDigest\<rparr>)\<rparr>"

text \<open>The method clears the digest field and puts it back.\<close>

definition DigestValid :: "KeyOperation \<Rightarrow> KeyOperation \<times> bool" where
  "DigestValid ko =
     (let currentDigest = ko_Digest ko;
          ko0 = ko\<lparr>ko_Digest := zeroDigest\<rparr>;
          d = generateDigest ko0
      in (ko0\<lparr>ko_Digest := currentDigest\<rparr>, d = currentDigest))"

section \<open>Signatures\<close>

record keyMapping =
  km_Alias :: string
  km_Key :: string
  km_Timestamp :: int

definition json_keyMapping :: "keyMapping \<Rightarrow> json" where
  "json_keyMapping m = JObj [(''Alias'', JStr (km_Alias m)), (''Key'', JStr (km_Key m)),
     (''Timestamp'', JInt (km_Timestamp m))]"

definition create_nosig :: "Create \<Rightarrow> keyMapping" where
  "create_nosig c = \<lparr>km_Alias = create_Alias c, km_Key = create_Key c, km_Timestamp = create_Timestamp c\<rparr>"

text \<open>An error of the base64 decoder is ignored: what was decoded before it is the signature.\<close>

definition Create_SignatureValid :: "pgp \<Rightarrow> entity list \<Rightarrow> Create \<Rightarrow> bool" where
  "Create_SignatureValid C authorities c =
     (let signature = fst (DecodeString (create_Signature c))
      in case CheckDetachedSignature C authorities (json_Encode (json_keyMapping (create_nosig c))) signature of
           Inl err \<Rightarrow> False
         | Inr signer \<Rightarrow> True)"

text \<open>The armoured formats of openpgp: a key ring, and a check of a detached signature.\<close>

record armor =
  ReadArmoredKeyRing :: "string \<Rightarrow> string + entity list"
  CheckArmoredDetachedSignature :: "entity list \<Rightarrow> byte list \<Rightarrow> string \<Rightarrow> string + entity"

definition update_nosig :: "Update \<Rightarrow> keyMapping" where
  "update_nosig u = \<lparr>km_Alias = update_Alias u, km_Key = update_Key u, km_Timestamp = update_Timestamp u\<rparr>"

definition Update_SignatureValid :: "armor \<Rightarrow> string \<Rightarrow> Update \<Rightarrow> bool" where
  "Update_SignatureValid A previousKey u =
     (case ReadArmoredKeyRing A previousKey of
        Inl readErr \<Rightarrow> False
      | Inr keyring \<Rightarrow>
          (case CheckArmoredDetachedSignature A keyring (json_Marshal (json_keyMapping (update_nosig u)))
              (update_Signature u) of
             Inl err \<Rightarrow> False
           | Inr signer \<Rightarrow> True))"

section \<open>Request bodies\<close>

record CreateJSON =
  cj_Alias :: string
  cj_Key :: string
  cj_Timestamp :: int
  cj_Signature :: string

definition zeroCreateJSON :: CreateJSON where
  "zeroCreateJSON = \<lparr>cj_Alias = [], cj_Key = [], cj_Timestamp = 0, cj_Signature = []\<rparr>"

definition set_CreateJSON :: "string \<Rightarrow> jval \<Rightarrow> CreateJSON \<Rightarrow> CreateJSON option" where
  "set_CreateJSON key v c =
     (if names key ''Alias'' then map_option (\<lambda>s. c\<lparr>cj_Alias := s\<rparr>) (into_string (cj_Alias c) v)
      else if names key ''Key'' then map_option (\<lambda>s. c\<lparr>cj_Key := s\<rparr>) (into_string (cj_Key c) v)
      else if names key ''Timestamp'' then map_option (\<lambda>i. c\<lparr>cj_Timestamp := i\<rparr>) (into_int64 (cj_Timestamp c) v)
      else if names key ''Signature'' then map_option (\<lambda>s. c\<lparr>cj_Signature := s\<rparr>) (into_string (cj_Signature c) v)
      else Some c)"

definition ToCreate :: "CreateJSON \<Rightarrow> Create" where
  "ToCreate c = \<lparr>create_Alias = cj_Alias c, create_Key = cj_Key c, create_Timestamp = cj_Timestamp c,
     create_Client = None, create_Signature = cj_Signature c\<rparr>"

record UpdateJSON =
  uj_Alias :: string
  uj_Key :: string
  uj_Timestamp :: int
  uj_Signature :: string

definition zeroUpdateJSON :: UpdateJSON where
  "zeroUpdateJSON = \<lparr>uj_Alias = [], uj_Key = [], uj_Timestamp = 0, uj_Signature = []\<rparr>"

definition set_UpdateJSON :: "string \<Rightarrow> jval \<Rightarrow> UpdateJSON \<Rightarrow> UpdateJSON option" where
  "set_UpdateJSON key v u =
     (if names key ''Alias'' then map_option (\<lambda>s. u\<lparr>uj_Alias := s\<rparr>) (into_string (uj_Alias u) v)
      else if names key ''Key'' then map_option (\<lambda>s. u\<lparr>uj_Key := s\<rparr>) (into_string (uj_Key u) v)
      else if names key ''Timestamp'' then map_option (\<lambda>i. u\<lparr>uj_Timestamp := i\<rparr>) (into_int64 (uj_Timestamp u) v)
      else if names key ''Signature'' then map_option (\<lambda>s. u\<lparr>uj_Signature := s\<rparr>) (into_string (uj_Signature u) v)
      else Some u)"

definition ToUpdate :: "UpdateJSON \<Rightarrow> Update" where
  "ToUpdate u = \<lparr>update_Alias = uj_Alias u, update_Key = uj_Key u, update_Timestamp = uj_Timestamp u,
     update_Client = None, update_Signature = uj_Signature u\<rparr>"

section \<open>What the documents determine\<close>

lemma Encode_value: "json_Encode j = json_Encode j' \<Longrightarrow> value_of j = value_of j'"
  by (metis option.inject stream_Encode)

definition keyMapping_utf8 :: "keyMapping \<Rightarrow> bool" where
  "keyMapping_utf8 m \<longleftrightarrow> valid_utf8 (km_Alias m) \<and> valid_utf8 (km_Key m)"

lemma keyMapping_injective:
  assumes "keyMapping_utf8 m1" "keyMapping_utf8 m2"
  shows "json_Encode (json_keyMapping m1) = json_Encode (json_keyMapping m2) \<Longrightarrow> m1 = m2"
    "json_Marshal (json_keyMapping m1) = json_Marshal (json_keyMapping m2) \<Longrightarrow> m1 = m2"
proof -
  have inj: "value_of (json_keyMapping m1) = value_of (json_keyMapping m2) \<Longrightarrow> m1 = m2"
    using assms by (simp add: json_keyMapping_def keyMapping_utf8_def valid_utf8_def)
  then show "json_Marshal (json_keyMapping m1) = json_Marshal (json_keyMapping m2) \<Longrightarrow> m1 = m2"
    using parse_Marshal [of "json_keyMapping m1"] parse_Marshal [of "json_keyMapping m2"] by simp
  show "json_Encode (json_keyMapping m1) = json_Encode (json_keyMapping m2) \<Longrightarrow> m1 = m2"
    using inj Encode_value by blast
qed

lemma Encode_not_Marshal: "json_Encode (json_keyMapping m1) \<noteq> json_Marshal (json_keyMapping m2)"
proof
  assume "json_Encode (json_keyMapping m1) = json_Marshal (json_keyMapping m2)"
  then have "last (render (json_keyMapping m1) @ [char_of (10 :: nat)]) = last (render (json_keyMapping m2))"
    by (simp add: json_Encode_def json_Marshal_def)
  then have "char_of (10 :: nat) = CHR ''}''" by (simp add: json_keyMapping_def)
  then show False by (auto dest: arg_cong [where f = "of_char :: char \<Rightarrow> nat"])
qed

lemma create_accepted:
  "Create_SignatureValid C ring c \<longleftrightarrow>
    (\<exists>p. CheckDetachedSignature C ring (json_Encode (json_keyMapping (create_nosig c))) (fst (DecodeString (create_Signature c))) = Inr p)"
  by (auto simp: Create_SignatureValid_def Let_def split: sum.splits)

lemma update_accepted:
  "Update_SignatureValid A key u \<longleftrightarrow> (\<exists>ring p. ReadArmoredKeyRing A key = Inr ring \<and>
    CheckArmoredDetachedSignature A ring (json_Marshal (json_keyMapping (update_nosig u))) (update_Signature u) = Inr p)"
  by (auto simp: Update_SignatureValid_def split: sum.splits)

text \<open>C24: A signature authorises one mapping only. Suppose that a signature verifies on one document
  \<open>doc\<close> as that of a create, and a signature on one document \<open>doc'\<close> as that of an update, whichever
  key checks it (what an unforgeable signature does), and that aliases and keys are valid UTF-8.
  Then all creates accepted with the one have the same alias, key and time stamp, and so have
  all updates accepted with the other; the documents consist of these three fields, and that of
  a create is never that of an update (one ends with a newline).\<close>

theorem signed_mapping_determined:
  assumes "\<forall>d p. CheckDetachedSignature C ring d (fst (DecodeString sg)) = Inr p \<longrightarrow> d = doc"
    "\<forall>ks d p. CheckArmoredDetachedSignature A ks d sg' = Inr p \<longrightarrow> d = doc'"
    "Create_SignatureValid C ring c1" "create_Signature c1 = sg" "valid_utf8 (create_Alias c1)" "valid_utf8 (create_Key c1)"
    "Create_SignatureValid C ring c2" "create_Signature c2 = sg" "valid_utf8 (create_Alias c2)" "valid_utf8 (create_Key c2)"
    "Update_SignatureValid A k1 u1" "update_Signature u1 = sg'" "valid_utf8 (update_Alias u1)" "valid_utf8 (update_Key u1)"
    "Update_SignatureValid A k2 u2" "update_Signature u2 = sg'" "valid_utf8 (update_Alias u2)" "valid_utf8 (update_Key u2)"
  shows "create_Alias c1 = create_Alias c2 \<and> create_Key c1 = create_Key c2 \<and> create_Timestamp c1 = create_Timestamp c2 \<and>
    update_Alias u1 = update_Alias u2 \<and> update_Key u1 = update_Key u2 \<and> update_Timestamp u1 = update_Timestamp u2 \<and>
    doc = json_Encode (JObj [(''Alias'', JStr (create_Alias c1)), (''Key'', JStr (create_Key c1)),
      (''Timestamp'', JInt (create_Timestamp c1))]) \<and>
    doc' = json_Marshal (JObj [(''Alias'', JStr (update_Alias u1)), (''Key'', JStr (update_Key u1)),
      (''Timestamp'', JInt (update_Timestamp u1))]) \<and> doc \<noteq> doc'"
proof -
  have "json_Encode (json_keyMapping (create_nosig c)) = doc"
    if "Create_SignatureValid C ring c" "create_Signature c = sg" for c
    using assms(1) that unfolding create_accepted by auto
  from this [OF assms(3,4)] this [OF assms(7,8)] have c: "json_Encode (json_keyMapping (create_nosig c1)) = doc"
    "json_Encode (json_keyMapping (create_nosig c2)) = doc" .
  have "json_Marshal (json_keyMapping (update_nosig u)) = doc'"
    if "Update_SignatureValid A k u" "update_Signature u = sg'" for k u
    using assms(2) that unfolding update_accepted by auto
  from this [OF assms(11,12)] this [OF assms(15,16)] have u: "json_Marshal (json_keyMapping (update_nosig u1)) = doc'"
    "json_Marshal (json_keyMapping (update_nosig u2)) = doc'" .
  have "create_nosig c1 = create_nosig c2"
    using c assms(5,6,9,10) by (intro keyMapping_injective(1)) (simp_all add: keyMapping_utf8_def create_nosig_def)
  moreover have "update_nosig u1 = update_nosig u2"
    using u assms(13,14,17,18) by (intro keyMapping_injective(2)) (simp_all add: keyMapping_utf8_def update_nosig_def)
  moreover have "doc \<noteq> doc'" using c(1) u(1) Encode_not_Marshal by metis
  ultimately show ?thesis
    using c(1) u(1) by (simp add: create_nosig_def update_nosig_def json_keyMapping_def)
qed

text \<open>The witness: two creates and two updates that differ in their addresses only.\<close>

definition oneCreate :: "json option \<Rightarrow> Create" where
  "oneCreate a = \<lparr>create_Alias = ''bob'', create_Key = ''K1'', create_Timestamp = 7, create_Client = a, create_Signature = ''QQ==''\<rparr>"

definition oneUpdate :: "json option \<Rightarrow> Update" where
  "oneUpdate a = \<lparr>update_Alias = ''bob'', update_Key = ''K2'', update_Timestamp = 8, update_Client = a, update_Signature = ''S''\<rparr>"

definition onePgp :: pgp where
  "onePgp = example_pgp\<lparr>CheckDetachedSignature := (\<lambda>ps d sg.
     if d = json_Encode (json_keyMapping (create_nosig (oneCreate None))) then Inr \<lparr>Fingerprint = [], key_material = []\<rparr> else Inl ''bad'')\<rparr>"

definition oneArmor :: armor where
  "oneArmor = \<lparr>ReadArmoredKeyRing = (\<lambda>_. Inr []), CheckArmoredDetachedSignature = (\<lambda>ks d sg.
     if d = json_Marshal (json_keyMapping (update_nosig (oneUpdate None))) then Inr \<lparr>Fingerprint = [], key_material = []\<rparr> else Inl ''bad'')\<rparr>"

lemma signed_mapping_determined_witness:
  "create_Alias (oneCreate None) = create_Alias (oneCreate (Some JNull)) \<and>
    create_Key (oneCreate None) = create_Key (oneCreate (Some JNull)) \<and>
    create_Timestamp (oneCreate None) = create_Timestamp (oneCreate (Some JNull)) \<and>
    update_Alias (oneUpdate None) = update_Alias (oneUpdate (Some JNull)) \<and>
    update_Key (oneUpdate None) = update_Key (oneUpdate (Some JNull)) \<and>
    update_Timestamp (oneUpdate None) = update_Timestamp (oneUpdate (Some JNull)) \<and>
    json_Encode (json_keyMapping (create_nosig (oneCreate None))) =
      json_Encode (JObj [(''Alias'', JStr (create_Alias (oneCreate None))), (''Key'', JStr (create_Key (oneCreate None))),
        (''Timestamp'', JInt (create_Timestamp (oneCreate None)))]) \<and>
    json_Marshal (json_keyMapping (update_nosig (oneUpdate None))) =
      json_Marshal (JObj [(''Alias'', JStr (update_Alias (oneUpdate None))), (''Key'', JStr (update_Key (oneUpdate None))),
        (''Timestamp'', JInt (update_Timestamp (oneUpdate None)))]) \<and>
    json_Encode (json_keyMapping (create_nosig (oneCreate None))) \<noteq> json_Marshal (json_keyMapping (update_nosig (oneUpdate None)))"
  by (rule signed_mapping_determined [where C = onePgp and ring = "[]" and sg = "''QQ==''" and A = oneArmor and sg' = "''S''"
      and ?k1.0 = "''K1''" and ?k2.0 = "''K1''"])
    (simp_all add: onePgp_def oneArmor_def oneCreate_def oneUpdate_def create_nosig_def update_nosig_def
      create_accepted update_accepted ascii_valid)

lemma digest_valid_set: "snd (DigestValid (SetDigest ko))"
  by (cases ko) (simp add: DigestValid_def SetDigest_def)

text \<open>\<open>SetDigest\<close> makes an operation valid, whatever its digest was, and only the digest it
  sets is valid: an operation whose digest field was set to anything else is rejected, and
  \<open>DigestValid\<close> leaves the operation as it was.\<close>

theorem digest_valid_iff_set:
  "snd (DigestValid ko) = (ko = SetDigest ko) \<and> fst (DigestValid ko) = ko \<and> snd (DigestValid (SetDigest ko)) \<and>
   SetDigest (SetDigest ko) = SetDigest ko"
  by (cases ko) (auto simp: DigestValid_def SetDigest_def)

end
