(* ===== verification/Key_Node.thy ===== *)
theory Key_Node
  imports Client_Api Node
begin

text \<open>
  src/distributepki/keynode.go: the HTTP server that validates operations and proposes them to
  the replica, and the loop that applies what the replica delivers to the key store. The
  replica is seen through its channels only: \<open>Propose\<close> is a value handed to it, \<open>Committed\<close>,
  \<open>SnapshotRequested\<close> and \<open>Snapshotted\<close> are values received from it.
\<close>

section \<open>State and parameters\<close>

text \<open>
  \<open>encoding/gob\<close> is a parameter: an operation as text or an error, and back; a decoding error
  comes with the digest that was filled in before it. What the program relies on is that
  an operation that was encoded is decoded.
\<close>

record gob =
  gob_Encode :: "KeyOperation \<Rightarrow> string + string"
  gob_Decode :: "string \<Rightarrow> (string \<times> byte list) + KeyOperation"

definition gob_reads_back :: "gob \<Rightarrow> bool" where
  "gob_reads_back G \<longleftrightarrow> (\<forall>ko s. gob_Encode G ko = Inr s \<longrightarrow> gob_Decode G s = Inr ko)"

text \<open>The libraries, the global key ring of the authority, and the text of a JSON error.\<close>

record server =
  sv_pgp :: pgp
  sv_armor :: armor
  sv_gob :: gob
  sv_keyring :: "entity list"
  sv_json_error :: "byte list \<Rightarrow> string"

text \<open>
  \<open>pendingRequests\<close> maps a digest to a channel. A channel is a number, its contents are what was
  sent to it and not received yet; the handler of a request keeps its channel also when the
  map no longer does.
\<close>

record KeyNode =
  kn_store :: Keystore
  kn_pending :: "(byte list, nat) gomap"
  kn_channels :: "(nat, string list) gomap"
  kn_next :: nat

definition newKeyNode :: "Keystore \<Rightarrow> KeyNode" where
  "newKeyNode store = \<lparr>kn_store = store, kn_pending = [], kn_channels = [], kn_next = 0\<rparr>"

text \<open>The copy of \<open>ReadPgpKeyFile\<close> in util/shared.go, which the key node and the authority use.\<close>

definition util_ReadPgpKeyFile :: "host_env \<Rightarrow> string \<Rightarrow> string + entity list" where
  "util_ReadPgpKeyFile E path =
     (case env_Open E path of
        Inl e \<Rightarrow> Inl e
      | Inr keyfile \<Rightarrow> (case env_KeyRing E keyfile of Inl readErr \<Rightarrow> Inl readErr | Inr list \<Rightarrow> Inr list))"

text \<open>\<open>SpawnKeyNode\<close> returns nil when the key of the authority cannot be read.\<close>

definition SpawnKeyNode ::
  "host_env \<Rightarrow> NodeConfig \<Rightarrow> ClusterConfig \<Rightarrow> Keystore \<Rightarrow> fault + (entity list \<times> PBFTNode \<times> KeyNode) option" where
  "SpawnKeyNode E thisNode clusterc store =
     (case util_ReadPgpKeyFile E (AuthorityKeyFile clusterc) of
        Inl err \<Rightarrow> Inr None
      | Inr keyring \<Rightarrow>
          (case StartNode E thisNode clusterc of
             Inl f \<Rightarrow> Inl f
           | Inr node \<Rightarrow> Inr (Some (keyring, node, newKeyNode store))))"

section \<open>Operations of clients\<close>

text \<open>An error message, or the text that is proposed (and \<open>Success\<close> set in a reply).\<close>

definition kn_CreateKey :: "server \<Rightarrow> KeyOperation \<Rightarrow> KeyNode \<Rightarrow> string + string" where
  "kn_CreateKey S args kn =
     (if \<not> snd (DigestValid args) then Inl ''Operation digest is invalid (CreateKey)''
      else if ko_OpCode args \<noteq> OP_CREATE then Inl ''Incorrect opcode value (CreateKey)''
      else case ko_Op args of
          OpCreate create \<Rightarrow>
            if \<not> Create_SignatureValid (sv_pgp S) (sv_keyring S) create then Inl ''Signature is invalid (CreateKey)''
            else if fst (LookupKey (create_Alias create) (kn_store kn)) then Inl ''Key already exists for user (CreateKey)''
            else gob_Encode (sv_gob S) args
        | _ \<Rightarrow> Inl ''Operation not a Create (CreateKey)'')"

definition kn_UpdateKey :: "server \<Rightarrow> KeyOperation \<Rightarrow> KeyNode \<Rightarrow> string + string" where
  "kn_UpdateKey S args kn =
     (if \<not> snd (DigestValid args) then Inl ''Operation digest is invalid (UpdateKey)''
      else if ko_OpCode args \<noteq> OP_UPDATE then Inl ''Incorrect opcode value (UpdateKey)''
      else case ko_Op args of
          OpUpdate update \<Rightarrow>
            (case LookupKey (update_Alias update) (kn_store kn) of
               (ok, key) \<Rightarrow>
                 if \<not> ok then Inl ''Key does not exist for user (UpdateKey)''
                 else if \<not> Update_SignatureValid (sv_armor S) key update then Inl ''Update message not signed by client!''
                 else gob_Encode (sv_gob S) args)
        | _ \<Rightarrow> Inl ''Operation not an Update (UpdateKey)'')"

definition kn_LookupKey :: "KeyOperation \<Rightarrow> KeyNode \<Rightarrow> bool \<times> string" where
  "kn_LookupKey args kn =
     (if \<not> snd (DigestValid args) then (False, [])
      else if ko_OpCode args \<noteq> OP_LOOKUP then (False, [])
      else case ko_Op args of
          OpLookup lookup \<Rightarrow> LookupKey (lookup_Alias lookup) (kn_store kn)
        | _ \<Rightarrow> (False, []))"

section \<open>Responses\<close>

datatype response = Response (status: nat) (content: "byte list")

definition http_Error :: "string \<Rightarrow> nat \<Rightarrow> response" where
  "http_Error msg code = Response code (bytes_of (msg @ [char_of (10 :: nat)]))"

definition writeJSON :: "string \<Rightarrow> response" where
  "writeJSON msg = Response 200 (json_Marshal (JStr msg))"

text \<open>
  \<open>respondPendingRequest\<close> sends to the channel stored under the digest, which holds at most 100
  values; a send to a full channel blocks.
\<close>

definition respondPendingRequest :: "byte list \<Rightarrow> string \<Rightarrow> KeyNode \<Rightarrow> fault + KeyNode" where
  "respondPendingRequest digest response kn =
     (case gget (kn_pending kn) digest of
        None \<Rightarrow> Inr kn
      | Some ch \<Rightarrow>
          let sent = (case gget (kn_channels kn) ch of None \<Rightarrow> [] | Some ms \<Rightarrow> ms)
          in if length sent \<ge> 100 then Inl Blocks
             else Inr (kn\<lparr>kn_channels := gput ch (sent @ [response]) (kn_channels kn)\<rparr>))"

text \<open>
  \<open>waitForCommit\<close> before and after its \<open>select\<close>: it registers a new channel; later it takes a
  value from it, or its timer has fired, and it removes whatever is stored under the digest.
\<close>

definition waitForCommit_begin :: "byte list \<Rightarrow> KeyNode \<Rightarrow> nat \<times> KeyNode" where
  "waitForCommit_begin digest kn =
     (kn_next kn, kn\<lparr>kn_channels := gput (kn_next kn) [] (kn_channels kn),
        kn_pending := gput digest (kn_next kn) (kn_pending kn), kn_next := Suc (kn_next kn)\<rparr>)"

definition commitResponse :: "string \<Rightarrow> response" where
  "commitResponse err = (if err = [] then writeJSON [] else http_Error err 500)"

definition waitForCommit_receive :: "byte list \<Rightarrow> nat \<Rightarrow> KeyNode \<Rightarrow> (response \<times> KeyNode) option" where
  "waitForCommit_receive digest ch kn =
     (case gget (kn_channels kn) ch of
        Some (err # ms) \<Rightarrow>
          Some (commitResponse err, kn\<lparr>kn_channels := gput ch ms (kn_channels kn),
            kn_pending := gdel digest (kn_pending kn)\<rparr>)
      | _ \<Rightarrow> None)"

definition waitForCommit_timeout :: "byte list \<Rightarrow> KeyNode \<Rightarrow> response \<times> KeyNode" where
  "waitForCommit_timeout digest kn =
     (commitResponse ''Timeout on wait for Commit'', kn\<lparr>kn_pending := gdel digest (kn_pending kn)\<rparr>)"

section \<open>The HTTP handler\<close>

text \<open>The parts of a request the handler reads; a body that cannot be read is \<open>None\<close>.\<close>

record request =
  rq_Method :: string
  rq_name :: string
  rq_Body :: "byte list option"

text \<open>The handler answers, or it has proposed an operation and waits for its commit.\<close>

datatype outcome =
    Answered response
  | Waiting "byte list" string

definition createOperation :: "Create \<Rightarrow> KeyOperation" where
  "createOperation c = SetDigest \<lparr>ko_OpCode = OP_CREATE, ko_Op = OpCreate c, ko_Digest = zeroDigest\<rparr>"

definition updateOperation :: "Update \<Rightarrow> KeyOperation" where
  "updateOperation u = SetDigest \<lparr>ko_OpCode = OP_UPDATE, ko_Op = OpUpdate u, ko_Digest = zeroDigest\<rparr>"

definition lookupOperation :: "string \<Rightarrow> KeyOperation" where
  "lookupOperation a = SetDigest \<lparr>ko_OpCode = OP_LOOKUP,
     ko_Op = OpLookup \<lparr>lookup_Alias = a, lookup_Client = None\<rparr>, ko_Digest = zeroDigest\<rparr>"

definition handleGet :: "request \<Rightarrow> KeyNode \<Rightarrow> outcome" where
  "handleGet r kn =
     (let (found, key) = kn_LookupKey (lookupOperation (rq_name r)) kn
      in if found then Answered (Response 200 (json_Marshal (JStr key)))
         else Answered (http_Error ''Key not found'' 404))"

definition proposed :: "KeyOperation \<Rightarrow> string + string \<Rightarrow> outcome" where
  "proposed op r = (case r of Inl err \<Rightarrow> Answered (http_Error err 400) | Inr s \<Rightarrow> Waiting (ko_Digest op) s)"

definition handlePost :: "server \<Rightarrow> request \<Rightarrow> KeyNode \<Rightarrow> outcome" where
  "handlePost S r kn =
     (case rq_Body r of
        None \<Rightarrow> Answered (http_Error ''Error reading body.'' 500)
      | Some bodyData \<Rightarrow>
          (case decode_struct set_CreateJSON zeroCreateJSON (parse_document bodyData) of
             None \<Rightarrow> Answered (http_Error (sv_json_error S bodyData) 500)
           | Some createJSON \<Rightarrow>
               let op = createOperation (ToCreate createJSON) in proposed op (kn_CreateKey S op kn)))"

definition handlePut :: "server \<Rightarrow> request \<Rightarrow> KeyNode \<Rightarrow> outcome" where
  "handlePut S r kn =
     (case rq_Body r of
        None \<Rightarrow> Answered (http_Error ''Error reading key.'' 500)
      | Some bodyData \<Rightarrow>
          (case decode_struct set_UpdateJSON zeroUpdateJSON (parse_document bodyData) of
             None \<Rightarrow> Answered (http_Error (sv_json_error S bodyData) 500)
           | Some updateJSON \<Rightarrow>
               let op = updateOperation (ToUpdate updateJSON) in proposed op (kn_UpdateKey S op kn)))"

text \<open>A handler that writes nothing answers 200 with an empty body.\<close>

definition handlerWithContext :: "server \<Rightarrow> bool \<Rightarrow> request \<Rightarrow> KeyNode \<Rightarrow> outcome" where
  "handlerWithContext S isDown r kn =
     (if isDown then Answered (Response 200 [])
      else if rq_Method r = ''GET'' then handleGet r kn
      else if rq_Method r = ''POST'' then handlePost S r kn
      else if rq_Method r = ''PUT'' then handlePut S r kn
      else Answered (Response 200 []))"

section \<open>What the replica delivers\<close>

definition kn_handleCommit :: "server \<Rightarrow> string option \<Rightarrow> KeyNode \<Rightarrow> fault + KeyNode" where
  "kn_handleCommit S operation kn =
     (case operation of
        None \<Rightarrow> Inr kn
      | Some text \<Rightarrow>
          (case gob_Decode (sv_gob S) text of
             Inl (err, digest) \<Rightarrow> respondPendingRequest digest err kn
           | Inr keyOp \<Rightarrow>
               if ko_OpCode keyOp = OP_CREATE then
                 (case ko_Op keyOp of
                    OpCreate create \<Rightarrow>
                      (case CreateKey (create_Alias create) (create_Key create) (kn_store kn) of
                         Inl f \<Rightarrow> Inl f
                       | Inr store \<Rightarrow> respondPendingRequest (ko_Digest keyOp) [] (kn\<lparr>kn_store := store\<rparr>))
                  | _ \<Rightarrow> respondPendingRequest (ko_Digest keyOp) ''Operation not a Create (handleCommit)'' kn)
               else if ko_OpCode keyOp = OP_UPDATE then
                 (case ko_Op keyOp of
                    OpUpdate update \<Rightarrow>
                      (case UpdateKey (update_Alias update) (update_Key update) (kn_store kn) of
                         Inl f \<Rightarrow> Inl f
                       | Inr store \<Rightarrow> respondPendingRequest (ko_Digest keyOp) [] (kn\<lparr>kn_store := store\<rparr>))
                  | _ \<Rightarrow> respondPendingRequest (ko_Digest keyOp) ''Operation not a Update (handleCommit)'' kn)
               else respondPendingRequest (ko_Digest keyOp) [] kn))"

text \<open>The answer to a snapshot request: the slot and the state, for \<open>SnapshotReply\<close>.\<close>

definition handleSnapshotRequest :: "SlotId \<Rightarrow> KeyNode \<Rightarrow> SlotId \<times> byte list" where
  "handleSnapshotRequest slot kn = (slot, GetSnapshot (kn_store kn))"

text \<open>An error of \<open>ApplySnapshot\<close> is ignored.\<close>

definition handleSnapshot :: "byte list \<Rightarrow> KeyNode \<Rightarrow> KeyNode" where
  "handleSnapshot snapshot kn =
     (case ApplySnapshot snapshot (kn_store kn) of None \<Rightarrow> kn | Some store \<Rightarrow> kn\<lparr>kn_store := store\<rparr>)"

end
