(* ===== verification/Authority.thy ===== *)
theory Authority
  imports Key_Node
begin

text \<open>
  src/mock_authority/main.go: the HTTP server that signs any mapping of an alias to a key, with
  the one key it read at its start; and the way of its answer to the key server.
\<close>

section \<open>The authority\<close>

record authConfig =
  ac_PublicKey :: string
  ac_SecretKey :: string
  ac_Secret :: string
  ac_Endpoint :: string
  ac_Host :: string
  ac_Port :: int

record keyMappingSigned =
  kms_Alias :: string
  kms_Key :: string
  kms_Timestamp :: int
  kms_Signature :: "byte list"

definition json_keyMappingSigned :: "keyMappingSigned \<Rightarrow> json" where
  "json_keyMappingSigned m = JObj [(''Alias'', JStr (kms_Alias m)), (''Key'', JStr (kms_Key m)),
     (''Timestamp'', JInt (kms_Timestamp m)), (''Signature'', JBytes (kms_Signature m))]"

definition zeroKeyMapping :: keyMapping where
  "zeroKeyMapping = \<lparr>km_Alias = [], km_Key = [], km_Timestamp = 0\<rparr>"

definition set_KeyMapping :: "string \<Rightarrow> jval \<Rightarrow> keyMapping \<Rightarrow> keyMapping option" where
  "set_KeyMapping key v m =
     (if names key ''Alias'' then map_option (\<lambda>s. m\<lparr>km_Alias := s\<rparr>) (into_string (km_Alias m) v)
      else if names key ''Key'' then map_option (\<lambda>s. m\<lparr>km_Key := s\<rparr>) (into_string (km_Key m) v)
      else if names key ''Timestamp'' then map_option (\<lambda>i. m\<lparr>km_Timestamp := i\<rparr>) (into_int64 (km_Timestamp m) v)
      else Some m)"

text \<open>
  The handler: \<open>jsonError\<close> is the text of a decoding error; a handler that returns without
  writing answers 200 with an empty body. \<open>DetachSign\<close> gets the bytes of the buffer.
\<close>

definition authority_handler ::
  "pgp \<Rightarrow> (byte list \<Rightarrow> string) \<Rightarrow> entity option \<Rightarrow> byte list option \<Rightarrow> response" where
  "authority_handler C jsonError thisEntity body =
     (case body of
        None \<Rightarrow> http_Error ''Please send a request body'' 400
      | Some data \<Rightarrow>
          (case decode_struct set_KeyMapping zeroKeyMapping (parse_stream data) of
             None \<Rightarrow> http_Error (jsonError data) 400
           | Some toSign \<Rightarrow>
               (case thisEntity of
                  None \<Rightarrow> Response 200 []
                | Some e \<Rightarrow>
                    (case DetachSign C e (json_Encode (json_keyMapping toSign)) of
                       Inl err \<Rightarrow> Response 200 []
                     | Inr sig \<Rightarrow> Response 200 (json_Encode (json_keyMappingSigned
                         \<lparr>kms_Alias = km_Alias toSign, kms_Key = km_Key toSign,
                          kms_Timestamp = km_Timestamp toSign, kms_Signature = sig\<rparr>))))))"

text \<open>
  \<open>main\<close> reads the secret key. An unreadable key file is only reported: the list is then nil and
  its first element is out of range. So is a passphrase that cannot be read (it is then
  empty) and one that does not decrypt the key (which then stays encrypted: the entity is
  kept as it is).
\<close>

definition authority_main ::
  "host_env \<Rightarrow> authConfig \<Rightarrow> fault + entity" where
  "authority_main E conf =
     (case (case util_ReadPgpKeyFile E (ac_SecretKey conf) of Inl err \<Rightarrow> [] | Inr l \<Rightarrow> l) of
        [] \<Rightarrow> Inl IndexOutOfRange
      | e # _ \<Rightarrow>
          let phrase = (case ReadPassPhrase E (ac_Secret conf) of Inl err \<Rightarrow> [] | Inr p \<Rightarrow> p)
          in Inr (case Decrypt E e phrase of Inl err \<Rightarrow> e | Inr e' \<Rightarrow> e'))"

text \<open>
  \<open>LoadConfig\<close> (\<open>None\<close>: an error, which is only printed) and the whole of \<open>main\<close>: without a
  configuration it returns. The library refuses the empty pattern with a panic; the error of
  \<open>ListenAndServe\<close> is ignored. \<open>Some\<close> is a server that runs: its key, its endpoint and its address.
\<close>

definition zeroAuthConfig :: authConfig where
  "zeroAuthConfig = \<lparr>ac_PublicKey = [], ac_SecretKey = [], ac_Secret = [], ac_Endpoint = [], ac_Host = [], ac_Port = 0\<rparr>"

definition set_authConfig :: "string \<Rightarrow> jval \<Rightarrow> authConfig \<Rightarrow> authConfig option" where
  "set_authConfig key v c =
     (if names key ''PublicKey'' then map_option (\<lambda>s. c\<lparr>ac_PublicKey := s\<rparr>) (into_string (ac_PublicKey c) v)
      else if names key ''SecretKey'' then map_option (\<lambda>s. c\<lparr>ac_SecretKey := s\<rparr>) (into_string (ac_SecretKey c) v)
      else if names key ''Secret'' then map_option (\<lambda>s. c\<lparr>ac_Secret := s\<rparr>) (into_string (ac_Secret c) v)
      else if names key ''Endpoint'' then map_option (\<lambda>s. c\<lparr>ac_Endpoint := s\<rparr>) (into_string (ac_Endpoint c) v)
      else if names key ''Host'' then map_option (\<lambda>s. c\<lparr>ac_Host := s\<rparr>) (into_string (ac_Host c) v)
      else if names key ''Port'' then map_option (\<lambda>i. c\<lparr>ac_Port := i\<rparr>) (into_int64 (ac_Port c) v)
      else Some c)"

definition authority_LoadConfig :: "host_env \<Rightarrow> string \<Rightarrow> authConfig option" where
  "authority_LoadConfig E filename =
     (case env_ReadFile E filename of
        Inl err \<Rightarrow> None
      | Inr configData \<Rightarrow> decode_struct set_authConfig zeroAuthConfig (parse_document (bytes_of configData)))"

definition authority_start :: "host_env \<Rightarrow> fault + (entity \<times> string \<times> string) option" where
  "authority_start E =
     (case authority_LoadConfig E ''config.json'' of
        None \<Rightarrow> Inr None
      | Some conf \<Rightarrow>
          (case authority_main E conf of
             Inl f \<Rightarrow> Inl f
           | Inr e \<Rightarrow>
               if ac_Endpoint conf = [] then Inl Fatal
               else if Listen E (ac_Port conf) then Inr (Some (e, ac_Endpoint conf, '':'' @ show_int (ac_Port conf)))
               else Inr None))"

text \<open>A file with the members of config.json is read to the values it holds.\<close>

definition json_authConfig :: "authConfig \<Rightarrow> json" where
  "json_authConfig c = JObj [(''publickey'', JStr (ac_PublicKey c)), (''secretkey'', JStr (ac_SecretKey c)),
     (''secret'', JStr (ac_Secret c)), (''endpoint'', JStr (ac_Endpoint c)), (''host'', JStr (ac_Host c)),
     (''port'', JInt (ac_Port c))]"

theorem authority_config_is_read:
  assumes "env_ReadFile E f = Inr (render (json_authConfig c))" "int64 (ac_Port c)"
    "list_all valid_utf8 [ac_PublicKey c, ac_SecretKey c, ac_Secret c, ac_Endpoint c, ac_Host c]"
  shows "authority_LoadConfig E f = Some c"
proof -
  have fields: "set_authConfig ''publickey'' v c = map_option (\<lambda>s. c\<lparr>ac_PublicKey := s\<rparr>) (into_string (ac_PublicKey c) v)"
    "set_authConfig ''secretkey'' v c = map_option (\<lambda>s. c\<lparr>ac_SecretKey := s\<rparr>) (into_string (ac_SecretKey c) v)"
    "set_authConfig ''secret'' v c = map_option (\<lambda>s. c\<lparr>ac_Secret := s\<rparr>) (into_string (ac_Secret c) v)"
    "set_authConfig ''endpoint'' v c = map_option (\<lambda>s. c\<lparr>ac_Endpoint := s\<rparr>) (into_string (ac_Endpoint c) v)"
    "set_authConfig ''host'' v c = map_option (\<lambda>s. c\<lparr>ac_Host := s\<rparr>) (into_string (ac_Host c) v)"
    "set_authConfig ''port'' v c = map_option (\<lambda>i. c\<lparr>ac_Port := i\<rparr>) (into_int64 (ac_Port c) v)" for v c
    by (simp_all add: set_authConfig_def names_def)
  have "parse_document (bytes_of (render (json_authConfig c))) = Some (value_of (json_authConfig c))"
    using parse_Marshal by (simp add: json_Marshal_def)
  with assms show ?thesis
    by (simp add: authority_LoadConfig_def decode_struct_def json_authConfig_def sanitize_ascii fields into_string_def
        into_int64_def Atoi_show_int zeroAuthConfig_def valid_utf8_def)
qed

section \<open>From the authority to the key server\<close>

lemma names_fields:
  "names ''Alias'' ''Alias''" "\<not> names ''Key'' ''Alias''" "names ''Key'' ''Key''"
  "\<not> names ''Timestamp'' ''Alias''" "\<not> names ''Timestamp'' ''Key''" "names ''Timestamp'' ''Timestamp''"
  "\<not> names ''Signature'' ''Alias''" "\<not> names ''Signature'' ''Key''" "\<not> names ''Signature'' ''Timestamp''"
  "names ''Signature'' ''Signature''"
  by (simp_all add: names_def)

lemma field_names_utf8:
  "sanitize ''Alias'' = ''Alias''" "sanitize ''Key'' = ''Key''" "sanitize ''Timestamp'' = ''Timestamp''"
  "sanitize ''Signature'' = ''Signature''"
  by (simp_all add: sanitize_ascii)

lemma Atoi_int64: "Atoi x = Some i \<Longrightarrow> int64 i"
  by (auto simp: Atoi_def Let_def split: if_splits option.splits)

lemma into_KeyMapping_utf8:
  "into_struct set_KeyMapping kvs m = Some m' \<Longrightarrow> list_all (\<lambda>(k, v). utf8_value v) kvs \<Longrightarrow>
    keyMapping_utf8 m \<and> int64 (km_Timestamp m) \<Longrightarrow> keyMapping_utf8 m' \<and> int64 (km_Timestamp m')"
proof (induction kvs arbitrary: m)
  case (Cons kv kvs)
  obtain k v where kv: "kv = (k, v)" by (cases kv)
  with Cons.prems obtain m1 where m1: "set_KeyMapping k v m = Some m1" "into_struct set_KeyMapping kvs m1 = Some m'"
    by (auto split: option.splits)
  have "keyMapping_utf8 m1 \<and> int64 (km_Timestamp m1)"
    using m1(1) Cons.prems(2,3) kv Atoi_int64
    by (auto simp: set_KeyMapping_def keyMapping_utf8_def into_string_def into_int64_def split: if_splits jval.splits)
  with Cons.IH [OF m1(2)] Cons.prems(2) show ?case by simp
qed simp

lemma decoded_utf8:
  assumes "decode_struct set_KeyMapping zeroKeyMapping (parse_stream data) = Some m"
  shows "keyMapping_utf8 m \<and> int64 (km_Timestamp m)"
proof -
  have z: "keyMapping_utf8 zeroKeyMapping \<and> int64 (km_Timestamp zeroKeyMapping)"
    by (simp add: keyMapping_utf8_def zeroKeyMapping_def valid_utf8_def int64_def maxInt64_def)
  from assms obtain v where v: "parse_stream data = Some v" by (auto simp: decode_struct_def split: option.splits)
  with stream_utf8 have "utf8_value v" by blast
  with assms v z show ?thesis
    using into_KeyMapping_utf8 by (auto simp: decode_struct_def split: jval.splits)
qed

text \<open>The document of the authority's answer, read by the key server.\<close>

lemma answer_decoded:
  assumes "keyMapping_utf8 m" "int64 (km_Timestamp m)"
  shows "decode_struct set_CreateJSON zeroCreateJSON (parse_document (json_Encode (json_keyMappingSigned
      \<lparr>kms_Alias = km_Alias m, kms_Key = km_Key m, kms_Timestamp = km_Timestamp m, kms_Signature = sig\<rparr>))) =
    Some \<lparr>cj_Alias = km_Alias m, cj_Key = km_Key m, cj_Timestamp = km_Timestamp m,
      cj_Signature = base64 (map unat sig)\<rparr>"
  using assms
  by (simp add: parse_Encode json_keyMappingSigned_def decode_struct_def field_names_utf8 set_CreateJSON_def names_fields
      into_string_def into_int64_def Atoi_show_int zeroCreateJSON_def keyMapping_utf8_def valid_utf8_def)

lemma authority_signs:
  assumes "authority_handler C jsonError (Some e) (Some data) = Response 200 out" "out \<noteq> []"
  shows "\<exists>m sig. decode_struct set_KeyMapping zeroKeyMapping (parse_stream data) = Some m \<and>
    DetachSign C e (json_Encode (json_keyMapping m)) = Inr sig \<and>
    out = json_Encode (json_keyMappingSigned
      \<lparr>kms_Alias = km_Alias m, kms_Key = km_Key m, kms_Timestamp = km_Timestamp m, kms_Signature = sig\<rparr>)"
  using assms by (auto simp: authority_handler_def http_Error_def split: option.splits sum.splits)

text \<open>C21: From the authority to the key server: whatever mapping the authority signs (over HTTP),
  its answer, posted to a key server that knows the authority's key and has no key for the
  alias, is decoded to this mapping, passes every check and is proposed.\<close>

theorem signed_mapping_is_proposed:
  assumes "pgp_accepts (sv_pgp S)" "\<exists>p\<in>set (sv_keyring S). Fingerprint p = Fingerprint e"
    "authority_handler (sv_pgp S) jsonError (Some e) (Some data) = Response 200 out" "out \<noteq> []"
    "\<And>ko. \<exists>s. gob_Encode (sv_gob S) ko = Inr s"
    "decode_struct set_KeyMapping zeroKeyMapping (parse_stream data) = Some m"
    "\<not> fst (LookupKey (km_Alias m) (kn_store kn))"
  shows "\<exists>c s. create_nosig c = m \<and> gob_Encode (sv_gob S) (createOperation c) = Inr s \<and>
    handlerWithContext S False \<lparr>rq_Method = ''POST'', rq_name = [], rq_Body = Some out\<rparr> kn =
      Waiting (ko_Digest (createOperation c)) s"
proof -
  from authority_signs [OF assms(3,4)] assms(6) obtain sig where
      sig: "DetachSign (sv_pgp S) e (json_Encode (json_keyMapping m)) = Inr sig"
    and out: "out = json_Encode (json_keyMappingSigned
      \<lparr>kms_Alias = km_Alias m, kms_Key = km_Key m, kms_Timestamp = km_Timestamp m, kms_Signature = sig\<rparr>)" by auto
  define c where "c = ToCreate \<lparr>cj_Alias = km_Alias m, cj_Key = km_Key m, cj_Timestamp = km_Timestamp m,
      cj_Signature = base64 (map unat sig)\<rparr>"
  have m: "create_nosig c = m" by (simp add: c_def ToCreate_def create_nosig_def)
  have "DecodeString (create_Signature c) = (sig, True)" by (simp add: c_def ToCreate_def DecodeString_base64)
  then have valid: "Create_SignatureValid (sv_pgp S) (sv_keyring S) c"
    using assms(1,2) sig by (fastforce simp: Create_SignatureValid_def m pgp_accepts_def)
  obtain s where s: "gob_Encode (sv_gob S) (createOperation c) = Inr s" using assms(5) by blast
  have "create_Alias c = km_Alias m" by (simp add: c_def ToCreate_def)
  then have "kn_CreateKey S (createOperation c) kn = Inr s"
    using valid s assms(7) by (simp add: kn_CreateKey_def createOperation_def digest_valid_set) (simp add: SetDigest_def)
  then have "handlerWithContext S False \<lparr>rq_Method = ''POST'', rq_name = [], rq_Body = Some out\<rparr> kn =
      Waiting (ko_Digest (createOperation c)) s"
    using answer_decoded [of m sig] decoded_utf8 [OF assms(6)]
    by (simp add: handlerWithContext_def handlePost_def out c_def [symmetric] proposed_def)
  with m s show ?thesis by blast
qed

end
