(* ===== verification/Key_Server.thy ===== *)
theory Key_Server
  imports Authority Scenario
begin

text \<open>
  The key server's promises: what is proposed was validated, what is committed is applied (and
  is not validated again), what a request is answered, and that the table is the replay of
  the committed operations.
\<close>

section \<open>An example server\<close>

definition exAuthority :: entity where
  "exAuthority = \<lparr>Fingerprint = bytes_of ''authority'', key_material = []\<rparr>"

text \<open>A key is armoured as itself and signs by putting itself before the document.\<close>

definition exArmor :: armor where
  "exArmor = \<lparr>ReadArmoredKeyRing = (\<lambda>k. if k = [] then Inl ''EOF'' else Inr [\<lparr>Fingerprint = bytes_of k, key_material = []\<rparr>]),
     CheckArmoredDetachedSignature = (\<lambda>ring d sg. find_signer ring d (bytes_of sg))\<rparr>"

definition exCreate :: Create where
  "exCreate = \<lparr>create_Alias = ''bob'', create_Key = ''K1'', create_Timestamp = 7, create_Client = None,
     create_Signature = base64 (map unat (Fingerprint exAuthority @
       json_Encode (json_keyMapping \<lparr>km_Alias = ''bob'', km_Key = ''K1'', km_Timestamp = 7\<rparr>)))\<rparr>"

definition exGob :: "KeyOperation \<Rightarrow> gob" where
  "exGob op = \<lparr>gob_Encode = (\<lambda>ko. if ko = op then Inr ''op'' else Inl ''not registered''),
     gob_Decode = (\<lambda>s. if s = ''op'' then Inr op else Inl (''bad text'', zeroDigest))\<rparr>"

definition exServer :: "KeyOperation \<Rightarrow> server" where
  "exServer op = \<lparr>sv_pgp = example_pgp, sv_armor = exArmor, sv_gob = exGob op, sv_keyring = [exAuthority],
     sv_json_error = (\<lambda>_. ''invalid'')\<rparr>"

definition exKeyNode :: "(string, string) gomap \<Rightarrow> KeyNode" where
  "exKeyNode m = newKeyNode (NewKeystore m)"

lemma exGob_reads_back: "gob_reads_back (sv_gob (exServer op))"
  by (auto simp: gob_reads_back_def exServer_def exGob_def split: if_splits)

lemma exServer_simps [simp]:
  "sv_pgp (exServer op) = example_pgp" "sv_keyring (exServer op) = [exAuthority]" "sv_gob (exServer op) = exGob op"
  "gob_Encode (exGob op) op = Inr ''op''" "gob_Decode (exGob op) ''op'' = Inr op"
  by (simp_all add: exServer_def exGob_def)

lemma exKeyNode_simps [simp]:
  "kn_store (exKeyNode m) = NewKeystore m" "kn_pending (exKeyNode m) = []" "kn_next (exKeyNode m) = 0"
  "kn_channels (exKeyNode m) = []"
  by (simp_all add: exKeyNode_def newKeyNode_def)

lemma read_NewKeystore [simp]: "gwf m \<Longrightarrow> read_key (NewKeystore m) = gget m"
  by (simp add: NewKeystore_def read_key_def fun_eq_iff gget_copy)

lemma exCreate_valid: "Create_SignatureValid example_pgp [exAuthority] exCreate"
  by (simp add: Create_SignatureValid_def exCreate_def DecodeString_base64 create_nosig_def example_pgp_def del: map_append)

section \<open>What is proposed was validated\<close>

lemma LookupKey_fst: "fst (LookupKey a ks) \<longleftrightarrow> read_key ks a \<noteq> None"
  by (auto simp: LookupKey_def split: option.splits)

lemma LookupKey_eq: "LookupKey a ks = (True, key) \<longleftrightarrow> read_key ks a = Some key"
  by (auto simp: LookupKey_def split: option.splits)

lemma CreateKey_proposes:
  "kn_CreateKey S args kn = Inr s \<longleftrightarrow>
    (\<exists>c. snd (DigestValid args) \<and> ko_OpCode args = OP_CREATE \<and> ko_Op args = OpCreate c \<and>
      Create_SignatureValid (sv_pgp S) (sv_keyring S) c \<and> read_key (kn_store kn) (create_Alias c) = None \<and>
      gob_Encode (sv_gob S) args = Inr s)"
  by (auto simp: kn_CreateKey_def LookupKey_fst split: operation.splits)

lemma UpdateKey_proposes:
  "kn_UpdateKey S args kn = Inr s \<longleftrightarrow>
    (\<exists>u key. snd (DigestValid args) \<and> ko_OpCode args = OP_UPDATE \<and> ko_Op args = OpUpdate u \<and>
      read_key (kn_store kn) (update_Alias u) = Some key \<and> Update_SignatureValid (sv_armor S) key u \<and>
      gob_Encode (sv_gob S) args = Inr s)"
  by (auto simp: kn_UpdateKey_def LookupKey_eq [symmetric] split: operation.splits prod.splits if_splits)

lemma operation_fields [simp]:
  "ko_OpCode (createOperation c) = OP_CREATE" "ko_Op (createOperation c) = OpCreate c"
  "snd (DigestValid (createOperation c))" "ko_OpCode (updateOperation u) = OP_UPDATE"
  "ko_Op (updateOperation u) = OpUpdate u" "snd (DigestValid (updateOperation u))"
  "ko_OpCode (lookupOperation a) = OP_LOOKUP" "ko_Op (lookupOperation a) = OpLookup \<lparr>lookup_Alias = a, lookup_Client = None\<rparr>"
  "snd (DigestValid (lookupOperation a))"
  unfolding createOperation_def updateOperation_def lookupOperation_def
  by (rule digest_valid_set | simp add: SetDigest_def)+

text \<open>C5: The HTTP server proposes an operation only for a POST that carries a mapping signed by the
  authority for an alias that has no key yet, or for a PUT that is signed with the key the
  alias has now; and never while the replica is down. The operation proposed is exactly the
  one that was checked.\<close>

theorem proposed_operations_validated:
  assumes "handlerWithContext S isDown r kn = Waiting d s"
  shows "\<not> isDown \<and>
    (rq_Method r = ''POST'' \<and> (\<exists>c. read_key (kn_store kn) (create_Alias c) = None \<and>
        Create_SignatureValid (sv_pgp S) (sv_keyring S) c \<and>
        gob_Encode (sv_gob S) (createOperation c) = Inr s \<and> d = ko_Digest (createOperation c)) \<or>
     rq_Method r = ''PUT'' \<and> (\<exists>u key. read_key (kn_store kn) (update_Alias u) = Some key \<and>
        Update_SignatureValid (sv_armor S) key u \<and>
        gob_Encode (sv_gob S) (updateOperation u) = Inr s \<and> d = ko_Digest (updateOperation u)))"
  using assms
  by (auto simp: handlerWithContext_def handleGet_def handlePost_def handlePut_def proposed_def Let_def
      CreateKey_proposes UpdateKey_proposes split: if_splits option.splits sum.splits prod.splits)

definition exPost :: request where
  "exPost = \<lparr>rq_Method = ''POST'', rq_name = [], rq_Body = Some (json_Encode (json_keyMappingSigned
     \<lparr>kms_Alias = ''bob'', kms_Key = ''K1'', kms_Timestamp = 7, kms_Signature = Fingerprint exAuthority @
       json_Encode (json_keyMapping \<lparr>km_Alias = ''bob'', km_Key = ''K1'', km_Timestamp = 7\<rparr>)\<rparr>))\<rparr>"

lemma exPost_waits:
  assumes "gwf m" "gget m ''bob'' = None"
  shows "handlerWithContext (exServer (createOperation exCreate)) False exPost (exKeyNode m) =
    Waiting (ko_Digest (createOperation exCreate)) ''op''"
proof -
  let ?m = "\<lparr>km_Alias = ''bob'', km_Key = ''K1'', km_Timestamp = 7\<rparr>"
  have "keyMapping_utf8 ?m" "int64 (km_Timestamp ?m)"
    by (simp_all add: keyMapping_utf8_def ascii_valid int64_def maxInt64_def)
  from answer_decoded [OF this] have "decode_struct set_CreateJSON zeroCreateJSON (parse_document (the (rq_Body exPost))) =
      Some \<lparr>cj_Alias = ''bob'', cj_Key = ''K1'', cj_Timestamp = 7, cj_Signature = create_Signature exCreate\<rparr>"
    by (simp add: exPost_def exCreate_def)
  moreover have "ToCreate \<lparr>cj_Alias = ''bob'', cj_Key = ''K1'', cj_Timestamp = 7, cj_Signature = create_Signature exCreate\<rparr> = exCreate"
    by (simp add: ToCreate_def exCreate_def)
  moreover have "kn_CreateKey (exServer (createOperation exCreate)) (createOperation exCreate) (exKeyNode m) = Inr ''op''"
    using exCreate_valid assms by (simp add: CreateKey_proposes) (simp add: exCreate_def)
  ultimately show ?thesis
    by (simp add: handlerWithContext_def handlePost_def proposed_def) (simp add: exPost_def proposed_def)
qed

lemma proposed_operations_validated_witness:
  "\<not> False \<and>
    (rq_Method exPost = ''POST'' \<and> (\<exists>c. read_key (kn_store (exKeyNode [])) (create_Alias c) = None \<and>
        Create_SignatureValid (sv_pgp (exServer (createOperation exCreate))) (sv_keyring (exServer (createOperation exCreate))) c \<and>
        gob_Encode (sv_gob (exServer (createOperation exCreate))) (createOperation c) = Inr ''op'' \<and>
        ko_Digest (createOperation exCreate) = ko_Digest (createOperation c)) \<or>
     rq_Method exPost = ''PUT'' \<and> (\<exists>u key. read_key (kn_store (exKeyNode [])) (update_Alias u) = Some key \<and>
        Update_SignatureValid (sv_armor (exServer (createOperation exCreate))) key u \<and>
        gob_Encode (sv_gob (exServer (createOperation exCreate))) (updateOperation u) = Inr ''op'' \<and>
        ko_Digest (createOperation exCreate) = ko_Digest (updateOperation u)))"
  by (rule proposed_operations_validated [OF exPost_waits]) simp_all

text \<open>A server that encodes every operation, and the authority's answer to the mapping of bob to K1.\<close>

definition exAnyServer :: server where
  "exAnyServer = (exServer (createOperation exCreate))\<lparr>sv_gob :=
     \<lparr>gob_Encode = (\<lambda>_. Inr ''text''), gob_Decode = (\<lambda>_. Inl ([], []))\<rparr>\<rparr>"

definition exMapping :: keyMapping where
  "exMapping = \<lparr>km_Alias = ''bob'', km_Key = ''K1'', km_Timestamp = 7\<rparr>"

lemma exMapping_decoded:
  "decode_struct set_KeyMapping zeroKeyMapping (parse_stream (json_Encode (json_keyMapping exMapping))) = Some exMapping"
  using Atoi_show_int [of 7]
  by (simp add: exMapping_def stream_Encode json_keyMapping_def decode_struct_def field_names_utf8 set_KeyMapping_def
      names_fields into_string_def into_int64_def zeroKeyMapping_def sanitize_ascii int64_def maxInt64_def)

lemma exAuthority_answers:
  "authority_handler example_pgp (\<lambda>_. []) (Some exAuthority) (Some (json_Encode (json_keyMapping exMapping))) =
    Response 200 (the (rq_Body exPost))"
  using exMapping_decoded
  by (simp add: authority_handler_def example_pgp_def exPost_def) (simp add: exMapping_def)

lemma signed_mapping_is_proposed_witness:
  "\<exists>c s. create_nosig c = exMapping \<and> gob_Encode (sv_gob exAnyServer) (createOperation c) = Inr s \<and>
    handlerWithContext exAnyServer False \<lparr>rq_Method = ''POST'', rq_name = [], rq_Body = Some (the (rq_Body exPost))\<rparr> (exKeyNode []) =
      Waiting (ko_Digest (createOperation c)) s"
proof (rule signed_mapping_is_proposed [OF _ _ _ _ _ exMapping_decoded])
  show "pgp_accepts (sv_pgp exAnyServer)" using example_pgp_accepts by (simp add: exAnyServer_def)
  show "\<exists>p\<in>set (sv_keyring exAnyServer). Fingerprint p = Fingerprint exAuthority" by (simp add: exAnyServer_def)
  show "authority_handler (sv_pgp exAnyServer) (\<lambda>_. []) (Some exAuthority) (Some (json_Encode (json_keyMapping exMapping))) =
      Response 200 (the (rq_Body exPost))"
    using exAuthority_answers by (simp add: exAnyServer_def)
  show "the (rq_Body exPost) \<noteq> []" by (simp add: exPost_def json_Encode_def flip: length_0_conv)
  show "\<exists>s. gob_Encode (sv_gob exAnyServer) ko = Inr s" for ko by (simp add: exAnyServer_def)
  show "\<not> fst (LookupKey (km_Alias exMapping) (kn_store (exKeyNode [])))" by (simp add: LookupKey_fst)
qed

section \<open>Answers to lookups\<close>

text \<open>A lookup of an alias whose key is valid UTF-8 answers 200 with a document that decodes to
  this key; of an alias without a key 404; and a server whose replica is down answers 200
  with nothing in it, whatever is asked.\<close>

theorem lookup_answers:
  "handlerWithContext S isDown \<lparr>rq_Method = ''GET'', rq_name = a, rq_Body = body\<rparr> kn =
    Answered (if isDown then Response 200 []
      else case read_key (kn_store kn) a of
          Some key \<Rightarrow> Response 200 (json_Marshal (JStr key))
        | None \<Rightarrow> Response 404 (bytes_of (''Key not found'' @ [char_of (10 :: nat)]))) \<and>
   parse_document (json_Marshal (JStr key')) = Some (VStr (sanitize key'))"
  by (simp add: handlerWithContext_def handleGet_def kn_LookupKey_def LookupKey_def http_Error_def parse_Marshal
      split: option.splits)

section \<open>What is committed is applied\<close>

text \<open>The write a committed text stands for.\<close>

definition committed_write :: "gob \<Rightarrow> string option \<Rightarrow> (string \<times> string) option" where
  "committed_write G operation =
     (case operation of
        None \<Rightarrow> None
      | Some text \<Rightarrow>
          (case gob_Decode G text of
             Inl e \<Rightarrow> None
           | Inr ko \<Rightarrow>
               (case ko_Op ko of
                  OpCreate c \<Rightarrow> if ko_OpCode ko = OP_CREATE then Some (create_Alias c, create_Key c) else None
                | OpUpdate u \<Rightarrow> if ko_OpCode ko = OP_UPDATE then Some (update_Alias u, update_Key u) else None
                | _ \<Rightarrow> None)))"

fun run_commits :: "server \<Rightarrow> string option list \<Rightarrow> KeyNode \<Rightarrow> fault + KeyNode" where
  "run_commits S [] kn = Inr kn"
| "run_commits S (op # ops) kn =
     (case kn_handleCommit S op kn of Inl f \<Rightarrow> Inl f | Inr kn' \<Rightarrow> run_commits S ops kn')"

lemma respond_store: "respondPendingRequest d m kn = Inr kn' \<Longrightarrow> kn_store kn' = kn_store kn"
  by (auto simp: respondPendingRequest_def Let_def split: option.splits if_splits)

lemma CreateKey_reads: "CreateKey a k ks = Inr ks' \<Longrightarrow> read_key ks' = (read_key ks)(a \<mapsto> k)"
  by (auto simp: CreateKey_def read_key_def fun_eq_iff split: option.splits)

lemma handleCommit_write:
  "kn_handleCommit S op kn = Inr kn' \<Longrightarrow>
    read_key (kn_store kn') = (case committed_write (sv_gob S) op of
      None \<Rightarrow> read_key (kn_store kn) | Some (a, k) \<Rightarrow> (read_key (kn_store kn))(a \<mapsto> k))"
  by (auto simp: kn_handleCommit_def committed_write_def UpdateKey_CreateKey OP_CREATE_def OP_UPDATE_def
      dest!: respond_store CreateKey_reads split: option.splits sum.splits operation.splits if_splits)

text \<open>The table after a sequence of committed operations is the table before it, overridden by
  the writes of the operations, the last one of an alias winning. So two replicas that start
  with the same table and apply the same operations answer alike, whatever requests they
  are waiting for.\<close>

theorem table_is_replay:
  assumes "run_commits S ops kn = Inr kn'"
  shows "read_key (kn_store kn') =
    read_key (kn_store kn) ++ map_of (rev (List.map_filter (committed_write (sv_gob S)) ops))"
  using assms
proof (induction ops arbitrary: kn)
  case Nil
  then show ?case by (simp add: map_filter_simps)
next
  case (Cons op ops)
  then obtain k1 where k: "kn_handleCommit S op kn = Inr k1" "run_commits S ops k1 = Inr kn'"
    by (auto split: sum.splits)
  from Cons.IH [OF k(2)] handleCommit_write [OF k(1)] show ?case
    by (auto simp: map_filter_simps fun_eq_iff map_add_def split: option.splits prod.splits)
qed

lemma table_is_replay_witness:
  "read_key (kn_store ((exKeyNode [(''bob'', ''K0'')])\<lparr>kn_store := \<lparr>ks_keys = Some [(''bob'', ''K1'')]\<rparr>\<rparr>)) =
    read_key (kn_store (exKeyNode [(''bob'', ''K0'')])) ++
      map_of (rev (List.map_filter (committed_write (sv_gob (exServer (createOperation exCreate)))) [None, Some ''op'']))"
  by (rule table_is_replay)
    (simp add: kn_handleCommit_def CreateKey_def NewKeystore_def copy_map_def gput_def respondPendingRequest_def,
     simp add: exCreate_def)

text \<open>C31: Nothing is validated when it is committed: a text that any caller of the replica's RPC
  \<open>ClientRequest\<close> proposes for itself, with a create for an alias that has a key already and with
  any signature and any digest, replaces the key (if no request waits under that digest and
  the table is not nil). Continuity rests on the check before the proposal alone.\<close>

theorem commit_installs_unsigned:
  assumes "gob_Decode (sv_gob S) s = Inr ko" "ko_OpCode ko = OP_CREATE" "ko_Op ko = OpCreate c" "\<not> down n"
    "ks_keys (kn_store kn) = Some m" "gget (kn_pending kn) (ko_Digest ko) = None"
  shows "ClientRequest_rpc s n = Inr (EvClientRequest (Some s)) \<and>
    (\<exists>kn'. kn_handleCommit S (Some s) kn = Inr kn' \<and> LookupKey (create_Alias c) (kn_store kn') = (True, create_Key c))"
  using assms
  by (simp add: ClientRequest_rpc_def rpcAck_def kn_handleCommit_def CreateKey_def respondPendingRequest_def
      LookupKey_def read_key_def)

text \<open>An unsigned create for bob with a digest of its own.\<close>

definition exForgedCreate :: Create where
  "exForgedCreate = \<lparr>create_Alias = ''bob'', create_Key = ''K9'', create_Timestamp = 0, create_Client = None,
     create_Signature = []\<rparr>"

definition exForged :: KeyOperation where
  "exForged = \<lparr>ko_OpCode = OP_CREATE, ko_Op = OpCreate exForgedCreate, ko_Digest = zeroDigest\<rparr>"

lemma exBackup_up: "\<not> down exBackup"
  by (simp add: exBackup_eq initNode_def)

lemma exKeyNode_keys: "ks_keys (kn_store (exKeyNode [(''bob'', ''K0'')])) = Some [(''bob'', ''K0'')]"
  by (simp add: NewKeystore_def copy_map_def gput_def)

lemma commit_installs_unsigned_witness:
  "ClientRequest_rpc ''op'' exBackup = Inr (EvClientRequest (Some ''op'')) \<and>
    (\<exists>kn'. kn_handleCommit (exServer exForged) (Some ''op'') (exKeyNode [(''bob'', ''K0'')]) = Inr kn' \<and>
      LookupKey (create_Alias exForgedCreate) (kn_store kn') = (True, create_Key exForgedCreate))"
  by (rule commit_installs_unsigned [where ko = exForged, OF _ _ _ exBackup_up exKeyNode_keys])
    (simp_all add: exForged_def)

section \<open>Who is answered\<close>

text \<open>A request whose operation is committed after it began to wait is answered 200 and its entry is
  removed; if the commit comes first (the operation is proposed before the wait begins), the
  key is stored all the same, but nobody is told: the request waits for its timeout and is
  answered 500.\<close>

theorem answer_depends_on_order:
  assumes "gob_Decode (sv_gob S) s = Inr ko" "ko_OpCode ko = OP_CREATE" "ko_Op ko = OpCreate c"
    "ks_keys (kn_store kn) = Some m" "gget (kn_pending kn) (ko_Digest ko) = None"
  shows "(\<exists>ch kn1 kn2 kn3. waitForCommit_begin (ko_Digest ko) kn = (ch, kn1) \<and>
      kn_handleCommit S (Some s) kn1 = Inr kn2 \<and>
      waitForCommit_receive (ko_Digest ko) ch kn2 = Some (writeJSON [], kn3) \<and>
      gget (kn_pending kn3) (ko_Digest ko) = None \<and> LookupKey (create_Alias c) (kn_store kn3) = (True, create_Key c)) \<and>
    (\<exists>ch kn1 kn2 kn3. kn_handleCommit S (Some s) kn = Inr kn1 \<and>
      waitForCommit_begin (ko_Digest ko) kn1 = (ch, kn2) \<and>
      waitForCommit_receive (ko_Digest ko) ch kn2 = None \<and>
      waitForCommit_timeout (ko_Digest ko) kn2 = (http_Error ''Timeout on wait for Commit'' 500, kn3) \<and>
      LookupKey (create_Alias c) (kn_store kn3) = (True, create_Key c))"
  using assms
  by (simp add: waitForCommit_begin_def waitForCommit_receive_def waitForCommit_timeout_def kn_handleCommit_def
      CreateKey_def respondPendingRequest_def commitResponse_def LookupKey_def read_key_def)

lemma answer_depends_on_order_witness:
  "(\<exists>ch kn1 kn2 kn3. waitForCommit_begin (ko_Digest exForged) (exKeyNode [(''bob'', ''K0'')]) = (ch, kn1) \<and>
      kn_handleCommit (exServer exForged) (Some ''op'') kn1 = Inr kn2 \<and>
      waitForCommit_receive (ko_Digest exForged) ch kn2 = Some (writeJSON [], kn3) \<and>
      gget (kn_pending kn3) (ko_Digest exForged) = None \<and>
      LookupKey (create_Alias exForgedCreate) (kn_store kn3) = (True, create_Key exForgedCreate)) \<and>
    (\<exists>ch kn1 kn2 kn3. kn_handleCommit (exServer exForged) (Some ''op'') (exKeyNode [(''bob'', ''K0'')]) = Inr kn1 \<and>
      waitForCommit_begin (ko_Digest exForged) kn1 = (ch, kn2) \<and>
      waitForCommit_receive (ko_Digest exForged) ch kn2 = None \<and>
      waitForCommit_timeout (ko_Digest exForged) kn2 = (http_Error ''Timeout on wait for Commit'' 500, kn3) \<and>
      LookupKey (create_Alias exForgedCreate) (kn_store kn3) = (True, create_Key exForgedCreate))"
  by (rule answer_depends_on_order [OF _ _ _ exKeyNode_keys]) (simp_all add: exForged_def)

end
