(* ===== verification/Commit_Order.thy ===== *)
theory Commit_Order
  imports Loop_Variable Equivocation Key_Server
begin

text \<open>
  Requests are handed over when their slots commit, not in the order of the slots: without any
  fault two replicas apply the same requests in different orders.
\<close>

section \<open>Two slots\<close>

abbreviation exP :: "SlotId \<times> string" where
  "exP \<equiv> (SlotId 0 2, ''op-1'')"

abbreviation exQ :: "SlotId \<times> string" where
  "exQ \<equiv> (SlotId 0 3, ''op-2'')"

text \<open>The digests of the two requests differ, by evaluation.\<close>

lemma first_word_ops: "first_word 1869622577 = 127338762" "first_word 1869622578 = 2119563106"
  by code_simp+

lemma bytes_ops: "bytes_of ''op-1'' = [111, 112, 45, 49]" "bytes_of ''op-2'' = [111, 112, 45, 50]"
  by (simp_all add: bytes_of_def)

lemma digests_differ: "GenerateDigest ''op-1'' \<noteq> GenerateDigest ''op-2''"
proof -
  have "take 4 (GenerateDigest ''op-1'') = be_bytes32 (1779033703 + 127338762)"
    unfolding GenerateDigest_def bytes_ops
    by (rule Sum256_word) (simp add: first_word_ops push_bit_eq_mult)
  moreover have "take 4 (GenerateDigest ''op-2'') = be_bytes32 (1779033703 + 2119563106)"
    unfolding GenerateDigest_def bytes_ops
    by (rule Sum256_word) (simp add: first_word_ops push_bit_eq_mult)
  moreover have "be_bytes32 (1779033703 + 127338762) \<noteq> be_bytes32 (1779033703 + 2119563106)"
    by (simp add: be_bytes32_def)
  ultimately show ?thesis by metis
qed

definition exBoth :: "NodeId \<Rightarrow> (SlotId \<times> string \<Rightarrow> Slot) \<Rightarrow> PBFTNode" where
  "exBoth i s = (exNode i)\<lparr>issuedSequenceNumber := 3, log := [(SlotId 0 2, s exP), (SlotId 0 3, s exQ)]\<rparr>"

definition exHeld :: "NodeId \<Rightarrow> SlotId \<times> string \<Rightarrow> Slot" where
  "exHeld i p = \<lparr>s_request = Some (snd p), s_requestDigest = GenerateDigest (snd p),
     s_preprepare = Some (fpp_SignedMessage (snd (exProposal p))), s_prepares = [(i, exPrepare1 p i)], s_commits = [],
     s_prepared = False, s_committed = False\<rparr>"

definition exReady :: "NodeId \<Rightarrow> NodeId \<Rightarrow> SlotId \<times> string \<Rightarrow> Slot" where
  "exReady i j p = (exHeld i p)\<lparr>s_prepares := [(i, exPrepare1 p i), (j, exPrepare1 p j)], s_commits := [(i, exCommit1 p i)],
     s_prepared := True\<rparr>"

lemma ex_both_held:
  assumes "i \<in> {1, 2, 3}"
  shows "handle_all example_pgp [EvPrePrepare (snd (exProposal exP)), EvPrePrepare (snd (exProposal exQ))] (exNode i) =
    Inr (exBoth i (exHeld i), [Broadcast (RpcPrepare (exPrepare1 exP i)), Broadcast (RpcPrepare (exPrepare1 exQ i))])"
proof -
  have "4 \<noteq> i" using assms by auto
  note f = exNode_fields [OF assms]
  have u: "isPrimary (n\<lparr>issuedSequenceNumber := m, log := lg\<rparr>) = isPrimary n"
    "getPrimary (n\<lparr>issuedSequenceNumber := m, log := lg\<rparr>) = getPrimary n"
    "getTimeout (n\<lparr>issuedSequenceNumber := m, log := lg\<rparr>) = getTimeout n" for n m lg
    by (simp_all add: isPrimary_def getPrimary_def getTimeout_def split: sum.split)
  have t: "(exNode i)\<lparr>timeoutTimer := Some (newTimer 750000000), issuedSequenceNumber := m, log := lg\<rparr> =
      (exNode i)\<lparr>issuedSequenceNumber := m, log := lg\<rparr>" for m lg
    using exNode_timer [OF assms] by simp
  from exValid_any [OF assms _ \<open>4 \<noteq> i\<close>] show ?thesis
    by (simp add: ex_step f u t exNode_timer [OF assms] handlePrePrepare_def acceptPrePrepare_def
        SignedPrePrepare_SignatureValid_def zeroPrePrepare_def exProposal_def exPrepare1_def exBoth_def exHeld_def)
qed

lemma ex_both_ready:
  assumes "i \<in> {1, 2, 3}" "j \<in> {1, 2, 3}" "j \<noteq> i"
  shows "handle_all example_pgp [EvPrepare (exPrepare1 exP j), EvPrepare (exPrepare1 exQ j)] (exBoth i (exHeld i)) =
    Inr (exBoth i (exReady i j), [Broadcast (RpcCommit (exCommit1 exP i)), Broadcast (RpcCommit (exCommit1 exQ i))])"
proof -
  note f = exNode_fields [OF assms(1)]
  have p: "isPrimary ((exNode i)\<lparr>issuedSequenceNumber := m, log := lg\<rparr>) = False" for m lg
    using f by (simp add: isPrimary_def)
  have "j \<in> {1, 2, 3, 4}" using assms(2) by blast
  from exValid_any [OF assms(1) this assms(3)] p assms(3) show ?thesis
    by (simp add: ex_step f handlePrepare_def SignedPrepare_SignatureValid_def isPrepared_def
        exPrepare1_def exCommit1_def exBoth_def exHeld_def exReady_def)
qed

lemma ex_both_delivered:
  assumes "i \<in> {1, 2, 3}" "j \<in> {1, 2, 3}" "j \<noteq> i" "(p, q) \<in> {(exP, exQ), (exQ, exP)}"
  shows "\<exists>n. handle_all example_pgp [EvCommit (exCommit1 p j), EvCommit (exCommit1 q j)] (exBoth i (exReady i j)) =
    Inr (n, [Committed (Some (snd p)), Committed (Some (snd q))])"
proof -
  note f = exNode_fields [OF assms(1)]
  have p: "isPrimary ((exNode i)\<lparr>issuedSequenceNumber := m, log := lg\<rparr>) = False"
    "isPrimary ((exNode i)\<lparr>issuedSequenceNumber := m, log := lg, sequenceNumber := k\<rparr>) = False"
    "isPrimary ((exNode i)\<lparr>sequenceNumber := k, issuedSequenceNumber := m, log := lg\<rparr>) = False" for m lg k
    using f by (simp_all add: isPrimary_def)
  have "j \<in> {1, 2, 3, 4}" using assms(2) by blast
  from exValid_any [OF assms(1) this assms(3)] p assms(3,4) show ?thesis
    by (auto simp: ex_step f handleCommit_def SignedCommit_SignatureValid_def isCommitted_def
        Before_def tryCheckpoint_def exCommit1_def exBoth_def exHeld_def exReady_def)
qed

section \<open>The whole run\<close>

lemma handle_all_append: "handle_all C (evs @ evs') n = andThen (handle_all C evs n) (handle_all C evs')"
  by (induction evs arbitrary: n) (auto simp: andThen_def ret_def split: sum.splits)

definition exOffers :: "event list" where
  "exOffers = [EvPrePrepare (snd (exProposal exP)), EvPrePrepare (snd (exProposal exQ))]"

definition exPrepares :: "NodeId \<Rightarrow> event list" where
  "exPrepares j = [EvPrepare (exPrepare1 exP j), EvPrepare (exPrepare1 exQ j)]"

text \<open>What a replica broadcasts for the two slots.\<close>

definition exVotesOf :: "NodeId \<Rightarrow> effect list" where
  "exVotesOf i = [Broadcast (RpcPrepare (exPrepare1 exP i)), Broadcast (RpcPrepare (exPrepare1 exQ i)),
     Broadcast (RpcCommit (exCommit1 exP i)), Broadcast (RpcCommit (exCommit1 exQ i))]"

lemma ex_both_voted:
  assumes "i \<in> {1, 2, 3}" "j \<in> {1, 2, 3}" "j \<noteq> i"
  shows "handle_all example_pgp (exOffers @ exPrepares j) (exNode i) = Inr (exBoth i (exReady i j), exVotesOf i)"
  unfolding handle_all_append exOffers_def exPrepares_def ex_both_held [OF assms(1)] exVotesOf_def
  by (simp add: andThen_def ex_both_ready [OF assms] del: handle_all.simps)

lemma ex_both_committed:
  assumes "i \<in> {1, 2, 3}" "j \<in> {1, 2, 3}" "j \<noteq> i" "(p, q) \<in> {(exP, exQ), (exQ, exP)}"
  shows "\<exists>n. handle_all example_pgp (exOffers @ exPrepares j @ [EvCommit (exCommit1 p j), EvCommit (exCommit1 q j)])
    (exNode i) = Inr (n, exVotesOf i @ [Committed (Some (snd p)), Committed (Some (snd q))])"
  using ex_both_delivered [OF assms]
  unfolding append_assoc [symmetric] handle_all_append [of _ "exOffers @ exPrepares j"] ex_both_voted [OF assms(1-3)]
  by (auto simp: andThen_def simp del: handle_all.simps)

lemma ex_both_proposed:
  "\<exists>n. handle_all example_pgp [EvClientRequest (Some ''op-1''), EvClientRequest (Some ''op-2'')] exLeader =
    Inr (n, [Broadcast (RpcPrePrepare (snd (exProposal exP))), Broadcast (RpcPrePrepare (snd (exProposal exQ)))])"
  using digests_differ digests_differ [symmetric]
  by (simp add: ex_step handleClientRequest_def exLeader_fields exLeader_primary exProposal_def isPrimary_def leader_of_four)

section \<open>The tables\<close>

definition delivered :: "effect list \<Rightarrow> string option list" where
  "delivered es = List.map_filter (\<lambda>e. case e of Committed r \<Rightarrow> Some r | _ \<Rightarrow> None) es"

text \<open>Two creates for the alias bob, which has no key.\<close>

definition exTwoCreates :: server where
  "exTwoCreates = (exServer (createOperation exCreate))\<lparr>sv_gob := \<lparr>gob_Encode = (\<lambda>_. Inl ''not used''),
     gob_Decode = (\<lambda>s. if s = ''op-1'' then Inr (createOperation (exCreate\<lparr>create_Key := ''K1''\<rparr>))
       else Inr (createOperation (exCreate\<lparr>create_Key := ''K2''\<rparr>)))\<rparr>\<rparr>"

lemma ex_tables:
  "\<exists>kn. run_commits exTwoCreates [Some ''op-1'', Some ''op-2''] (exKeyNode []) = Inr kn \<and>
     LookupKey ''bob'' (kn_store kn) = (True, ''K2'')"
  "\<exists>kn. run_commits exTwoCreates [Some ''op-2'', Some ''op-1''] (exKeyNode []) = Inr kn \<and>
     LookupKey ''bob'' (kn_store kn) = (True, ''K1'')"
  by (simp_all add: exTwoCreates_def kn_handleCommit_def CreateKey_def NewKeystore_def copy_map_def gput_def
      respondPendingRequest_def LookupKey_def read_key_def exCreate_def gget_def)

text \<open>C7: Replicas diverge without any fault: the four nodes run the code, every message that is handled
  was sent, the leader numbers two requests; only two commits of node 3 reach node 2 in the
  other order. A request is applied when its slot commits, not in the order of the slots, so
  nodes 1 and 2 end with different keys for one alias.\<close>

theorem tables_diverge_without_faults:
  "\<exists>n4 n3 n1 es1 n2 es2 k1 k2.
     handle_all example_pgp [EvClientRequest (Some ''op-1''), EvClientRequest (Some ''op-2'')] exLeader =
       Inr (n4, [Broadcast (RpcPrePrepare (snd (exProposal exP))), Broadcast (RpcPrePrepare (snd (exProposal exQ)))]) \<and>
     handle_all example_pgp (exOffers @ exPrepares 1) (exNode 3) = Inr (n3, exVotesOf 3) \<and>
     handle_all example_pgp (exOffers @ exPrepares 3 @ [EvCommit (exCommit1 exP 3), EvCommit (exCommit1 exQ 3)])
       (exNode 1) = Inr (n1, exVotesOf 1 @ es1) \<and>
     handle_all example_pgp (exOffers @ exPrepares 3 @ [EvCommit (exCommit1 exQ 3), EvCommit (exCommit1 exP 3)])
       (exNode 2) = Inr (n2, exVotesOf 2 @ es2) \<and>
     run_commits exTwoCreates (delivered es1) (exKeyNode []) = Inr k1 \<and>
     run_commits exTwoCreates (delivered es2) (exKeyNode []) = Inr k2 \<and>
     LookupKey ''bob'' (kn_store k1) = (True, ''K2'') \<and> LookupKey ''bob'' (kn_store k2) = (True, ''K1'')"
proof -
  have d: "delivered [Committed (Some a), Committed (Some b)] = [Some a, Some b]" for a b
    by (simp add: delivered_def map_filter_simps)
  obtain n4 where n4: "handle_all example_pgp [EvClientRequest (Some ''op-1''), EvClientRequest (Some ''op-2'')] exLeader =
      Inr (n4, [Broadcast (RpcPrePrepare (snd (exProposal exP))), Broadcast (RpcPrePrepare (snd (exProposal exQ)))])"
    using ex_both_proposed by blast
  obtain n1 where n1: "handle_all example_pgp (exOffers @ exPrepares 3 @ [EvCommit (exCommit1 exP 3), EvCommit (exCommit1 exQ 3)])
      (exNode 1) = Inr (n1, exVotesOf 1 @ [Committed (Some ''op-1''), Committed (Some ''op-2'')])"
    using ex_both_committed [of 1 3 exP exQ] by auto
  obtain n2 where n2: "handle_all example_pgp (exOffers @ exPrepares 3 @ [EvCommit (exCommit1 exQ 3), EvCommit (exCommit1 exP 3)])
      (exNode 2) = Inr (n2, exVotesOf 2 @ [Committed (Some ''op-2''), Committed (Some ''op-1'')])"
    using ex_both_committed [of 2 3 exQ exP] by auto
  have n3: "handle_all example_pgp (exOffers @ exPrepares 1) (exNode 3) = Inr (exBoth 3 (exReady 3 1), exVotesOf 3)"
    by (rule ex_both_voted) simp_all
  obtain k1 k2 where "run_commits exTwoCreates [Some ''op-1'', Some ''op-2''] (exKeyNode []) = Inr k1"
      "LookupKey ''bob'' (kn_store k1) = (True, ''K2'')"
      "run_commits exTwoCreates [Some ''op-2'', Some ''op-1''] (exKeyNode []) = Inr k2"
      "LookupKey ''bob'' (kn_store k2) = (True, ''K1'')" using ex_tables by blast
  with n1 n2 n3 n4 show ?thesis unfolding d [symmetric] by blast
qed

end
