(* ===== verification/Leader_Faults.thy ===== *)
theory Leader_Faults
  imports Proposals
begin

text \<open>
  The one way a running leader is stopped by a message of its peers: its heartbeat reads the
  slot after the number a peer has reported, without asking whether there is one.
\<close>

lemma pgp_signs_NewView: "pgp_signs C e \<Longrightarrow> \<exists>m. NewView_Sign C e nv = Inr m"
  unfolding pgp_signs_def NewView_Sign_def by (auto split: sum.splits) (metis Inl_Inr_False)

lemma pgp_signs_CheckpointProof: "pgp_signs C e \<Longrightarrow> \<exists>m. CheckpointProofMessage_Sign C e cp = Inr m"
  unfolding pgp_signs_def CheckpointProofMessage_Sign_def by (auto split: sum.splits) (metis Inl_Inr_False)

lemma heartbeatMessage_fault:
  assumes "pgp_signs C (node_entity n)" "heartbeatMessage C s n = Inl f"
  shows "f = NilDeref"
  using assms(2) pgp_signs_PrePrepare [OF assms(1), of zeroPrePrepare] pgp_signs_CheckpointProof [OF assms(1)]
  by (auto simp: heartbeatMessage_def split: if_splits sum.splits option.splits) (metis Inl_Inr_False)+

lemma heartbeats_fault:
  assumes "pgp_signs C (node_entity n)" "p \<in> set ps" "caughtUpOf n p \<noteq> 0"
    "heartbeatMessage C (caughtUpOf n p) n = Inl NilDeref"
  shows "heartbeats C n ps = Inl NilDeref"
  using assms(2)
proof (induction ps)
  case (Cons q ps)
  have f: "heartbeats C n ps = Inl f \<Longrightarrow> f = NilDeref" for f
    using heartbeatMessage_fault [OF assms(1)]
    by (induction ps arbitrary: f) (auto split: if_splits sum.splits)
  show ?case
  proof (cases "q = p")
    case True
    then show ?thesis using assms(3,4) by simp
  next
    case False
    then have "heartbeats C n ps = Inl NilDeref" using Cons by simp
    then show ?thesis
      using heartbeatMessage_fault [OF assms(1)] pgp_signs_NewView [OF assms(1), of "currentNewView n"]
      by (auto split: sum.splits)
  qed
qed simp

text \<open>C30: One peer stops the leader: when it answers a heartbeat with its own signature and a number
  that is not the leader's, not below the last checkpoint, and after which the leader has no
  slot in this view (any number that is large enough), the leader's next heartbeat
  dereferences nil, whatever the other peers do.\<close>

theorem one_peer_stops_the_leader:
  assumes "isPrimary n" "heartbeatTicker n = Some t" "t_active t" "\<not> down n" "\<not> vci_inProgress (viewChange n)"
    "pgp_signs C (node_entity n)" "p \<in> fst ` set (peermap n)"
    "SignedPPResponse_SignatureValid C (peerEntities n) (peerEntityMap n) r = Inr p"
    "s = ppr_SeqNumber (sppr_Response r)" "s \<noteq> 0" "s \<noteq> sequenceNumber n" "SeqNumber (cp_Number (lastCheckpoint n)) \<le> s"
    "gget (log n) (SlotId (viewNumber n) (add64 s 1)) = None"
  shows "\<exists>n'. handleMessages C (EvHeartbeatReply p r None) n = Inr (n', []) \<and>
    handleMessages C EvTimer n' = Inl NilDeref"
proof -
  define n' where "n' = n\<lparr>caughtUp := gput p s (caughtUp n)\<rparr>"
  have prim: "isPrimary n'" using assms(1) by (simp add: n'_def isPrimary_def)
  have t: "getTimer n = Inr t" "getTimer n' = Inr t" using assms(1,2) prim by (simp_all add: getTimer_def n'_def)
  have "handleMessages C (EvHeartbeatReply p r None) n = Inr (n', [])"
    using assms(8,9) by (simp add: handleMessages_def t afterHeartbeat_def n'_def ret_def)
  moreover have c: "caughtUpOf n' p = s" by (simp add: caughtUpOf_def n'_def)
  have "heartbeatMessage C s n' = Inl NilDeref"
    using assms(11-13) by (simp add: heartbeatMessage_def n'_def)
  with c have "heartbeats C n' (gkeys (peermap n')) = Inl NilDeref"
    using assms(6,7,10) by (intro heartbeats_fault [where p = p]) (auto simp: n'_def gkeys_def)
  then have "handleMessages C EvTimer n' = Inl NilDeref"
    using assms(3-5) prim by (simp add: handleMessages_def t handleHeartbeatTimeout_def timerFired_def sendHeartbeat_def)
      (simp add: n'_def)
  ultimately show ?thesis by blast
qed

text \<open>Node 2 of the example cluster claims to be at 7, right after the start.\<close>

definition exAhead :: SignedPPResponse where
  "exAhead = projr (PPResponse_Sign example_pgp (exKey 2) \<lparr>ppr_SeqNumber = 7\<rparr>)"

lemma one_peer_stops_the_leader_witness:
  "\<exists>n'. handleMessages example_pgp (EvHeartbeatReply 2 exAhead None) exLeader = Inr (n', []) \<and>
    handleMessages example_pgp EvTimer n' = Inl NilDeref"
proof (rule one_peer_stops_the_leader [where s = 7, OF exLeader_primary])
  show "heartbeatTicker exLeader = Some (newTimer 500000000)" by (simp add: exLeader_fields)
  show "t_active (newTimer 500000000)" by (simp add: newTimer_def)
  show "pgp_signs example_pgp (node_entity exLeader)" by (rule example_pgp_signs)
  show "SignedPPResponse_SignatureValid example_pgp (peerEntities exLeader) (peerEntityMap exLeader) exAhead = Inr 2"
    using exValid4 [of 2]
    by (simp add: SignedPPResponse_SignatureValid_def exAhead_def PPResponse_Sign_def PPResponse_GetSignature_def
        example_pgp_def [symmetric] exLeader_more) (simp add: example_pgp_def)
qed (simp_all add: exLeader_fields exLeader_more exAhead_def PPResponse_Sign_def PPResponse_GetSignature_def
    example_pgp_def initCheckpoint_def gget_def)

end
