(* ===== verification/Replayed_Votes.thy ===== *)
theory Replayed_Votes
  imports Leader_Faults Progress
begin

text \<open>
  Votes for a view change are never forgotten: what a vote can do that comes again after its view
  was entered.
\<close>

section \<open>A view that is led twice\<close>

text \<open>Node \<open>i\<close> asks for view 2.\<close>

definition exViewChange2 :: "NodeId \<Rightarrow> SignedViewChange" where
  "exViewChange2 i = projr (ViewChange_Sign example_pgp (exKey i)
     \<lparr>vc_ViewNumber = 2, vc_Checkpoint = SlotId 0 0, vc_CheckpointProof = [], vc_Proofs = [], vc_Node = i\<rparr>)"

definition exReplay :: "event list" where
  "exReplay = [EvViewChange (exViewChange2 2), EvViewChange (exViewChange2 3), EvViewChange (exViewChange 2)]"

text \<open>C38: A leader can be made to lead a view a second time, out of the view change to the next one: votes
  that led to the view are kept, and a vote of one peer that comes again completes their
  quorum, although the view is not above the one the leader asks for. It announces the view anew
  and starts its sequence numbers over.\<close>

theorem view_is_led_twice:
  "reachable example_pgp exLeader_leads \<and> viewNumber exLeader_leads = 1 \<and>
   (\<exists>n es nv i vc. handle_all example_pgp exReplay exLeader_leads = Inr (n, es) \<and>
      Broadcast (RpcViewChange vc) \<in> set es \<and> vc_ViewNumber (svc_Message vc) = 2 \<and> vci_viewNumber (viewChange n) = 2 \<and>
      SendTo i (RpcNewView nv) \<in> set es \<and> nv_ViewNumber (snv_Message nv) = 1 \<and>
      viewNumber n = 1 \<and> \<not> vci_inProgress (viewChange n))"
proof -
  have "reachable example_pgp exLeader_leads"
  proof (rule reachable_event [OF exLeader_changing_reachable])
    show "handleMessages example_pgp (EvViewChange (exViewChange 1)) exLeader_changing =
        Inr (exLeader_leads, [SendTo 1 (RpcNewView exSignedNewView), SendTo 2 (RpcNewView exSignedNewView),
          SendTo 3 (RpcNewView exSignedNewView)])"
      using ex_leads leader_of_four
      by (simp add: handleMessages_def getTimer_def isPrimary_def exLeader_changing_def exLeader_fields stopTimers_def)
  qed
  moreover have "viewNumber exLeader_leads = 1" by (simp add: exLeader_leads_def)
  moreover have "\<exists>n es nv i vc. handle_all example_pgp exReplay exLeader_leads = Inr (n, es) \<and>
      Broadcast (RpcViewChange vc) \<in> set es \<and> vc_ViewNumber (svc_Message vc) = 2 \<and> vci_viewNumber (viewChange n) = 2 \<and>
      SendTo i (RpcNewView nv) \<in> set es \<and> nv_ViewNumber (snv_Message nv) = 1 \<and>
      viewNumber n = 1 \<and> \<not> vci_inProgress (viewChange n)"
    using exValid4 [of 2] exValid4 [of 3] leader_of_four
    by (simp add: exReplay_def exViewChange2_def ex_viewchange exLeader_fields exLeader_more exLeader_leads_def exNewView_def
        stopTimers_def leadNewView_def generatePrepreparesForNewView_def countVotes_def enterNewView_def
        startTimers_def sendHeartbeat_def isPrimary_def exLeader_primary currentNewView_def caughtUpOf_def gkeys_def)
      (force)
  ultimately show ?thesis by blast
qed

end
