(* ===== verification/Single_Delivery.thy ===== *)
theory Single_Delivery
  imports Delivery
begin

text \<open>
  A committed slot along a whole run: which operations can make the replica forget that a slot
  was committed, and so how often one slot can be handed to the key node.
\<close>

section \<open>Slots that cannot be handed over again\<close>

text \<open>
  A slot is settled when it is committed, or belongs to a view this replica leads, or is not
  after the last stable checkpoint.
\<close>

definition settled :: "PBFTNode \<Rightarrow> SlotId \<Rightarrow> bool" where
  "settled n k \<longleftrightarrow> s_committed (slotAt n k) \<or> LeaderFor (cluster n) (ViewNumber k) = Inr (node_id n) \<or>
     BeforeOrEqual k (cp_Number (lastCheckpoint n))"

definition settles :: "PBFTNode \<Rightarrow> PBFTNode \<Rightarrow> bool" where
  "settles n n' \<longleftrightarrow> (\<forall>k. settled n k \<longrightarrow> settled n' k)"

lemma settles_refl [simp]: "settles n n"
  by (simp add: settles_def)

lemma settles_trans: "settles n m \<Longrightarrow> settles m r \<Longrightarrow> settles n r"
  by (simp add: settles_def)

interpretation settling: run_preorder settles
  by unfold_locales (auto intro: settles_trans)

lemmas holds_settles_trans = settling.holds_trans
lemmas holds_settles_andThen = settling.holds_compose

lemma config_leader: "config n' = config n \<Longrightarrow> cluster n' = cluster n \<and> node_id n' = node_id n"
  by (simp add: config_def)

lemma settles_log:
  assumes "config n' = config n" "lastCheckpoint n' = lastCheckpoint n"
    "\<And>k. s_committed (slotAt n k) \<Longrightarrow> s_committed (slotAt n' k)"
  shows "settles n n'"
  using assms(2,3) config_leader [OF assms(1)] by (auto simp: settles_def settled_def)

lemma settles_frame:
  assumes "config n' = config n" "lastCheckpoint n' = lastCheckpoint n" "log n' = log n"
  shows "settles n n'"
  using assms(3) by (intro settles_log assms(1,2)) (simp add: slotAt_def)

lemma settles_put:
  assumes "settles n m"
    "s_committed (slotAt m k) \<Longrightarrow> s_committed s \<or> LeaderFor (cluster m) (ViewNumber k) = Inr (node_id m)"
  shows "settles n (putSlot k s m)"
proof (rule settles_trans [OF assms(1)])
  have "cluster (putSlot k s m) = cluster m" by (simp add: putSlot_def)
  then show "settles m (putSlot k s m)" using assms(2) by (auto simp: settles_def settled_def)
qed

lemma settles_ensureMapping: "settles n (ensureMapping k n)"
  by (auto simp: ensureMapping_def slotAt_def intro: settles_put split: option.splits)

section \<open>Every handler keeps settled slots settled\<close>

lemma checkpointed_settles: "holds (\<lambda>m es. settles n m) (checkpointed ck n)"
proof (rule holdsI)
  fix m es assume r: "checkpointed ck n = Inr (m, es)"
  show "settles n m"
  proof (cases "Before (cp_Number ck) (cp_Number (lastCheckpoint n))")
    case True
    with r show ?thesis by (simp add: checkpointed_stale)
  next
    case False
    then obtain lg: "\<And>k. gget (log m) k =
       (if BeforeOrEqual k (cp_Number ck) \<and> gget (pendingCheckpoints n) k \<noteq> None then None else gget (log n) k)"
      and ck: "lastCheckpoint m = ck"
      using r by (elim checkpointed_fresh [of ck n]) (auto simp: ret_def)
    have le: "cp_Number (lastCheckpoint n) \<le> cp_Number ck" using False by (simp add: Before_less)
    have c: "cluster m = cluster n \<and> node_id m = node_id n"
      using keeps_config [OF holdsD [OF checkpointed_keeps [of undefined] r]] by (rule config_leader)
    show ?thesis
      unfolding settles_def settled_def BeforeOrEqual_le ck
      using c le lg by (auto simp: slotAt_def BeforeOrEqual_le split: option.splits)
  qed
qed

lemma handleCheckpointNoValidation_settles: "holds (\<lambda>m es. settles n m) (handleCheckpointNoValidation msg n)"
  unfolding handleCheckpointNoValidation_def Let_def
  by (auto intro: settles_frame intro!: holds_settles_trans [OF settles_frame checkpointed_settles])

lemma handleCheckpoint_settles: "holds (\<lambda>m es. settles n m) (handleCheckpoint C msg n)"
  by (auto simp: handleCheckpoint_def handleCheckpointNoValidation_settles split: sum.splits)

lemma handleCheckpointProof_settles: "holds (\<lambda>m es. settles n m) (handleCheckpointProof C msg n)"
  unfolding handleCheckpointProof_def Let_def
  by (auto split: sum.splits intro: settles_frame intro!: holds_settles_trans [OF settles_frame checkpointed_settles])

lemma handleRecvSnapshot_settles: "holds (\<lambda>m es. settles n m) (handleRecvSnapshot C num st n)"
  unfolding handleRecvSnapshot_def
  by (auto split: sum.splits intro!: holds_andThenI [OF handleCheckpointNoValidation_settles,
      where Q = "\<lambda>s t es. t = s"])

lemma handleClientRequest_settles: "holds (\<lambda>m es. settles n m) (handleClientRequest C r n)"
proof -
  have p: "settles n (putSlot (SlotId (viewNumber n) i) s (n\<lparr>requests := rq, issuedSequenceNumber := j\<rparr>))"
    if "isPrimary n" for i j s rq
    by (rule settles_put [OF settles_frame]) (use that in \<open>simp_all add: isPrimary_def\<close>)
  show ?thesis
    unfolding handleClientRequest_def Let_def
    by (auto intro: settles_frame p split: option.splits sum.splits)
qed

lemma acceptPrePrepare_settles: "holds (\<lambda>m es. settles n m) (acceptPrePrepare C pp n)"
proof -
  define num where "num = pp_Number (spp_PrePrepareMessage (fpp_SignedMessage pp))"
  define n1 where "n1 = (if SeqNumber num > issuedSequenceNumber n
      then n\<lparr>issuedSequenceNumber := SeqNumber num\<rparr> else n)"
  have a: "settles n n1" by (auto simp: n1_def intro: settles_frame)
  show ?thesis
    unfolding acceptPrePrepare_def Let_def num_def [symmetric] n1_def [symmetric]
    by (auto split: sum.splits intro!: settles_put a)
qed

lemma handlePrePrepare_settles: "holds (\<lambda>m es. settles n m) (handlePrePrepare C pp n)"
proof -
  have t: "settles n (n\<lparr>timeoutTimer := Some t\<rparr>)" for t by (rule settles_frame) simp_all
  show ?thesis
    unfolding handlePrePrepare_def Let_def
    by (auto split: sum.splits option.splits simp: t
        intro!: settles_trans [OF t settles_ensureMapping]
          holds_settles_trans [OF settles_trans [OF t settles_ensureMapping] acceptPrePrepare_settles])
qed

lemma handlePrepare_settles: "holds (\<lambda>m es. settles n m) (handlePrepare C msg n)"
  unfolding handlePrepare_def Let_def
  by (auto split: sum.splits intro!: settles_put)

lemma handleCommit_settles: "holds (\<lambda>m es. settles n m) (handleCommit C msg n)"
proof -
  have q: "settles n (n\<lparr>sequenceNumber := i\<rparr>)" for i by (rule settles_frame) simp_all
  show ?thesis
    unfolding handleCommit_def Let_def
    by (auto split: sum.splits simp: andThen_def emit_def tryCheckpoint_def ret_def intro!: settles_put q)
qed

lemma startViewChange_settles: "holds (\<lambda>m es. settles n m) (startViewChange C view n)"
  unfolding startViewChange_def Let_def
  by (auto split: sum.splits intro!: settles_frame)

text \<open>The leader of a view writes the slots of this view only.\<close>

definition leads :: "int \<Rightarrow> PBFTNode \<Rightarrow> bool" where
  "leads view n \<longleftrightarrow> LeaderFor (cluster n) view = Inr (node_id n)"

lemma leads_config: "config n' = config n \<Longrightarrow> leads view n' = leads view n"
  by (auto simp: leads_def dest: config_leader)

lemma newview_round_settles:
  assumes "newview_round C view s seqNums st = Inr st'" "leads view (fst st)"
  shows "settles (fst st) (fst st') \<and> leads view (fst st')"
proof -
  obtain n pps where st: "st = (n, pps)" by (cases st)
  from assms(1) obtain slot where n': "fst st' = putSlot (SlotId view s) slot n"
    by (auto simp: st newview_round_def Let_def split: prod.splits sum.splits)
  with assms(2) show ?thesis
    by (auto simp: st leads_def n' putSlot_simps intro: settles_put) (simp add: putSlot_def)
qed

lemma newview_loop_settles:
  assumes "newview_loop C view s maxS seqNums st = Some (Inr st')" "leads view (fst st)"
  shows "settles (fst st) (fst st')"
proof -
  have "r = Inr st' \<Longrightarrow> leads view (fst st) \<Longrightarrow> settles (fst st) (fst st')"
    if "newview_loop C view s maxS seqNums st = Some r" for r
  proof (rule newview_loop.raw_induct [where P = "\<lambda>C view s maxS seqNums st r.
        r = Inr st' \<longrightarrow> leads view (fst st) \<longrightarrow> settles (fst st) (fst st')", rule_format, OF _ that])
    fix f C view s maxS seqNums st r
    assume IH: "\<And>C view s maxS seqNums st r. f C view s maxS seqNums st = Some r \<Longrightarrow>
        r = Inr st' \<Longrightarrow> leads view (fst st) \<Longrightarrow> settles (fst st) (fst st')"
      and eq: "(if s \<le> maxS then
        (case newview_round C view s seqNums st of
           Inl f \<Rightarrow> Some (Inl f)
         | Inr st' \<Rightarrow> f C view (add64 s 1) maxS seqNums st') else Some (Inr st)) = Some r"
      and r: "r = Inr st'" and lead: "leads view (fst st)"
    show "settles (fst st) (fst st')"
    proof (cases "s \<le> maxS")
      case False
      with eq r show ?thesis by simp
    next
      case True
      with eq r obtain st1 where r1: "newview_round C view s seqNums st = Inr st1"
        and f: "f C view (add64 s 1) maxS seqNums st1 = Some (Inr st')"
        by (auto split: sum.splits)
      from newview_round_settles [OF r1 lead] IH [OF f refl] show ?thesis
        by (blast intro: settles_trans)
    qed
  qed
  with assms show ?thesis by blast
qed

lemma generatePreprepares_settles:
  assumes "generatePrepreparesForNewView C view n = Inr (n', pps)" "leads view n"
  shows "settles n n'"
proof -
  from assms obtain maxS n1 where p: "settles n n1"
    and n': "n' = n1 \<or> n' = n1\<lparr>issuedSequenceNumber := maxS\<rparr>"
    unfolding generatePrepreparesForNewView_def Let_def
    by (auto split: prod.splits if_splits option.splits sum.splits dest!: newview_loop_settles)
      (metis settles_refl)+
  have "settles n1 n'" using n' by (auto intro: settles_frame)
  with p show ?thesis by (rule settles_trans)
qed

lemma sendHeartbeat_settles: "holds (\<lambda>m es. settles n m) (sendHeartbeat C n)"
  using sendHeartbeat_same [of n C] by (auto simp: holds_def split: sum.splits)

lemma leadNewView_settles:
  assumes "leads view n"
  shows "holds (\<lambda>m es. settles n m) (leadNewView C view n)"
proof (cases "generatePrepreparesForNewView C view n")
  case (Inr r)
  obtain n1 pps where r: "r = (n1, pps)" by (cases r)
  have g: "settles n n1" using generatePreprepares_settles Inr r assms by blast
  define n2 where "n2 = n1\<lparr>newView := \<lparr>nv_ViewNumber = view, nv_ViewChanges = vci_messages (viewChange n1),
                      nv_PrePrepares = pps, nv_Node = node_id n1\<rparr>,
                    newViewShared := True,
                    caughtUp := fold (\<lambda>p m. gput p 0 m) (gkeys (peermap n1)) (caughtUp n1)\<rparr>"
  have "settles n1 (enterNewView view n2)"
    by (rule settles_frame) (simp_all add: enterNewView_def n2_def)
  with g have "settles n (enterNewView view n2)" by (rule settles_trans)
  then have "holds (\<lambda>m es. settles n m) (sendHeartbeat C (enterNewView view n2))"
    by (rule holds_settles_trans) (rule sendHeartbeat_settles)
  then show ?thesis by (simp add: leadNewView_def Inr r Let_def n2_def)
qed (simp add: leadNewView_def)

lemma handleViewChange_settles: "holds (\<lambda>m es. settles n m) (handleViewChange C msg n)"
proof -
  define n1 where "n1 = n\<lparr>viewChange := (viewChange n)\<lparr>vci_messages :=
      gput (vc_Node (svc_Message msg)) msg (vci_messages (viewChange n))\<rparr>\<rparr>"
  have a: "settles n n1" unfolding n1_def by (rule settles_frame) simp_all
  show ?thesis
    unfolding handleViewChange_def Let_def n1_def [symmetric]
    by (auto split: sum.splits prod.splits simp: leads_def
        intro: a holds_settles_trans [OF a startViewChange_settles]
        holds_settles_trans [OF a leadNewView_settles])
qed

lemma assignLoopVar_settles: "settles n (assignLoopVar pp aliased n)"
proof (induction aliased arbitrary: n)
  case Nil
  then show ?case by (simp add: assignLoopVar_def)
next
  case (Cons k aliased)
  have "settles n (putSlot k ((slotAt n k)\<lparr>s_request := Some (fpp_Request pp),
       s_preprepare := Some (fpp_SignedMessage pp)\<rparr>) n)"
    by (rule settles_put) simp_all
  then show ?case using Cons by (auto simp: assignLoopVar_def intro: settles_trans)
qed

lemma newview_preprepares_settles: "holds (\<lambda>m es. settles n m) (newview_preprepares C pps aliased n)"
proof (induction pps arbitrary: aliased n)
  case (Cons e rest)
  show ?case
    by (cases e)
      (auto simp: Let_def intro: holds_settles_trans [OF assignLoopVar_settles] Cons
        intro!: holds_settles_trans [OF assignLoopVar_settles holds_settles_andThen [OF handlePrePrepare_settles]])
qed simp

lemma handleNewView_settles: "holds (\<lambda>m es. settles n m) (handleNewView C msg n)"
proof -
  have "settles n (enterNewView view n)" for view
    by (rule settles_frame) (simp_all add: enterNewView_def)
  then show ?thesis
    unfolding handleNewView_def Let_def
    by (auto intro: holds_settles_trans [OF _ newview_preprepares_settles])
qed

lemma handleEvent_settles: "holds (\<lambda>m es. settles n m) (handleEvent C ev n)"
proof (cases ev)
  case (EvDebug msg)
  have "settles n (n\<lparr>down := b\<rparr>)" for b by (rule settles_frame) simp_all
  then show ?thesis using EvDebug by (simp add: handleDebug_def handleClientRequest_settles)
next
  case EvTimer
  have a: "settles n (timerFired n)"
    by (rule settles_frame) (simp_all add: timerFired_def)
  show ?thesis
    using holds_settles_trans [OF a startViewChange_settles] holds_settles_trans [OF a sendHeartbeat_settles]
      a EvTimer
    by (simp add: handleHeartbeatTimeout_def)
next
  case (EvNewViewReply p err)
  then show ?thesis by (auto simp: afterNewView_def intro: settles_frame)
next
  case (EvHeartbeatReply p r err)
  then show ?thesis by (auto simp: afterHeartbeat_def intro: settles_frame split: sum.splits)
qed (simp_all add: handlePrePrepare_settles handleClientRequest_settles handlePrepare_settles
    handleCommit_settles handleCheckpoint_settles handleCheckpointProof_settles
    handleViewChange_settles handleNewView_settles handleRecvSnapshot_settles startViewChange_settles)

lemma node_step_settles:
  assumes "node_step C n n'" "log_ok C n"
  shows "settles n n'"
  using assms(1)
proof (cases rule: node_step.cases)
  case (message ev es)
  then have "n' = n \<or> handleEvent C ev n = Inr (n', es)"
    by (auto simp: handleMessages_def split: sum.splits if_splits)
  then show ?thesis using holdsD [OF handleEvent_settles] by auto
next
  case (order lg pd ms)
  have "gwf (log n)" using assms(2) by (simp add: log_ok_def)
  with order have "slotAt n' k = slotAt n k" for k by (simp add: slotAt_def gsame_gget)
  with order show ?thesis by (intro settles_log) simp_all
qed

lemma node_steps_settle:
  assumes "(node_step C)\<^sup>*\<^sup>* n n'" "log_ok C n"
  shows "settles n n'"
  using assms
proof (induction rule: rtranclp_induct)
  case (step m r)
  from node_steps_keep [OF step.hyps(1)] step.prems have "log_ok C m" by (simp add: keeps_def)
  with step node_step_settles show ?case by (blast intro: settles_trans)
qed simp

section \<open>Once per slot\<close>

text \<open>
  One run of the commit handler hands a request over: the slot was not committed and is now, by
  a quorum; the request is the slot's, and no second value follows it.
\<close>

definition hands_over :: "PBFTNode \<Rightarrow> PBFTNode \<Rightarrow> effect list \<Rightarrow> SlotId \<Rightarrow> string option \<Rightarrow> bool" where
  "hands_over n n' es k r \<longleftrightarrow>
     \<not> s_committed (slotAt n k) \<and> s_committed (slotAt n' k) \<and> isCommitted n (slotAt n' k) \<and>
     r = s_request (slotAt n k) \<and> (\<exists>rest. es = Committed r # rest \<and> quiet n' rest)"

lemma handover:
  assumes "handleMessages C ev n = Inr (n', es)" "Committed r \<in> set es"
  shows "\<exists>m. ev = EvCommit m \<and> hands_over n n' es (c_Number (sc_CommitMessage m)) r \<and>
    \<not> Before (c_Number (sc_CommitMessage m)) (cp_Number (lastCheckpoint n))"
proof -
  obtain m where ev: "ev = EvCommit m"
    using holdsD [OF handleMessages_quiet assms(1)] assms(2) by (auto simp: quiet_def)
  with assms(1,2) have h: "handleCommit C m n = Inr (n', es)"
    by (auto simp: handleMessages_def ret_def split: sum.splits)
  moreover have "\<not> Before (c_Number (sc_CommitMessage m)) (cp_Number (lastCheckpoint n))"
    using h assms(2) by (auto simp: handleCommit_def ret_def Let_def split: sum.splits if_splits)
  ultimately show ?thesis
    using handleCommit_delivery [OF _ assms(2)] ev by (fastforce simp: hands_over_def quiet_def)
qed

text \<open>C6: A request is handed to the key node only by a commit message that completes the quorum of
  a slot that was not committed before, and once in that run of the handler. In the whole rest of
  the run the same slot is handed over again only if this replica leads the slot's view (and so
  may overwrite the slot by a new proposal), or if the slot is exactly that of its last stable
  checkpoint, whose entry was dropped from the log.\<close>

theorem delivered_once_per_slot:
  assumes "reachable C n1" "handleMessages C ev1 n1 = Inr (m1, es1)" "Committed r1 \<in> set es1"
    "(node_step C)\<^sup>*\<^sup>* m1 n2" "handleMessages C ev2 n2 = Inr (m2, es2)" "Committed r2 \<in> set es2"
  shows "\<exists>c1 c2 k1 k2. ev1 = EvCommit c1 \<and> k1 = c_Number (sc_CommitMessage c1) \<and> hands_over n1 m1 es1 k1 r1 \<and>
    ev2 = EvCommit c2 \<and> k2 = c_Number (sc_CommitMessage c2) \<and> hands_over n2 m2 es2 k2 r2 \<and>
    (k1 \<noteq> k2 \<or> LeaderFor (cluster n1) (ViewNumber k1) = Inr (node_id n1) \<or> k1 = cp_Number (lastCheckpoint n2))"
proof -
  from handover [OF assms(2,3)] obtain c1 where 1: "ev1 = EvCommit c1"
    "hands_over n1 m1 es1 (c_Number (sc_CommitMessage c1)) r1" by blast
  from handover [OF assms(5,6)] obtain c2 where 2: "ev2 = EvCommit c2"
    "hands_over n2 m2 es2 (c_Number (sc_CommitMessage c2)) r2"
    "\<not> Before (c_Number (sc_CommitMessage c2)) (cp_Number (lastCheckpoint n2))" by blast
  have m1: "reachable C m1" by (rule reachable_event [OF assms(1,2)])
  then have "log_ok C m1" using reachable_ok by (auto simp: node_ok_def)
  with assms(4) have s: "settles m1 n2" by (rule node_steps_settle)
  have c: "cluster n2 = cluster n1 \<and> node_id n2 = node_id n1"
    using keeps_config [OF keeps_trans [OF holdsD [OF handleMessages_keeps assms(2)] node_steps_keep [OF assms(4)]]]
    by (rule config_leader)
  have "c_Number (sc_CommitMessage c1) = c_Number (sc_CommitMessage c2) \<Longrightarrow>
      settled n2 (c_Number (sc_CommitMessage c1)) \<and> \<not> s_committed (slotAt n2 (c_Number (sc_CommitMessage c1)))"
    using 1(2) 2(2) s unfolding hands_over_def settles_def settled_def by metis
  then have "c_Number (sc_CommitMessage c1) \<noteq> c_Number (sc_CommitMessage c2) \<or>
      LeaderFor (cluster n1) (ViewNumber (c_Number (sc_CommitMessage c1))) = Inr (node_id n1) \<or>
      c_Number (sc_CommitMessage c1) = cp_Number (lastCheckpoint n2)"
    using 2(3) c unfolding settled_def BeforeOrEqual_le Before_less by force
  with 1 2 show ?thesis by blast
qed

text \<open>
  The run of the witness: node 1 commits slot 100 with its own commit and node 3's and hands the
  request over; the votes of the three peers make the checkpoint of slot 100 stable and the slot
  is dropped; the late commits of nodes 2 and 4 complete a second quorum for it, and an empty
  request is handed over.
\<close>

definition ckSlot :: SlotId where
  "ckSlot = SlotId 0 100"

definition ckPrePrepare :: FullPrePrepare where
  "ckPrePrepare = \<lparr>fpp_SignedMessage = projr (PrePrepare_Sign example_pgp (exKey 4)
       \<lparr>pp_Number = ckSlot, pp_RequestDigest = exDigest\<rparr>), fpp_Request = ''op''\<rparr>"

definition ckPrepare :: "NodeId \<Rightarrow> SignedPrepare" where
  "ckPrepare i = projr (Prepare_Sign example_pgp (exKey i)
     \<lparr>p_Number = ckSlot, p_RequestDigest = exDigest, p_Node = i\<rparr>)"

definition ckCommit :: "NodeId \<Rightarrow> SignedCommit" where
  "ckCommit i = projr (Commit_Sign example_pgp (exKey i)
     \<lparr>c_Number = ckSlot, c_RequestDigest = exDigest, c_Node = i\<rparr>)"

definition ckSlot1 :: Slot where
  "ckSlot1 = \<lparr>s_request = Some ''op'', s_requestDigest = exDigest,
     s_preprepare = Some (fpp_SignedMessage ckPrePrepare), s_prepares = [(1, ckPrepare 1)], s_commits = [],
     s_prepared = False, s_committed = False\<rparr>"

definition ckSlot2 :: Slot where
  "ckSlot2 = ckSlot1\<lparr>s_prepares := [(1, ckPrepare 1), (3, ckPrepare 3)], s_commits := [(1, ckCommit 1)],
     s_prepared := True\<rparr>"

definition ckSlot3 :: Slot where
  "ckSlot3 = ckSlot2\<lparr>s_commits := [(1, ckCommit 1), (3, ckCommit 3)], s_committed := True\<rparr>"

definition ckNode :: "Slot \<Rightarrow> PBFTNode" where
  "ckNode s = exBackup\<lparr>issuedSequenceNumber := 100, log := [(ckSlot, s)]\<rparr>"

definition ckDelivered :: "(SlotId, CheckpointProof) gomap \<Rightarrow> PBFTNode" where
  "ckDelivered ps = (ckNode ckSlot3)\<lparr>sequenceNumber := 100, pendingCheckpoints := ps\<rparr>"

definition ckFlushed :: "(SlotId, Slot) gomap \<Rightarrow> PBFTNode" where
  "ckFlushed lg = exBackup\<lparr>issuedSequenceNumber := 100, log := lg, sequenceNumber := 100,
     lastCheckpoint := exProof [2, 3, 4]\<rparr>"

definition ckLate :: Slot where
  "ckLate = emptySlot\<lparr>s_commits := [(2, ckCommit 2)]\<rparr>"

definition ckLate' :: Slot where
  "ckLate' = emptySlot\<lparr>s_commits := [(2, ckCommit 2), (4, ckCommit 4)], s_committed := True\<rparr>"

lemma ck_accepted:
  "handleMessages example_pgp (EvPrePrepare ckPrePrepare) exBackup =
     Inr (ckNode ckSlot1, [Broadcast (RpcPrepare (ckPrepare 1))])"
  using exValid [of 4]
  by (simp add: ex_step exBackup_simps exBackup_timer handlePrePrepare_def acceptPrePrepare_def
      SignedPrePrepare_SignatureValid_def zeroPrePrepare_def ckPrePrepare_def ckPrepare_def
      ckNode_def ckSlot1_def exDigest_def ckSlot_def)

lemma ck_prepared:
  "handleMessages example_pgp (EvPrepare (ckPrepare 3)) (ckNode ckSlot1) =
     Inr (ckNode ckSlot2, [Broadcast (RpcCommit (ckCommit 1))])"
  using exValid [of 3]
  by (simp add: ex_step exBackup_simps handlePrepare_def SignedPrepare_SignatureValid_def isPrepared_def
      ckPrepare_def ckCommit_def ckNode_def ckSlot1_def ckSlot2_def ckSlot_def)

lemma ck_committed:
  "handleMessages example_pgp (EvCommit (ckCommit 3)) (ckNode ckSlot2) =
     Inr (ckDelivered [], [Committed (Some ''op''), SnapshotRequested ckSlot])"
  using exValid [of 3]
  by (simp add: ex_step exBackup_simps handleCommit_def SignedCommit_SignatureValid_def isCommitted_def
      Before_def tryCheckpoint_def ckCommit_def ckNode_def ckDelivered_def ckSlot1_def ckSlot2_def ckSlot3_def
      ckSlot_def)

lemma ck_vote2:
  "handleMessages example_pgp (EvCheckpoint (exCheckpoint 2)) (ckDelivered []) =
     Inr (ckDelivered [(ckSlot, exProof [2])], [])"
  using exValid [of 2] by (simp add: ex_checkpoint ckDelivered_def ckNode_def ckSlot_def)

lemma ck_vote3:
  "handleMessages example_pgp (EvCheckpoint (exCheckpoint 3)) (ckDelivered [(ckSlot, exProof [2])]) =
     Inr (ckDelivered [(ckSlot, exProof [2, 3])], [])"
  using exValid [of 3] by (simp add: ex_checkpoint ckDelivered_def ckNode_def ckSlot_def)

lemma ck_vote4:
  "handleMessages example_pgp (EvCheckpoint (exCheckpoint 4)) (ckDelivered [(ckSlot, exProof [2, 3])]) =
     Inr (ckFlushed [], [])"
  using exValid [of 4]
  by (simp add: ex_checkpoint ckDelivered_def ckNode_def ckSlot_def checkpointed_def gkeys_def gdel_def
      ckFlushed_def)

lemma ck_late2:
  "handleMessages example_pgp (EvCommit (ckCommit 2)) (ckFlushed []) = Inr (ckFlushed [(ckSlot, ckLate)], [])"
  using exValid [of 2]
  by (simp add: ex_step exBackup_simps handleCommit_def SignedCommit_SignatureValid_def isCommitted_def
      Before_def ckCommit_def ckFlushed_def ckLate_def ckSlot_def exProof_def)

lemma ck_late4:
  "handleMessages example_pgp (EvCommit (ckCommit 4)) (ckFlushed [(ckSlot, ckLate)]) =
     Inr (ckFlushed [(ckSlot, ckLate')], [Committed None, SnapshotRequested ckSlot])"
  using exValid [of 4]
  by (simp add: ex_step exBackup_simps handleCommit_def SignedCommit_SignatureValid_def isCommitted_def
      Before_def tryCheckpoint_def ckCommit_def ckFlushed_def ckLate_def ckLate'_def ckSlot_def exProof_def)

lemma ck_flush: "(node_step example_pgp)\<^sup>*\<^sup>* (ckDelivered []) (ckFlushed [])"
  using node_step.message [OF ck_vote2] node_step.message [OF ck_vote3] node_step.message [OF ck_vote4]
  by (meson converse_rtranclp_into_rtranclp rtranclp.rtrancl_refl)

lemma ck_rest: "(node_step example_pgp)\<^sup>*\<^sup>* (ckDelivered []) (ckFlushed [(ckSlot, ckLate)])"
  using ck_flush node_step.message [OF ck_late2] by (rule rtranclp.rtrancl_into_rtrancl)

lemma ck_reachable: "reachable example_pgp (ckNode ckSlot2)"
  by (rule reachable_event [OF reachable_event [OF exBackup_reachable ck_accepted] ck_prepared])

lemma delivered_once_per_slot_witness:
  "\<exists>c1 c2 k1 k2. EvCommit (ckCommit 3) = EvCommit c1 \<and> k1 = c_Number (sc_CommitMessage c1) \<and>
    hands_over (ckNode ckSlot2) (ckDelivered []) [Committed (Some ''op''), SnapshotRequested ckSlot] k1 (Some ''op'') \<and>
    EvCommit (ckCommit 4) = EvCommit c2 \<and> k2 = c_Number (sc_CommitMessage c2) \<and>
    hands_over (ckFlushed [(ckSlot, ckLate)]) (ckFlushed [(ckSlot, ckLate')])
      [Committed None, SnapshotRequested ckSlot] k2 None \<and>
    (k1 \<noteq> k2 \<or> LeaderFor (cluster (ckNode ckSlot2)) (ViewNumber k1) = Inr (node_id (ckNode ckSlot2)) \<or>
      k1 = cp_Number (lastCheckpoint (ckFlushed [(ckSlot, ckLate)])))"
  by (rule delivered_once_per_slot [OF ck_reachable ck_committed _ ck_rest ck_late4]) simp_all


end
