(* ===== verification/Replica.thy ===== *)
theory Replica
  imports Key_Server
begin

text \<open>
  A whole replica: the goroutine of the consensus node (\<open>handleMessages\<close>) and the goroutine of
  the key node (\<open>handleUpdates\<close>), which talk over channels. \<open>Committed\<close>, \<open>SnapshotRequested\<close>
  and \<open>Snapshotted\<close> have no buffer: a send waits until the other side receives. The channel of
  the snapshots that come back (\<open>recvSnapshotChannel\<close>) holds one.
\<close>

section \<open>State and steps\<close>

text \<open>
  \<open>pr_out\<close>: the sends the current handler of the consensus node has still to do; \<open>pr_reply\<close>: the
  snapshot the key node is about to send back; \<open>pr_snaps\<close>: the buffer of that channel;
  \<open>pr_done\<close>: what the key node has received, for the specification.
\<close>

record process =
  pr_node :: PBFTNode
  pr_out :: "effect list"
  pr_key :: KeyNode
  pr_reply :: "(SlotId \<times> byte list) option"
  pr_snaps :: "(SlotId \<times> byte list) list"
  pr_done :: "effect list"

fun on_channel :: "effect \<Rightarrow> bool" where
  "on_channel (Committed r) = True"
| "on_channel (SnapshotRequested k) = True"
| "on_channel (Snapshotted b) = True"
| "on_channel _ = False"

text \<open>One iteration of \<open>handleUpdates\<close> on a value it has received: the key node and its reply.\<close>

definition handleUpdates :: "server \<Rightarrow> effect \<Rightarrow> KeyNode \<Rightarrow> fault + KeyNode \<times> (SlotId \<times> byte list) option" where
  "handleUpdates S e kn =
     (case e of
        Committed op \<Rightarrow> (case kn_handleCommit S op kn of Inl f \<Rightarrow> Inl f | Inr kn' \<Rightarrow> Inr (kn', None))
      | SnapshotRequested slot \<Rightarrow> Inr (kn, Some (handleSnapshotRequest slot kn))
      | Snapshotted snapshot \<Rightarrow> Inr (handleSnapshot snapshot kn, None)
      | _ \<Rightarrow> Inr (kn, None))"

text \<open>
  The consensus node takes an event or a snapshot from the buffer when its handler is done;
  the answers to heartbeats are handled by goroutines of their own, at any time; Go enumerates
  a map of the node in any order. The key node receives a value when it has no reply to send;
  it sends the reply when there is room; handlers of HTTP requests begin to wait, receive an
  answer or time out.
\<close>

fun is_callback :: "event \<Rightarrow> bool" where
  "is_callback (EvNewViewReply p err) = True"
| "is_callback (EvHeartbeatReply p r err) = True"
| "is_callback _ = False"

inductive proc_step :: "server \<Rightarrow> process \<Rightarrow> process \<Rightarrow> bool" for S where
  event: "pr_out p = [] \<Longrightarrow> (\<And>k st. ev \<noteq> EvSnapshot k st) \<Longrightarrow> \<not> is_callback ev \<Longrightarrow>
     handleMessages (sv_pgp S) ev (pr_node p) = Inr (n', es) \<Longrightarrow>
     proc_step S p (p\<lparr>pr_node := n', pr_out := filter on_channel es\<rparr>)"
| callback: "is_callback ev \<Longrightarrow> handleEvent (sv_pgp S) ev (pr_node p) = Inr (n', []) \<Longrightarrow>
     proc_step S p (p\<lparr>pr_node := n'\<rparr>)"
| order: "pr_out p = [] \<Longrightarrow> gsame (log (pr_node p)) lg \<Longrightarrow> gsame (pendingCheckpoints (pr_node p)) pd \<Longrightarrow>
     gsame (vci_messages (viewChange (pr_node p))) ms \<Longrightarrow>
     proc_step S p (p\<lparr>pr_node := (pr_node p)\<lparr>log := lg, pendingCheckpoints := pd,
       viewChange := (viewChange (pr_node p))\<lparr>vci_messages := ms\<rparr>\<rparr>\<rparr>)"
| snapshot: "pr_out p = [] \<Longrightarrow> pr_snaps p = (k, st) # rest \<Longrightarrow>
     handleMessages (sv_pgp S) (EvSnapshot k st) (pr_node p) = Inr (n', es) \<Longrightarrow>
     proc_step S p (p\<lparr>pr_node := n', pr_out := filter on_channel es, pr_snaps := rest\<rparr>)"
| receive: "pr_out p = e # rest \<Longrightarrow> pr_reply p = None \<Longrightarrow> handleUpdates S e (pr_key p) = Inr (kn, reply) \<Longrightarrow>
     proc_step S p (p\<lparr>pr_out := rest, pr_key := kn, pr_reply := reply, pr_done := pr_done p @ [e]\<rparr>)"
| reply: "pr_reply p = Some x \<Longrightarrow> length (pr_snaps p) < 1 \<Longrightarrow>
     proc_step S p (p\<lparr>pr_reply := None, pr_snaps := pr_snaps p @ [x]\<rparr>)"
| wait: "waitForCommit_begin digest (pr_key p) = (ch, kn) \<Longrightarrow> proc_step S p (p\<lparr>pr_key := kn\<rparr>)"
| answer: "waitForCommit_receive digest ch (pr_key p) = Some (resp, kn) \<Longrightarrow> proc_step S p (p\<lparr>pr_key := kn\<rparr>)"
| timeout: "waitForCommit_timeout digest (pr_key p) = (resp, kn) \<Longrightarrow> proc_step S p (p\<lparr>pr_key := kn\<rparr>)"

inductive_cases proc_stepE: "proc_step S p p'"

definition newProcess :: "PBFTNode \<Rightarrow> KeyNode \<Rightarrow> process" where
  "newProcess n kn = \<lparr>pr_node = n, pr_out = [], pr_key = kn, pr_reply = None, pr_snaps = [], pr_done = []\<rparr>"

section \<open>The table is the replay of what was delivered\<close>

text \<open>The specification: a table, and the table after a delivery.\<close>

definition deliver :: "gob \<Rightarrow> effect \<Rightarrow> (string \<rightharpoonup> string) \<Rightarrow> (string \<rightharpoonup> string)" where
  "deliver G e t =
     (case e of
        Committed op \<Rightarrow> (case committed_write G op of None \<Rightarrow> t | Some (a, k) \<Rightarrow> t(a \<mapsto> k))
      | Snapshotted b \<Rightarrow> (case Unmarshal_map b of None \<Rightarrow> t | Some None \<Rightarrow> Map.empty | Some (Some m) \<Rightarrow> gget m)
      | _ \<Rightarrow> t)"

definition replay :: "gob \<Rightarrow> effect list \<Rightarrow> (string \<rightharpoonup> string) \<Rightarrow> (string \<rightharpoonup> string)" where
  "replay G es t = fold (deliver G) es t"

definition table :: "process \<Rightarrow> (string \<rightharpoonup> string)" where
  "table p = read_key (kn_store (pr_key p))"

lemma handleSnapshot_reads:
  "read_key (kn_store (handleSnapshot b kn)) =
    (case Unmarshal_map b of None \<Rightarrow> read_key (kn_store kn) | Some None \<Rightarrow> Map.empty | Some (Some m) \<Rightarrow> gget m)"
  by (auto simp: handleSnapshot_def ApplySnapshot_def read_key_def fun_eq_iff split: option.splits)

lemma handleUpdates_deliver:
  "handleUpdates S e kn = Inr (kn', reply) \<Longrightarrow>
    read_key (kn_store kn') = deliver (sv_gob S) e (read_key (kn_store kn))"
  by (auto simp: handleUpdates_def deliver_def handleSnapshot_reads dest!: handleCommit_write
      split: effect.splits sum.splits)

lemma wait_store:
  "waitForCommit_begin d kn = (ch, kn') \<Longrightarrow> kn_store kn' = kn_store kn"
  "waitForCommit_receive d ch kn = Some (r, kn') \<Longrightarrow> kn_store kn' = kn_store kn"
  "waitForCommit_timeout d kn = (r, kn') \<Longrightarrow> kn_store kn' = kn_store kn"
  by (auto simp: waitForCommit_begin_def waitForCommit_receive_def waitForCommit_timeout_def
      split: option.splits list.splits)

definition replayed :: "server \<Rightarrow> (string \<rightharpoonup> string) \<Rightarrow> process \<Rightarrow> bool" where
  "replayed S t p \<longleftrightarrow> table p = replay (sv_gob S) (pr_done p) t"

lemma step_replayed: "proc_step S p p' \<Longrightarrow> replayed S t p \<Longrightarrow> replayed S t p'"
  by (erule proc_stepE) (auto simp: replayed_def table_def replay_def wait_store handleUpdates_deliver)

interpretation proc: step_invariant "\<lambda>p. \<exists>n kn. p = newProcess n kn \<and> read_key (kn_store kn) = t" "proc_step S" "replayed S t"
  for S t
proof unfold_locales
  show "\<exists>n kn. p = newProcess n kn \<and> read_key (kn_store kn) = t \<Longrightarrow> replayed S t p" for p
    by (auto simp: replayed_def table_def replay_def newProcess_def)
qed (rule step_replayed)

text \<open>C4: In every reachable state of a replica, its table is the replay, in order, of what the
  consensus node delivered to the key node, from the initial table: commits and loaded
  snapshots and nothing else change it. So two replicas that start alike and were delivered
  the same values answer every lookup alike, whatever else happened to them.\<close>

theorem table_is_replay_of_deliveries:
  assumes "(proc_step S)\<^sup>*\<^sup>* (newProcess n1 k1) p1" "(proc_step S)\<^sup>*\<^sup>* (newProcess n2 k2) p2"
    "read_key (kn_store k1) = read_key (kn_store k2)" "pr_done p1 = pr_done p2"
  shows "table p1 = replay (sv_gob S) (pr_done p1) (read_key (kn_store k1)) \<and> table p1 = table p2 \<and>
    handlerWithContext S isDown \<lparr>rq_Method = ''GET'', rq_name = a, rq_Body = b\<rparr> (pr_key p1) =
    handlerWithContext S isDown \<lparr>rq_Method = ''GET'', rq_name = a, rq_Body = b\<rparr> (pr_key p2)"
proof -
  have r: "table p1 = replay (sv_gob S) (pr_done p1) (read_key (kn_store k1))"
    "table p2 = replay (sv_gob S) (pr_done p2) (read_key (kn_store k2))"
    using proc.reachable [OF _ assms(1)] proc.reachable [OF _ assms(2)] unfolding replayed_def by blast+
  then have "table p1 = table p2" using assms(3,4) by simp
  then show ?thesis
    using r(1) by (simp add: handlerWithContext_def handleGet_def kn_LookupKey_def LookupKey_def table_def)
qed

section \<open>The two goroutines can block each other\<close>

text \<open>
  The consensus node waits to send, the key node waits to send a snapshot back, and the buffer
  is full: it would be emptied by the consensus node only.
\<close>

definition stuck :: "process \<Rightarrow> bool" where
  "stuck p \<longleftrightarrow> pr_out p \<noteq> [] \<and> pr_reply p \<noteq> None \<and> length (pr_snaps p) \<ge> 1"

definition but_caughtUp :: "PBFTNode \<Rightarrow> PBFTNode" where
  "but_caughtUp n = n\<lparr>caughtUp := []\<rparr>"

lemma callback_caughtUp: "is_callback ev \<Longrightarrow> handleEvent C ev n = Inr (n', es) \<Longrightarrow> but_caughtUp n' = but_caughtUp n"
  by (cases ev) (auto simp: but_caughtUp_def ret_def afterNewView_def afterHeartbeat_def split: if_splits sum.splits)

lemma stuck_step:
  "proc_step S p p' \<Longrightarrow> stuck p \<Longrightarrow>
    stuck p' \<and> but_caughtUp (pr_node p') = but_caughtUp (pr_node p) \<and> pr_done p' = pr_done p \<and> table p' = table p"
  by (erule proc_stepE) (auto simp: stuck_def table_def wait_store dest: callback_caughtUp)

text \<open>A blocked replica stays blocked: whatever happens, its consensus node handles no further
  event (only the answers to the heartbeats it has sent are still noted) and its table does not
  change any more.\<close>

theorem stuck_for_ever:
  assumes "stuck p" "(proc_step S)\<^sup>*\<^sup>* p p'"
  shows "stuck p' \<and> (pr_node p')\<lparr>caughtUp := []\<rparr> = (pr_node p)\<lparr>caughtUp := []\<rparr> \<and> pr_done p' = pr_done p \<and> table p' = table p"
  using assms(2,1) unfolding but_caughtUp_def [symmetric]
proof (induction rule: rtranclp_induct)
  case (step p1 p2)
  then show ?case using stuck_step by metis
qed simp

section \<open>A run that blocks\<close>

text \<open>
  Node 1 of the example cluster gets the commits of nodes 2 and 3 for slot 100, and then for
  two earlier slots: each time its sequence number is 100, and it asks for a snapshot.
\<close>

definition lateCommit :: "NodeId \<Rightarrow> int \<Rightarrow> SignedCommit" where
  "lateCommit i s = projr (Commit_Sign example_pgp (exKey i)
     \<lparr>c_Number = SlotId 0 s, c_RequestDigest = exDigest, c_Node = i\<rparr>)"

definition exLate :: "int \<Rightarrow> (SlotId, Slot) gomap \<Rightarrow> PBFTNode" where
  "exLate q lg = exBackup\<lparr>sequenceNumber := q, log := lg\<rparr>"

definition lateSlot :: "int \<Rightarrow> Slot" where
  "lateSlot s = emptySlot\<lparr>s_commits := [(2, lateCommit 2 s)]\<rparr>"

definition lateSlot' :: "int \<Rightarrow> Slot" where
  "lateSlot' s = emptySlot\<lparr>s_commits := [(2, lateCommit 2 s), (3, lateCommit 3 s)], s_committed := True\<rparr>"

lemmas ex_late = handleMessages_def getTimer_def Let_def slotAt_def putSlot_def exSign initCheckpoint_def CHECKPOINT_def
  andThen_def ret_def emit_def exBackup_simps handleCommit_def SignedCommit_SignatureValid_def isCommitted_def
  Before_def tryCheckpoint_def exLate_def lateSlot_def lateSlot'_def lateCommit_def

lemma late_first:
  assumes "0 < s" "gget lg (SlotId 0 s) = None"
  shows "handleMessages example_pgp (EvCommit (lateCommit 2 s)) (exLate q lg) =
    Inr (exLate q (gput (SlotId 0 s) (lateSlot s) lg), [])"
  using exValid [of 2] assms by (simp add: ex_late) (simp add: gput_def)

lemma late_second:
  assumes "0 < s" "gget lg (SlotId 0 s) = Some (lateSlot s)" "max q s = 100"
  shows "handleMessages example_pgp (EvCommit (lateCommit 3 s)) (exLate q lg) =
    Inr (exLate 100 (gput (SlotId 0 s) (lateSlot' s) lg), [Committed None, SnapshotRequested (SlotId 0 100)])"
  using exValid [of 3] assms by (cases "q < s") (simp_all add: ex_late, simp_all add: gput_def)

text \<open>Both commits are handled; the two sends are received; the snapshot goes into the buffer.\<close>

definition late_log :: "int \<Rightarrow> (SlotId, Slot) gomap \<Rightarrow> (SlotId, Slot) gomap" where
  "late_log s lg = gput (SlotId 0 s) (lateSlot' s) (gput (SlotId 0 s) (lateSlot s) lg)"

definition asked :: "effect list" where
  "asked = [Committed None, SnapshotRequested (SlotId 0 100)]"

lemma two_commits:
  assumes "sv_pgp S = example_pgp" "0 < s" "gget lg (SlotId 0 s) = None" "max q s = 100"
  shows "(proc_step S)\<^sup>*\<^sup>*
    \<lparr>pr_node = exLate q lg, pr_out = [], pr_key = kn, pr_reply = r, pr_snaps = sn, pr_done = d\<rparr>
    \<lparr>pr_node = exLate 100 (late_log s lg), pr_out = asked, pr_key = kn, pr_reply = r, pr_snaps = sn, pr_done = d\<rparr>"
proof -
  let ?p = "\<lparr>pr_node = exLate q lg, pr_out = [], pr_key = kn, pr_reply = r, pr_snaps = sn, pr_done = d\<rparr>"
  let ?p1 = "?p\<lparr>pr_node := exLate q (gput (SlotId 0 s) (lateSlot s) lg), pr_out := filter on_channel []\<rparr>"
  have "proc_step S ?p ?p1"
    by (rule proc_step.event [where ev = "EvCommit (lateCommit 2 s)"]) (use late_first [OF assms(2,3)] assms(1) in auto)
  moreover have "proc_step S ?p1 (?p1\<lparr>pr_node := exLate 100 (late_log s lg), pr_out := filter on_channel asked\<rparr>)"
    by (rule proc_step.event [where ev = "EvCommit (lateCommit 3 s)"])
      (use late_second [OF assms(2) _ assms(4), of "gput (SlotId 0 s) (lateSlot s) lg"] assms(1) in
        \<open>auto simp: late_log_def asked_def\<close>)
  ultimately show ?thesis by (auto simp: asked_def intro: converse_rtranclp_into_rtranclp)
qed

lemma receive_asked:
  "(proc_step S)\<^sup>*\<^sup>*
    \<lparr>pr_node = n, pr_out = asked, pr_key = kn, pr_reply = None, pr_snaps = sn, pr_done = d\<rparr>
    \<lparr>pr_node = n, pr_out = [], pr_key = kn, pr_reply = Some (SlotId 0 100, GetSnapshot (kn_store kn)), pr_snaps = sn, pr_done = d @ asked\<rparr>"
proof -
  let ?p = "\<lparr>pr_node = n, pr_out = asked, pr_key = kn, pr_reply = None, pr_snaps = sn, pr_done = d\<rparr>"
  let ?p1 = "?p\<lparr>pr_out := [SnapshotRequested (SlotId 0 100)], pr_key := kn, pr_reply := None, pr_done := pr_done ?p @ [Committed None]\<rparr>"
  have "proc_step S ?p ?p1"
    by (rule proc_step.receive) (simp_all add: asked_def handleUpdates_def kn_handleCommit_def)
  moreover have "proc_step S ?p1 (?p1\<lparr>pr_out := [], pr_key := kn,
      pr_reply := Some (SlotId 0 100, GetSnapshot (kn_store kn)), pr_done := pr_done ?p1 @ [SnapshotRequested (SlotId 0 100)]\<rparr>)"
    by (rule proc_step.receive) (simp_all add: handleUpdates_def handleSnapshotRequest_def)
  ultimately show ?thesis by (auto simp: asked_def intro: converse_rtranclp_into_rtranclp)
qed

lemma push_reply:
  "(proc_step S)\<^sup>*\<^sup>* \<lparr>pr_node = n, pr_out = out, pr_key = kn, pr_reply = Some x, pr_snaps = [], pr_done = d\<rparr>
    \<lparr>pr_node = n, pr_out = out, pr_key = kn, pr_reply = None, pr_snaps = [x], pr_done = d\<rparr>"
  using proc_step.reply [of "\<lparr>pr_node = n, pr_out = out, pr_key = kn, pr_reply = Some x, pr_snaps = [], pr_done = d\<rparr>" x S]
  by (simp add: r_into_rtranclp)

text \<open>C26: A replica can block for ever: in the example cluster, a started replica that receives the
  commits of two nodes for slot 100 and then for two earlier slots asks for three snapshots
  before it takes the first one back; the buffer of one does not prevent the deadlock.\<close>

theorem stuck_reachable:
  "\<exists>p. (proc_step (exServer exForged))\<^sup>*\<^sup>* (newProcess exBackup (exKeyNode [])) p \<and> started exBackup \<and> stuck p"
proof -
  let ?S = "exServer exForged" and ?kn = "exKeyNode []" and ?x = "(SlotId 0 100, GetSnapshot (kn_store (exKeyNode [])))"
  let ?q = "\<lparr>pr_node = exLate 100 (late_log 2 (late_log 1 (late_log 100 []))), pr_out = asked, pr_key = ?kn,
      pr_reply = Some ?x, pr_snaps = [?x], pr_done = asked @ asked\<rparr>"
  have b: "exBackup = exLate 1 []" by (simp add: exLate_def exBackup_eq initNode_def)
  have g: "gget (late_log s lg) (SlotId 0 s') = (if s' = s then Some (lateSlot' s) else gget lg (SlotId 0 s'))" for s s' lg
    by (simp add: late_log_def)
  note r = two_commits [of ?S 100 "[]" 1 ?kn None "[]" "[]"] receive_asked [of ?S _ ?kn "[]" "[]"]
    push_reply [of ?S _ "[]" ?kn ?x]
    two_commits [of ?S 1 _ 100 ?kn None "[?x]"] receive_asked [of ?S _ ?kn "[?x]"]
    two_commits [of ?S 2 _ 100 ?kn "Some ?x" "[?x]"]
  have "(proc_step ?S)\<^sup>*\<^sup>* (newProcess exBackup ?kn)
      \<lparr>pr_node = exLate 100 (late_log 100 []), pr_out = [], pr_key = ?kn, pr_reply = None, pr_snaps = [?x], pr_done = asked\<rparr>"
    using rtranclp_trans [OF r(1) rtranclp_trans [OF r(2) r(3)]] by (simp add: newProcess_def b)
  also have "(proc_step ?S)\<^sup>*\<^sup>* \<dots>
      \<lparr>pr_node = exLate 100 (late_log 1 (late_log 100 [])), pr_out = [], pr_key = ?kn, pr_reply = Some ?x,
        pr_snaps = [?x], pr_done = asked @ asked\<rparr>"
    using rtranclp_trans [OF r(4) r(5)] by (simp add: g)
  also have "(proc_step ?S)\<^sup>*\<^sup>* \<dots> ?q"
    using r(6) by (simp add: g)
  finally have "(proc_step ?S)\<^sup>*\<^sup>* (newProcess exBackup ?kn) ?q" .
  moreover have "stuck ?q" by (simp add: stuck_def asked_def)
  ultimately show ?thesis using exBackup_started by blast
qed

text \<open>The witnesses of the two theorems before are in this run.\<close>

definition exIdle :: process where
  "exIdle = newProcess exBackup (exKeyNode [])"

definition exStuck :: process where
  "exStuck = exIdle\<lparr>pr_out := asked, pr_reply := Some (SlotId 0 100, []), pr_snaps := [(SlotId 0 100, [])]\<rparr>"

text \<open>A commit that completes slot 2 of the example run, and the write it stands for.\<close>

definition exServing :: server where
  "exServing = exServer (createOperation exCreate)"

definition exApplied :: process where
  "exApplied = \<lparr>pr_node = exBackup_committed, pr_out = [], pr_key = (exKeyNode [])\<lparr>kn_store := \<lparr>ks_keys = Some [(''bob'', ''K1'')]\<rparr>\<rparr>,
     pr_reply = None, pr_snaps = [], pr_done = [Committed (Some ''op'')]\<rparr>"

lemma exApplied_run: "(proc_step exServing)\<^sup>*\<^sup>* (newProcess exBackup_prepared (exKeyNode [])) exApplied"
proof -
  let ?p = "newProcess exBackup_prepared (exKeyNode [])"
  let ?p1 = "?p\<lparr>pr_node := exBackup_committed, pr_out := filter on_channel [Committed (Some ''op'')]\<rparr>"
  have "proc_step exServing ?p ?p1"
    by (rule proc_step.event [where ev = "EvCommit (exCommit 3)"]) (use ex_committed in \<open>auto simp: newProcess_def exServing_def\<close>)
  moreover have "kn_handleCommit exServing (Some ''op'') (exKeyNode []) = Inr (pr_key exApplied)"
    by (simp add: exServing_def kn_handleCommit_def CreateKey_def NewKeystore_def copy_map_def gput_def
        respondPendingRequest_def exApplied_def) (simp add: exCreate_def)
  then have "proc_step exServing ?p1 (?p1\<lparr>pr_out := [], pr_key := pr_key exApplied, pr_reply := None,
      pr_done := pr_done ?p1 @ [Committed (Some ''op'')]\<rparr>)"
    by (intro proc_step.receive) (simp_all add: newProcess_def handleUpdates_def)
  ultimately show ?thesis
    by (auto simp: newProcess_def exApplied_def intro: converse_rtranclp_into_rtranclp)
qed

lemma table_is_replay_of_deliveries_witness:
  "table exApplied = replay (sv_gob exServing) (pr_done exApplied) (read_key (kn_store (exKeyNode []))) \<and>
    table exApplied = table exApplied \<and>
    handlerWithContext exServing False \<lparr>rq_Method = ''GET'', rq_name = ''bob'', rq_Body = None\<rparr> (pr_key exApplied) =
    handlerWithContext exServing False \<lparr>rq_Method = ''GET'', rq_name = ''bob'', rq_Body = None\<rparr> (pr_key exApplied)"
  by (rule table_is_replay_of_deliveries [OF exApplied_run exApplied_run refl refl])

lemma stuck_for_ever_witness:
  "stuck exStuck \<and> (pr_node exStuck)\<lparr>caughtUp := []\<rparr> = (pr_node exStuck)\<lparr>caughtUp := []\<rparr> \<and> pr_done exStuck = pr_done exStuck \<and> table exStuck = table exStuck"
  by (rule stuck_for_ever [where S = "exServer exForged"]) (simp_all add: exStuck_def stuck_def asked_def)

end
