(* ===== verification/Tools.thy ===== *)
theory Tools
  imports Replica
begin

text \<open>
  Around the replica: one remote call (src/distributepki/util/shared.go, \<open>SendRpc\<close>) and the
  broadcasts made of it, and the commands of the debugging prompt (src/distributepki/debug.go).
\<close>

section \<open>Remote calls\<close>

text \<open>
  The network: the error of the \<open>i\<close>-th attempt to connect (\<open>None\<close>: connected), and what becomes
  of the call: it is done (with an error or not), or nothing comes before the timeout.
\<close>

datatype call = Done "string option" | Silence

record network =
  nw_dial :: "nat \<Rightarrow> string option"
  nw_call :: "int \<Rightarrow> call"

text \<open>The loop that repeats a failed connection; it gives the last error and the attempts made.\<close>

partial_function (option) redial ::
  "(nat \<Rightarrow> string option) \<Rightarrow> int \<Rightarrow> int \<Rightarrow> nat \<Rightarrow> string option \<Rightarrow> (string option \<times> nat) option" where
  "redial dial rpcRetries nRetries attempts err =
     (if err \<noteq> None \<and> rpcRetries < nRetries
      then redial dial rpcRetries (add64 nRetries 1) (Suc attempts) (dial attempts)
      else Some (err, attempts))"

definition second :: int where "second = 1000000000"

text \<open>The error (\<open>None\<close> is nil) and the number of attempts to connect.\<close>

definition SendRpc :: "network \<Rightarrow> string \<Rightarrow> string \<Rightarrow> int \<Rightarrow> int \<Rightarrow> (string option \<times> nat) option" where
  "SendRpc N hostName rpcFunction rpcRetries timeout =
     (let timeout = (if timeout \<le> 0 then second else timeout)
      in case redial (nw_dial N) rpcRetries 0 1 (nw_dial N 0) of
           None \<Rightarrow> None
         | Some (Some err, k) \<Rightarrow> Some (Some err, k)
         | Some (None, k) \<Rightarrow>
             (case nw_call N timeout of
                Done err \<Rightarrow> Some (err, k)
              | Silence \<Rightarrow> Some (Some (''RPC Send '' @ rpcFunction @ '' to '' @ hostName @ '' timed out''), k)))"

text \<open>\<open>sendRpc\<close> of the consensus node passes 0 and not its own timeout; \<open>broadcast\<close> passes 10 and 0.\<close>

definition sendRpc :: "network \<Rightarrow> string \<Rightarrow> string \<Rightarrow> int \<Rightarrow> int \<Rightarrow> (string option \<times> nat) option" where
  "sendRpc N hostName rpcName retries timeout = SendRpc N hostName rpcName retries 0"

definition broadcast ::
  "(NodeId \<Rightarrow> network) \<Rightarrow> (NodeId, string) gomap \<Rightarrow> string \<Rightarrow> int \<Rightarrow> (NodeId \<times> (string option \<times> nat) option) list" where
  "broadcast net peers rpcName timeout =
     map (\<lambda>(i, hostname). (i, sendRpc (net i) hostname rpcName 10 0)) peers"

section \<open>The debugging prompt\<close>

text \<open>\<open>strings.Fields\<close>: the word being read and the words after it.\<close>

function split_words :: "string \<Rightarrow> string \<Rightarrow> string list" where
  "split_words w s =
     (if s = [] then (if w = [] then [] else [w])
      else let n = space_size (bytes_nat s)
           in if n = 0 then split_words (w @ take 1 s) (drop 1 s)
              else (if w = [] then [] else [w]) @ split_words [] (drop n s))"
  by pat_completeness auto
termination by (relation "measure (\<lambda>(w, s). length s)") auto

declare split_words.simps [simp del]

definition Fields :: "string \<Rightarrow> string list" where
  "Fields s = split_words [] s"

text \<open>
  What a command does: a debug message, an HTTP request to the client port, or a line printed
  (a word that is no number makes \<open>extractNode\<close> print a line of its own first).
\<close>

datatype action =
    SendDebug string DebugMessage
  | DoPut string string string
  | DoGet string string
  | Print string
  | Nothing

definition extractNode :: "ClusterConfig \<Rightarrow> string \<Rightarrow> NodeConfig option" where
  "extractNode clusterc arg =
     (case Atoi arg of
        None \<Rightarrow> None
      | Some i \<Rightarrow> find (\<lambda>n. cfg_Id n = to_NodeId i) (Nodes clusterc))"

definition sendPbft :: "ClusterConfig \<Rightarrow> string list \<Rightarrow> DebugMessage \<Rightarrow> action" where
  "sendPbft clusterc args message =
     (case args of
        a # _ \<Rightarrow>
          (case extractNode clusterc a of
             Some node \<Rightarrow> SendDebug (GetHostname (cfg_Host node) (cfg_Port node)) message
           | None \<Rightarrow> Print ''Please specify which node you want to send a debug message!'')
      | [] \<Rightarrow> Print ''Please specify which node you want to send a debug message!'')"

text \<open>A node that is not found is not reported by these two (but \<open>extractNode\<close> prints on a bad number).\<close>

definition extractPutParams :: "ClusterConfig \<Rightarrow> string list \<Rightarrow> action" where
  "extractPutParams clusterc args =
     (case args of
        [] \<Rightarrow> Print ''Please specify which node you want to send a debug message!''
      | a # rest \<Rightarrow>
          (case extractNode clusterc a of
             None \<Rightarrow> (if Atoi a = None then Print ''Please specify which node you want to bring up!'' else Nothing)
           | Some node \<Rightarrow>
               (case rest of
                  k # v # _ \<Rightarrow> DoPut (GetHostname (cfg_Host node) (cfg_ClientPort node)) k v
                | _ \<Rightarrow> Print ''also supply what keys to put!'')))"

definition extractGetParams :: "ClusterConfig \<Rightarrow> string list \<Rightarrow> action" where
  "extractGetParams clusterc args =
     (case args of
        [] \<Rightarrow> Print ''Please specify which node you want to send a debug message!''
      | a # rest \<Rightarrow>
          (case extractNode clusterc a of
             None \<Rightarrow> (if Atoi a = None then Print ''Please specify which node you want to bring up!'' else Nothing)
           | Some node \<Rightarrow>
               (case rest of
                  k # _ \<Rightarrow> DoGet (GetHostname (cfg_Host node) (cfg_ClientPort node)) k
                | _ \<Rightarrow> Print ''also supply what key to get!'')))"

text \<open>One line of input: \<open>None\<close> ends the prompt.\<close>

definition debugCommand :: "ClusterConfig \<Rightarrow> string \<Rightarrow> action option" where
  "debugCommand clusterc line =
     (case Fields line of
        [] \<Rightarrow> Some Nothing
      | cmd # args \<Rightarrow>
          if cmd = ''exit'' then None
          else if cmd = ''get'' then Some (extractGetParams clusterc args)
          else if cmd = ''update'' then Some (extractPutParams clusterc args)
          else if cmd = ''put'' then Some (extractPutParams clusterc args)
          else if cmd = ''up'' then Some (sendPbft clusterc args \<lparr>dm_Op = UP, dm_Request = []\<rparr>)
          else if cmd = ''down'' then Some (sendPbft clusterc args \<lparr>dm_Op = DOWN, dm_Request = []\<rparr>)
          else Some Nothing)"

text \<open>
  \<open>sendDebugMessage\<close>: any error of the call ends the process (\<open>log.Fatal\<close>), as does \<open>exit\<close>, without
  an error. The other commands go on whatever they are answered.
\<close>

datatype ending = Exited | Died | Reading

definition sendDebugMessage :: "network \<Rightarrow> string \<Rightarrow> bool" where
  "sendDebugMessage N hostName =
     (case SendRpc N hostName ''PBFTNode.Debug'' 10 0 of Some (None, k) \<Rightarrow> True | _ \<Rightarrow> False)"

text \<open>
  \<open>StartDebugRepl\<close> on the lines that its reads return, each with the network at that time: what it
  does, and how it ends. At the end of its input a read returns the empty line, again and
  again, and the loop goes on.
\<close>

fun StartDebugRepl :: "ClusterConfig \<Rightarrow> (string \<times> network) list \<Rightarrow> action list \<times> ending" where
  "StartDebugRepl clusterc [] = ([], Reading)"
| "StartDebugRepl clusterc ((line, N) # input) =
     (case debugCommand clusterc line of
        None \<Rightarrow> ([], Exited)
      | Some (SendDebug hostName message) \<Rightarrow>
          if sendDebugMessage N hostName
          then (let (acts, ending) = StartDebugRepl clusterc input in (SendDebug hostName message # acts, ending))
          else ([SendDebug hostName message], Died)
      | Some act \<Rightarrow> (let (acts, ending) = StartDebugRepl clusterc input in (act # acts, ending)))"

text \<open>
  The requests of \<open>put\<close> and \<open>get\<close>. The network: the body of the authority's answer to a post,
  and the status and body of a node's answer to a request; \<open>None\<close> is an error.
\<close>

record web =
  web_authority :: "byte list \<Rightarrow> byte list option"
  web_node :: "string \<Rightarrow> request \<Rightarrow> (string \<times> string) option"

definition getSignedPut :: "web \<Rightarrow> string \<Rightarrow> string \<Rightarrow> int \<Rightarrow> byte list" where
  "getSignedPut W alias_name key milliseconds =
     (case web_authority W (json_Encode (json_keyMapping
         \<lparr>km_Alias = alias_name, km_Key = key, km_Timestamp = milliseconds\<rparr>)) of
        None \<Rightarrow> [] | Some body \<Rightarrow> body)"

definition putRequest :: "web \<Rightarrow> string \<Rightarrow> string \<Rightarrow> int \<Rightarrow> request" where
  "putRequest W alias_name key milliseconds =
     \<lparr>rq_Method = ''POST'', rq_name = [], rq_Body = Some (getSignedPut W alias_name key milliseconds)\<rparr>"

definition doPut :: "web \<Rightarrow> string \<Rightarrow> string \<Rightarrow> string \<Rightarrow> int \<Rightarrow> string" where
  "doPut W address alias_name key milliseconds =
     (case web_node W address (putRequest W alias_name key milliseconds) of None \<Rightarrow> [] | Some (st, body) \<Rightarrow> st)"

definition doGet :: "web \<Rightarrow> string \<Rightarrow> string \<Rightarrow> string \<times> string" where
  "doGet W address alias_name =
     (case web_node W address \<lparr>rq_Method = ''GET'', rq_name = alias_name, rq_Body = Some []\<rparr> of
        None \<Rightarrow> ([], []) | Some r \<Rightarrow> r)"

section \<open>Properties\<close>

lemma redial_done: "rpcRetries \<ge> nRetries \<Longrightarrow> redial dial rpcRetries nRetries k err = Some (err, k)"
  by (subst redial.simps) simp

text \<open>The outcome of a call over a connection that was tried once.\<close>

definition called_once :: "network \<Rightarrow> string \<Rightarrow> string \<Rightarrow> int \<Rightarrow> string option" where
  "called_once N hostName rpcFunction timeout =
     (case nw_dial N 0 of
        Some err \<Rightarrow> Some err
      | None \<Rightarrow> (case nw_call N timeout of
            Done err \<Rightarrow> err
          | Silence \<Rightarrow> Some (''RPC Send '' @ rpcFunction @ '' to '' @ hostName @ '' timed out'')))"

text \<open>C37: A remote call ends and connects exactly once, however many retries it is given; and a broadcast
  (which asks for ten retries) waits one second for every peer, whatever timeout it is called
  with.\<close>

theorem calls_never_retry:
  assumes "0 \<le> rpcRetries"
  shows "SendRpc N hostName rpcFunction rpcRetries timeout =
      Some (called_once N hostName rpcFunction (if timeout \<le> 0 then second else timeout), 1) \<and>
    broadcast net peers rpcName timeout =
      map (\<lambda>(i, hostname). (i, Some (called_once (net i) hostname rpcName second, 1))) peers"
proof -
  have once: "SendRpc N h f r t = Some (called_once N h f (if t \<le> 0 then second else t), 1)" if "0 \<le> r" for N h f r t
    using that by (simp add: SendRpc_def redial_done called_once_def split: option.splits call.splits)
  then show ?thesis using assms by (simp add: broadcast_def sendRpc_def)
qed

lemma calls_never_retry_witness:
  "SendRpc \<lparr>nw_dial = (\<lambda>i. if i = 0 then Some ''refused'' else None), nw_call = (\<lambda>_. Done None)\<rparr> ''h'' ''f'' 10 0 =
      Some (called_once \<lparr>nw_dial = (\<lambda>i. if i = 0 then Some ''refused'' else None), nw_call = (\<lambda>_. Done None)\<rparr> ''h'' ''f''
        (if (0 :: int) \<le> 0 then second else 0), 1) \<and>
    broadcast (\<lambda>_. \<lparr>nw_dial = (\<lambda>_. None), nw_call = (\<lambda>_. Silence)\<rparr>) [(2, exHost 2)] ''PBFTNode.Commit'' 0 =
      map (\<lambda>(i, hostname). (i, Some (called_once \<lparr>nw_dial = (\<lambda>_. None), nw_call = (\<lambda>_. Silence)\<rparr> hostname ''PBFTNode.Commit'' second, 1)))
        [(2, exHost 2)]"
  by (rule calls_never_retry) simp

lemma sendDebugMessage_once: "sendDebugMessage N h \<longleftrightarrow> nw_dial N 0 = None \<and> nw_call N second = Done None"
  by (auto simp: sendDebugMessage_def SendRpc_def redial_done second_def split: option.splits call.splits)

lemma debugCommand_exit: "debugCommand clusterc line = None \<longleftrightarrow> take 1 (Fields line) = [''exit'']"
  by (simp add: debugCommand_def split: list.splits)

text \<open>A network on which every call connects and nothing comes back.\<close>

definition exSilent :: network where
  "exSilent = \<lparr>nw_dial = (\<lambda>_. None), nw_call = (\<lambda>_. Silence)\<rparr>"

text \<open>The prompt ends by the command \<open>exit\<close>, or it is killed by the first debug message that cannot
  be connected at once or is not acknowledged within a second; nothing else ends it: at the
  end of its input it goes on for ever.\<close>

theorem prompt_ends_iff_exit:
  "snd (StartDebugRepl clusterc input) \<noteq> Reading \<longleftrightarrow>
    (\<exists>line N. (line, N) \<in> set input \<and>
      (take 1 (Fields line) = [''exit''] \<or>
       (\<exists>host m. debugCommand clusterc line = Some (SendDebug host m) \<and>
         (nw_dial N 0 \<noteq> None \<or> nw_call N second \<noteq> Done None))))"
proof (induction input)
  case (Cons entry input)
  obtain line N where e: "entry = (line, N)" by (cases entry)
  let ?ends = "\<lambda>line N. take 1 (Fields line) = [''exit''] \<or> (\<exists>host m. debugCommand clusterc line = Some (SendDebug host m) \<and>
      (nw_dial N 0 \<noteq> None \<or> nw_call N second \<noteq> Done None))"
  have step: "snd (StartDebugRepl clusterc ((line, N) # input)) \<noteq> Reading \<longleftrightarrow>
      ?ends line N \<or> snd (StartDebugRepl clusterc input) \<noteq> Reading"
  proof (cases "debugCommand clusterc line")
    case None
    then show ?thesis using debugCommand_exit [of clusterc line] by simp
  next
    case (Some act)
    then have "take 1 (Fields line) \<noteq> [''exit'']" using debugCommand_exit [of clusterc line] by auto
    with Some show ?thesis
      by (cases act; cases "StartDebugRepl clusterc input") (auto simp: sendDebugMessage_once)
  qed
  have "(\<exists>l M. (l, M) \<in> set ((line, N) # input) \<and> P l M) \<longleftrightarrow> P line N \<or> (\<exists>l M. (l, M) \<in> set input \<and> P l M)" for P
    by auto
  then show ?case unfolding e step Cons.IH by (rule sym)
qed simp

lemma prompt_ends_iff_exit_witness:
  "snd (StartDebugRepl (localCluster 5) [('' '', exSilent), (''exit'', exSilent)]) \<noteq> Reading"
proof -
  have "take 1 (Fields ''exit'') = [''exit'']" by code_simp
  then show ?thesis using prompt_ends_iff_exit [of "localCluster 5"] by fastforce
qed

lemma space_size_char: "(of_char c :: nat) \<notin> {9, 10, 11, 12, 13, 32} \<Longrightarrow> (of_char c :: nat) < 128 \<Longrightarrow>
    space_size (bytes_nat (c # s)) = 0"
  by (auto simp: space_size_def is_space_def)

lemma split_word:
  "\<forall>c\<in>set u. (of_char c :: nat) \<notin> {9, 10, 11, 12, 13, 32} \<and> (of_char c :: nat) < 128 \<Longrightarrow> w @ u \<noteq> [] \<Longrightarrow>
    split_words w (u @ '' '' @ s) = (w @ u) # Fields s"
proof (induction u arbitrary: w)
  case Nil
  then show ?case by (subst split_words.simps) (simp add: space_size_def is_space_def Fields_def)
next
  case (Cons c u)
  then show ?case using space_size_char [of c "u @ '' '' @ s"] by (subst split_words.simps) simp
qed

lemma debug_words: "Fields (''update '' @ s) = ''update'' # Fields s" "Fields (''put '' @ s) = ''put'' # Fields s"
  using split_word [of "''update''" "[]" s] split_word [of "''put''" "[]" s] by (simp_all add: Fields_def)

text \<open>The command \<open>update\<close> is the command \<open>put\<close>: it posts, and a post for an alias that has a key is
  refused (400), so the prompt never updates a key.\<close>

theorem update_command_never_updates:
  assumes "decode_struct set_CreateJSON zeroCreateJSON (parse_document body) = Some cj"
    "read_key (kn_store kn) (cj_Alias cj) \<noteq> None"
  shows "debugCommand clusterc (''update '' @ s) = debugCommand clusterc (''put '' @ s) \<and>
    (\<exists>msg. handlerWithContext S False \<lparr>rq_Method = ''POST'', rq_name = [], rq_Body = Some body\<rparr> kn = Answered (http_Error msg 400))"
proof -
  define op where "op = createOperation (ToCreate cj)"
  have "\<exists>err. kn_CreateKey S op kn = Inl err"
    using CreateKey_proposes [of S op kn] assms(2) by (cases "kn_CreateKey S op kn") (auto simp: op_def ToCreate_def)
  moreover have "debugCommand clusterc (''update '' @ s) = debugCommand clusterc (''put '' @ s)"
    by (simp only: debugCommand_def debug_words list.case) simp
  ultimately show ?thesis
    using assms(1) by (auto simp: handlerWithContext_def handlePost_def proposed_def op_def)
qed

lemma update_command_never_updates_witness:
  "debugCommand (localCluster 5) (''update '' @ ''1 bob K2'') = debugCommand (localCluster 5) (''put '' @ ''1 bob K2'') \<and>
    (\<exists>msg. handlerWithContext exServing False \<lparr>rq_Method = ''POST'', rq_name = [], rq_Body = Some (the (rq_Body exPost))\<rparr>
      (exKeyNode [(''bob'', ''K0'')]) = Answered (http_Error msg 400))"
proof (rule update_command_never_updates)
  let ?m = "\<lparr>km_Alias = ''bob'', km_Key = ''K1'', km_Timestamp = 7\<rparr>"
  have "keyMapping_utf8 ?m" "int64 (km_Timestamp ?m)"
    by (simp_all add: keyMapping_utf8_def ascii_valid int64_def maxInt64_def)
  from answer_decoded [OF this] show "decode_struct set_CreateJSON zeroCreateJSON (parse_document (the (rq_Body exPost))) =
      Some \<lparr>cj_Alias = ''bob'', cj_Key = ''K1'', cj_Timestamp = 7, cj_Signature = create_Signature exCreate\<rparr>"
    by (simp add: exPost_def exCreate_def)
qed (simp add: gwf_def gget_def)

end
