(* ===== verification/Config_File.thy ===== *)
theory Config_File
  imports Json_Roundtrip Leaders Scenario
begin

text \<open>
  The configuration of a key server: src/distributepki/main.go, \<open>LoadConfig\<close> and
  \<open>LoadConfigSubset\<close>, with what \<open>encoding/json\<close> does to a slice of structs.
\<close>

section \<open>Slices\<close>

text \<open>
  The array behind a slice is as long as the slice's capacity. The decoder grows it by half (at
  least to 4), decodes into what the array holds, and slicing goes up to the capacity.
\<close>

record 'a slice =
  sl_array :: "'a list"
  sl_len :: nat

definition elements :: "'a slice \<Rightarrow> 'a list" where
  "elements s = take (sl_len s) (sl_array s)"

definition nilSlice :: "'a slice" where
  "nilSlice = \<lparr>sl_array = [], sl_len = 0\<rparr>"

definition grow :: "'a \<Rightarrow> nat \<Rightarrow> 'a list \<Rightarrow> 'a list" where
  "grow zero i arr =
     (let cap = length arr in if i < cap then arr else arr @ replicate (max 4 (cap + cap div 2) - cap) zero)"

fun into_elements :: "(jval \<Rightarrow> 'a \<Rightarrow> 'a option) \<Rightarrow> 'a \<Rightarrow> jval list \<Rightarrow> nat \<Rightarrow> 'a slice \<Rightarrow> 'a slice option" where
  "into_elements assign zero [] i s = Some (if i = 0 then nilSlice else s\<lparr>sl_len := i\<rparr>)"
| "into_elements assign zero (v # vs) i s =
     (let arr = grow zero i (sl_array s)
      in case assign v (arr ! i) of
           None \<Rightarrow> None
         | Some x \<Rightarrow> into_elements assign zero vs (i + 1) \<lparr>sl_array = arr[i := x], sl_len = max (sl_len s) (i + 1)\<rparr>)"

definition into_slice :: "(jval \<Rightarrow> 'a \<Rightarrow> 'a option) \<Rightarrow> 'a \<Rightarrow> 'a slice \<Rightarrow> jval \<Rightarrow> 'a slice option" where
  "into_slice assign zero old v =
     (case v of VNull \<Rightarrow> Some nilSlice | VArr vs \<Rightarrow> into_elements assign zero vs 0 old | _ \<Rightarrow> None)"

text \<open>A \<open>uint\<close>: digits only, at most 64 bits.\<close>

definition into_uint64 :: "nat \<Rightarrow> jval \<Rightarrow> nat option" where
  "into_uint64 old v =
     (case v of
        VNum x \<Rightarrow> (case read_digits 0 x of Some n \<Rightarrow> if x \<noteq> [] \<and> n < 2 ^ 64 then Some n else None | None \<Rightarrow> None)
      | VNull \<Rightarrow> Some old
      | _ \<Rightarrow> None)"

section \<open>The configuration file\<close>

definition zeroNodeConfig :: NodeConfig where
  "zeroNodeConfig = \<lparr>cfg_ClientPort = 0, cfg_Host = [], cfg_Id = 0, cfg_Port = 0, cfg_PrivateKeyFile = [],
     cfg_PublicKeyFile = [], cfg_PassPhraseFile = []\<rparr>"

definition set_NodeConfig :: "string \<Rightarrow> jval \<Rightarrow> NodeConfig \<Rightarrow> NodeConfig option" where
  "set_NodeConfig key v n =
     (if names key ''ClientPort'' then map_option (\<lambda>i. n\<lparr>cfg_ClientPort := i\<rparr>) (into_int64 (cfg_ClientPort n) v)
      else if names key ''Host'' then map_option (\<lambda>s. n\<lparr>cfg_Host := s\<rparr>) (into_string (cfg_Host n) v)
      else if names key ''Id'' then map_option (\<lambda>i. n\<lparr>cfg_Id := i\<rparr>) (into_uint64 (cfg_Id n) v)
      else if names key ''Port'' then map_option (\<lambda>i. n\<lparr>cfg_Port := i\<rparr>) (into_int64 (cfg_Port n) v)
      else if names key ''PrivateKeyFile'' then
        map_option (\<lambda>s. n\<lparr>cfg_PrivateKeyFile := s\<rparr>) (into_string (cfg_PrivateKeyFile n) v)
      else if names key ''PublicKeyFile'' then
        map_option (\<lambda>s. n\<lparr>cfg_PublicKeyFile := s\<rparr>) (into_string (cfg_PublicKeyFile n) v)
      else if names key ''PassPhraseFile'' then
        map_option (\<lambda>s. n\<lparr>cfg_PassPhraseFile := s\<rparr>) (into_string (cfg_PassPhraseFile n) v)
      else Some n)"

text \<open>A \<open>ClusterConfig\<close> while its slice still shows its capacity.\<close>

record loaded =
  ld_Nodes :: "NodeConfig slice"
  ld_AuthorityKeyFile :: string
  ld_Endpoint :: string

definition zeroLoaded :: loaded where
  "zeroLoaded = \<lparr>ld_Nodes = nilSlice, ld_AuthorityKeyFile = [], ld_Endpoint = []\<rparr>"

definition into_NodeConfig :: "jval \<Rightarrow> NodeConfig \<Rightarrow> NodeConfig option" where
  "into_NodeConfig v n = decode_struct set_NodeConfig n (Some v)"

definition set_ClusterConfig :: "string \<Rightarrow> jval \<Rightarrow> loaded \<Rightarrow> loaded option" where
  "set_ClusterConfig key v c =
     (if names key ''Nodes'' then
        map_option (\<lambda>s. c\<lparr>ld_Nodes := s\<rparr>) (into_slice into_NodeConfig zeroNodeConfig (ld_Nodes c) v)
      else if names key ''AuthorityKeyFile'' then
        map_option (\<lambda>s. c\<lparr>ld_AuthorityKeyFile := s\<rparr>) (into_string (ld_AuthorityKeyFile c) v)
      else if names key ''Endpoint'' then map_option (\<lambda>s. c\<lparr>ld_Endpoint := s\<rparr>) (into_string (ld_Endpoint c) v)
      else Some c)"

definition config_of :: "loaded \<Rightarrow> ClusterConfig" where
  "config_of l = \<lparr>Nodes = elements (ld_Nodes l), AuthorityKeyFile = ld_AuthorityKeyFile l, Endpoint = ld_Endpoint l\<rparr>"

text \<open>Every error ends the process (\<open>logFatal\<close>).\<close>

definition LoadConfig :: "host_env \<Rightarrow> string \<Rightarrow> fault + loaded" where
  "LoadConfig E filename =
     (case env_ReadFile E filename of
        Inl err \<Rightarrow> Inl Fatal
      | Inr configData \<Rightarrow>
          (case decode_struct set_ClusterConfig zeroLoaded (parse_document (bytes_of configData)) of
             None \<Rightarrow> Inl Fatal | Some l \<Rightarrow> Inr l))"

definition LoadConfigSubset :: "host_env \<Rightarrow> string \<Rightarrow> int \<Rightarrow> fault + ClusterConfig" where
  "LoadConfigSubset E filename num =
     (case LoadConfig E filename of
        Inl f \<Rightarrow> Inl f
      | Inr l \<Rightarrow>
          if num < 0 \<or> int (length (sl_array (ld_Nodes l))) < num then Inl IndexOutOfRange
          else Inr ((config_of l)\<lparr>Nodes := take (nat num) (sl_array (ld_Nodes l))\<rparr>))"

section \<open>What is loaded\<close>

text \<open>The members of cluster.json, in its order and with its names.\<close>

definition json_NodeConfig :: "NodeConfig \<Rightarrow> json" where
  "json_NodeConfig n = JObj [(''id'', JInt (int (cfg_Id n))), (''host'', JStr (cfg_Host n)), (''port'', JInt (cfg_Port n)),
     (''clientport'', JInt (cfg_ClientPort n)), (''publickeyfile'', JStr (cfg_PublicKeyFile n)),
     (''privatekeyfile'', JStr (cfg_PrivateKeyFile n)), (''passphrasefile'', JStr (cfg_PassPhraseFile n))]"

definition json_ClusterConfig :: "ClusterConfig \<Rightarrow> json" where
  "json_ClusterConfig cl = JObj [(''endpoint'', JStr (Endpoint cl)), (''authoritykeyfile'', JStr (AuthorityKeyFile cl)),
     (''nodes'', JArr (map json_NodeConfig (Nodes cl)))]"

text \<open>The values a file can hold.\<close>

definition node_writable :: "NodeConfig \<Rightarrow> bool" where
  "node_writable n \<longleftrightarrow> cfg_Id n < 2 ^ 64 \<and> int64 (cfg_Port n) \<and> int64 (cfg_ClientPort n) \<and>
     list_all valid_utf8 [cfg_Host n, cfg_PublicKeyFile n, cfg_PrivateKeyFile n, cfg_PassPhraseFile n]"

definition config_writable :: "ClusterConfig \<Rightarrow> bool" where
  "config_writable cl \<longleftrightarrow> valid_utf8 (Endpoint cl) \<and> valid_utf8 (AuthorityKeyFile cl) \<and> list_all node_writable (Nodes cl)"

lemma field_names:
  "sanitize ''id'' = ''id''" "sanitize ''host'' = ''host''" "sanitize ''port'' = ''port''"
  "sanitize ''clientport'' = ''clientport''" "sanitize ''publickeyfile'' = ''publickeyfile''"
  "sanitize ''privatekeyfile'' = ''privatekeyfile''" "sanitize ''passphrasefile'' = ''passphrasefile''"
  "sanitize ''endpoint'' = ''endpoint''" "sanitize ''authoritykeyfile'' = ''authoritykeyfile''"
  "sanitize ''nodes'' = ''nodes''"
  by (simp_all add: sanitize_ascii)

lemma into_uint64_show: "n < 2 ^ 64 \<Longrightarrow> into_uint64 old (VNum (show_int (int n))) = Some n"
  using show_nat_first [of n] by (auto simp: into_uint64_def show_int_def read_digits_show_nat)

lemma set_NodeConfig_file:
  "set_NodeConfig ''id'' v n = map_option (\<lambda>i. n\<lparr>cfg_Id := i\<rparr>) (into_uint64 (cfg_Id n) v)"
  "set_NodeConfig ''host'' v n = map_option (\<lambda>s. n\<lparr>cfg_Host := s\<rparr>) (into_string (cfg_Host n) v)"
  "set_NodeConfig ''port'' v n = map_option (\<lambda>i. n\<lparr>cfg_Port := i\<rparr>) (into_int64 (cfg_Port n) v)"
  "set_NodeConfig ''clientport'' v n = map_option (\<lambda>i. n\<lparr>cfg_ClientPort := i\<rparr>) (into_int64 (cfg_ClientPort n) v)"
  "set_NodeConfig ''publickeyfile'' v n =
     map_option (\<lambda>s. n\<lparr>cfg_PublicKeyFile := s\<rparr>) (into_string (cfg_PublicKeyFile n) v)"
  "set_NodeConfig ''privatekeyfile'' v n =
     map_option (\<lambda>s. n\<lparr>cfg_PrivateKeyFile := s\<rparr>) (into_string (cfg_PrivateKeyFile n) v)"
  "set_NodeConfig ''passphrasefile'' v n =
     map_option (\<lambda>s. n\<lparr>cfg_PassPhraseFile := s\<rparr>) (into_string (cfg_PassPhraseFile n) v)"
  by (simp_all add: set_NodeConfig_def names_def)

lemma set_ClusterConfig_file:
  "set_ClusterConfig ''endpoint'' v c = map_option (\<lambda>s. c\<lparr>ld_Endpoint := s\<rparr>) (into_string (ld_Endpoint c) v)"
  "set_ClusterConfig ''authoritykeyfile'' v c =
     map_option (\<lambda>s. c\<lparr>ld_AuthorityKeyFile := s\<rparr>) (into_string (ld_AuthorityKeyFile c) v)"
  "set_ClusterConfig ''nodes'' v c =
     map_option (\<lambda>s. c\<lparr>ld_Nodes := s\<rparr>) (into_slice into_NodeConfig zeroNodeConfig (ld_Nodes c) v)"
  by (simp_all add: set_ClusterConfig_def names_def)

lemma node_read: "node_writable n \<Longrightarrow> into_NodeConfig (value_of (json_NodeConfig n)) m = Some n"
  by (simp add: into_NodeConfig_def decode_struct_def json_NodeConfig_def field_names set_NodeConfig_file into_uint64_show
      into_int64_def into_string_def Atoi_show_int node_writable_def valid_utf8_def)

text \<open>The capacity of a slice that was grown for \<open>len\<close> elements.\<close>

function grown :: "nat \<Rightarrow> nat \<Rightarrow> nat" where
  "grown cap len = (if len \<le> cap then cap else grown (max 4 (cap + cap div 2)) len)"
  by pat_completeness auto
termination by (relation "measure (\<lambda>(cap, len). len - cap)") auto

declare grown.simps [simp del]

lemma grown_ge: "len \<le> grown cap len"
  by (induction cap len rule: grown.induct) (subst grown.simps, auto)

lemma grow_step:
  assumes "length ys \<le> cap"
  defines "cap' \<equiv> (if length ys < cap then cap else max 4 (cap + cap div 2))"
  shows "grow zero (length ys) (ys @ replicate (cap - length ys) zero) = ys @ replicate (cap' - length ys) zero"
    "length ys < cap'" "length ys < len \<Longrightarrow> grown cap' len = grown cap len"
proof -
  show "length ys < cap'" using assms(1) by (auto simp: cap'_def)
  show "grow zero (length ys) (ys @ replicate (cap - length ys) zero) = ys @ replicate (cap' - length ys) zero"
    using assms(1) by (auto simp: grow_def Let_def cap'_def)
  show "grown cap' len = grown cap len" if "length ys < len"
    using that assms(1) grown.simps [of cap len] by (auto simp: cap'_def)
qed

lemma into_elements_reads:
  assumes "\<And>x old. x \<in> set xs \<Longrightarrow> assign (f x) old = Some x" "length ys \<le> cap" "ys @ xs \<noteq> []"
  shows "into_elements assign zero (map f xs) (length ys)
      \<lparr>sl_array = ys @ replicate (cap - length ys) zero, sl_len = length ys\<rparr> =
    Some \<lparr>sl_array = ys @ xs @ replicate (grown cap (length (ys @ xs)) - length (ys @ xs)) zero, sl_len = length (ys @ xs)\<rparr>"
  using assms
proof (induction xs arbitrary: ys cap)
  case Nil
  then show ?case by (simp add: grown.simps)
next
  case (Cons x xs)
  define cap' where "cap' = (if length ys < cap then cap else max 4 (cap + cap div 2))"
  note g = grow_step [OF Cons.prems(2), folded cap'_def]
  have upd: "(ys @ replicate (cap' - length ys) zero)[length ys := x] = (ys @ [x]) @ replicate (cap' - length (ys @ [x])) zero"
    using g(2) by (cases "cap' - length ys") (auto simp: list_update_append)
  have "assign (f x) ((ys @ replicate (cap' - length ys) zero) ! length ys) = Some x" using Cons.prems(1) by simp
  then have "into_elements assign zero (map f (x # xs)) (length ys)
      \<lparr>sl_array = ys @ replicate (cap - length ys) zero, sl_len = length ys\<rparr> =
    into_elements assign zero (map f xs) (length (ys @ [x]))
      \<lparr>sl_array = (ys @ [x]) @ replicate (cap' - length (ys @ [x])) zero, sl_len = length (ys @ [x])\<rparr>"
    using upd by (simp add: Let_def g(1))
  also have "\<dots> = Some \<lparr>sl_array = (ys @ [x]) @ xs @ replicate (grown cap' (length ((ys @ [x]) @ xs)) - length ((ys @ [x]) @ xs)) zero,
      sl_len = length ((ys @ [x]) @ xs)\<rparr>"
    using Cons.prems(1) g(2) by (intro Cons.IH) auto
  finally show ?case using g(3) [of "length (ys @ x # xs)"] by simp
qed

lemma into_slice_reads:
  assumes "\<And>x old. x \<in> set xs \<Longrightarrow> assign (f x) old = Some x"
  shows "into_slice assign zero nilSlice (VArr (map f xs)) =
    Some \<lparr>sl_array = xs @ replicate (grown 0 (length xs) - length xs) zero, sl_len = length xs\<rparr>"
proof (cases "xs = []")
  case True
  then show ?thesis by (simp add: into_slice_def nilSlice_def grown.simps)
next
  case False
  with into_elements_reads [of xs assign f "[]" 0 zero] assms show ?thesis
    by (simp add: into_slice_def nilSlice_def)
qed

lemma file_read:
  assumes "env_ReadFile E f = Inr (render (json_ClusterConfig cl))" "config_writable cl"
  shows "LoadConfig E f = Inr \<lparr>ld_Nodes = \<lparr>sl_array = Nodes cl @ replicate (grown 0 (length (Nodes cl)) - length (Nodes cl)) zeroNodeConfig,
      sl_len = length (Nodes cl)\<rparr>, ld_AuthorityKeyFile = AuthorityKeyFile cl, ld_Endpoint = Endpoint cl\<rparr>"
proof -
  have "into_slice into_NodeConfig zeroNodeConfig nilSlice (VArr (map (\<lambda>n. value_of (json_NodeConfig n)) (Nodes cl))) =
      Some \<lparr>sl_array = Nodes cl @ replicate (grown 0 (length (Nodes cl)) - length (Nodes cl)) zeroNodeConfig,
        sl_len = length (Nodes cl)\<rparr>"
    by (rule into_slice_reads) (use assms(2) in \<open>auto simp: config_writable_def list_all_iff intro: node_read\<close>)
  moreover have "parse_document (bytes_of (render (json_ClusterConfig cl))) = Some (value_of (json_ClusterConfig cl))"
    using parse_Marshal by (simp add: json_Marshal_def)
  ultimately show ?thesis
    using assms by (simp add: LoadConfig_def decode_struct_def json_ClusterConfig_def field_names set_ClusterConfig_file
        into_string_def zeroLoaded_def config_writable_def valid_utf8_def comp_def)
qed

lemma subset_read:
  assumes "env_ReadFile E f = Inr (render (json_ClusterConfig cl))" "config_writable cl"
  shows "LoadConfigSubset E f num =
    (if num < 0 \<or> int (grown 0 (length (Nodes cl))) < num then Inl IndexOutOfRange
     else Inr (cl\<lparr>Nodes := take (nat num) (Nodes cl) @ replicate (nat num - length (Nodes cl)) zeroNodeConfig\<rparr>))"
  using grown_ge [of "length (Nodes cl)" 0]
  by (auto simp: file_read [OF assms] LoadConfigSubset_def config_of_def take_replicate min_def)

text \<open>C33: A file with the members of cluster.json, in its order and with its names, is loaded to exactly the
  values it holds (numbers that fit their types, strings of valid UTF-8), any number of nodes;
  a subset of it is its first nodes. A subset that is larger than the cluster is refused only
  beyond the capacity that the decoder gave the slice; up to it there are zero nodes.\<close>

theorem config_file_is_read:
  assumes "env_ReadFile E f = Inr (render (json_ClusterConfig cl))" "config_writable cl"
  shows "map_sum id config_of (LoadConfig E f) = Inr cl \<and>
    LoadConfigSubset E f num =
      (if num < 0 \<or> int (grown 0 (length (Nodes cl))) < num then Inl IndexOutOfRange
       else Inr (cl\<lparr>Nodes := take (nat num) (Nodes cl) @ replicate (nat num - length (Nodes cl)) zeroNodeConfig\<rparr>))"
  by (simp add: file_read [OF assms] subset_read [OF assms] config_of_def elements_def)

lemma localCluster_writable: "num < 1000 \<Longrightarrow> config_writable (localCluster num)"
proof -
  assume "num < 1000"
  have "(of_char c :: nat) < 128" if "c \<in> set (show_nat i)" for c i
  proof -
    from show_nat_digits [of i] that have "is_digit c" by blast
    then show ?thesis by (auto simp: is_digit_def digit_of_def split: if_splits)
  qed
  with \<open>num < 1000\<close> show ?thesis
    by (auto simp: config_writable_def list_all_iff node_writable_def localCluster_def localNode_def int64_def maxInt64_def
        intro!: valid_append valid_ascii)
qed

end
