(* ===== verification/Flags.thy ===== *)
theory Flags
  imports Json_Roundtrip
begin

text \<open>
  The flags of src/distributepki/main.go and \<open>flag.Parse\<close> of the standard library on them (the
  library of the repository's time): the program is started with them, and starts the
  processes of a cluster with them.
\<close>

section \<open>The flags\<close>

record flags =
  fl_config :: string
  fl_cluster :: bool
  fl_num :: int
  fl_debug :: bool
  fl_id :: int
  fl_keys :: string

definition default_flags :: flags where
  "default_flags = \<lparr>fl_config = ''cluster.json'', fl_cluster = False, fl_num = 0, fl_debug = False, fl_id = 1,
     fl_keys = ''keys.json''\<rparr>"

section \<open>Values\<close>

text \<open>\<open>strconv.ParseInt\<close> with base 0: \<open>0x\<close> is hexadecimal, another leading zero octal.\<close>

definition digit_value :: "char \<Rightarrow> nat option" where
  "digit_value c =
     (let b = of_char c :: nat
      in if 48 \<le> b \<and> b \<le> 57 then Some (b - 48)
         else if 97 \<le> b \<and> b \<le> 122 then Some (b - 87)
         else if 65 \<le> b \<and> b \<le> 90 then Some (b - 55)
         else None)"

fun read_base :: "nat \<Rightarrow> nat \<Rightarrow> string \<Rightarrow> nat option" where
  "read_base base acc [] = Some acc"
| "read_base base acc (c # cs) =
     (case digit_value c of
        None \<Rightarrow> None
      | Some d \<Rightarrow> if d < base then read_base base (base * acc + d) cs else None)"

definition ParseUint :: "string \<Rightarrow> nat option" where
  "ParseUint s =
     (case s of
        [] \<Rightarrow> None
      | c # cs \<Rightarrow>
          if c = CHR ''0'' then
            (case cs of
               x # ds \<Rightarrow> if x = CHR ''x'' \<or> x = CHR ''X'' then if ds = [] then None else read_base 16 0 ds
                 else read_base 8 0 cs
             | [] \<Rightarrow> Some 0)
          else read_base 10 0 s)"

definition ParseInt :: "string \<Rightarrow> int option" where
  "ParseInt s =
     (let neg = (take 1 s = ''-'');
          body = (if neg \<or> take 1 s = ''+'' then tl s else s)
      in case ParseUint body of
           None \<Rightarrow> None
         | Some u \<Rightarrow> let i = (if neg then - int u else int u) in if int64 i then Some i else None)"

definition ParseBool :: "string \<Rightarrow> bool option" where
  "ParseBool s =
     (if s \<in> {''1'', ''t'', ''T'', ''true'', ''TRUE'', ''True''} then Some True
      else if s \<in> {''0'', ''f'', ''F'', ''false'', ''FALSE'', ''False''} then Some False
      else None)"

text \<open>\<open>None\<close>: there is no such flag, or it does not take the value.\<close>

definition set_flag :: "string \<Rightarrow> string \<Rightarrow> flags \<Rightarrow> flags option" where
  "set_flag name v fl =
     (if name = ''config'' then Some (fl\<lparr>fl_config := v\<rparr>)
      else if name = ''cluster'' then map_option (\<lambda>b. fl\<lparr>fl_cluster := b\<rparr>) (ParseBool v)
      else if name = ''num'' then map_option (\<lambda>i. fl\<lparr>fl_num := i\<rparr>) (ParseInt v)
      else if name = ''debug'' then map_option (\<lambda>b. fl\<lparr>fl_debug := b\<rparr>) (ParseBool v)
      else if name = ''id'' then map_option (\<lambda>i. fl\<lparr>fl_id := i\<rparr>) (ParseInt v)
      else if name = ''keys'' then Some (fl\<lparr>fl_keys := v\<rparr>)
      else None)"

definition isBoolFlag :: "string \<Rightarrow> bool" where
  "isBoolFlag name \<longleftrightarrow> name = ''cluster'' \<or> name = ''debug''"

section \<open>The command line\<close>

text \<open>
  One or two dashes, the name, and the value after \<open>=\<close> or, for a flag that is not boolean, in the
  next argument. The first other argument, or \<open>--\<close>, ends the flags. \<open>None\<close>: the program prints the
  usage and exits.
\<close>

fun parse_flags :: "string list \<Rightarrow> flags \<Rightarrow> flags option" where
  "parse_flags [] fl = Some fl"
| "parse_flags (s # args) fl =
     (if length s < 2 \<or> hd s \<noteq> CHR ''-'' \<or> s = ''--'' then Some fl
      else
        let name = (if s ! 1 = CHR ''-'' then drop 2 s else drop 1 s)
        in if hd name = CHR ''-'' \<or> hd name = CHR ''='' then None
        else
          let hasValue = (CHR ''='' \<in> set name);
              v = tl (dropWhile (\<lambda>c. c \<noteq> CHR ''='') name);
              name = takeWhile (\<lambda>c. c \<noteq> CHR ''='') name
          in if isBoolFlag name then
               (case set_flag name (if hasValue then v else ''true'') fl of
                  None \<Rightarrow> None | Some fl \<Rightarrow> parse_flags args fl)
             else if hasValue then
               (case set_flag name v fl of None \<Rightarrow> None | Some fl \<Rightarrow> parse_flags args fl)
             else
               (case args of
                  [] \<Rightarrow> None
                | v # rest \<Rightarrow> (case set_flag name v fl of None \<Rightarrow> None | Some fl \<Rightarrow> parse_flags rest fl)))"

section \<open>Numbers that were printed\<close>

lemma read_base_ten: "read_digits acc s = Some n \<Longrightarrow> read_base 10 acc s = Some n"
proof (induction acc s rule: read_digits.induct)
  case (2 acc c cs)
  then obtain d where d: "digit_of c = Some d" and r: "read_digits (10 * acc + d) cs = Some n"
    by (auto split: option.splits)
  from d have "digit_value c = Some d" "d < 10"
    by (auto simp: digit_of_def digit_value_def Let_def split: if_splits)
  with 2(1) [OF d r] show ?case by simp
qed simp

lemma ParseInt_show_nat:
  assumes "int64 (int n)"
  shows "ParseInt (show_nat n) = Some (int n)"
proof -
  obtain c cs where s: "show_nat n = c # cs" and z: "c = CHR ''0'' \<longrightarrow> n = 0 \<and> cs = []"
    using show_nat_shape by blast
  have "digit_of c \<noteq> None" using show_nat_first [of n] s by auto
  then have "c \<noteq> CHR ''-''" "c \<noteq> CHR ''+''" using sign_no_digit by auto
  moreover have "ParseUint (show_nat n) = Some n"
    using z read_base_ten [OF read_digits_show_nat [of n]] by (auto simp: ParseUint_def s)
  ultimately show ?thesis using assms by (simp add: ParseInt_def Let_def s)
qed

text \<open>The flags \<open>-id\<close> and \<open>-num\<close>, each with its value as the next argument.\<close>

lemma parse_id: "int64 (int i) \<Longrightarrow> parse_flags (''-id'' # show_nat i # args) fl = parse_flags args (fl\<lparr>fl_id := int i\<rparr>)"
  by (simp add: isBoolFlag_def set_flag_def ParseInt_show_nat)

lemma parse_num: "int64 (int i) \<Longrightarrow> parse_flags (''-num'' # show_nat i # args) fl = parse_flags args (fl\<lparr>fl_num := int i\<rparr>)"
  by (simp add: isBoolFlag_def set_flag_def ParseInt_show_nat)

lemma flags_read:
  "parse_flags [''-cluster'', ''--num=4'', ''-config'', ''a.json'', ''--'', ''-id''] default_flags =
     Some (default_flags\<lparr>fl_cluster := True, fl_num := 4, fl_config := ''a.json''\<rparr>)"
  "parse_flags [''-num'', ''0x10'', ''-id=-017'', ''rest'', ''-cluster''] default_flags =
     Some (default_flags\<lparr>fl_num := 16, fl_id := -15\<rparr>)"
  "parse_flags [''-num=08''] default_flags = None" "parse_flags [''-nodes'', ''3''] default_flags = None"
  "parse_flags [''-cluster'', ''false''] default_flags = Some (default_flags\<lparr>fl_cluster := True\<rparr>)"
  by (simp_all add: isBoolFlag_def set_flag_def ParseInt_def ParseUint_def ParseBool_def digit_value_def
      default_flags_def int64_def maxInt64_def)

end
