(* ===== verification/Startup.thy ===== *)
theory Startup
  imports Tools Config_File Flags
begin

text \<open>
  src/distributepki/main.go: what the program does with its flags. It starts the processes of a
  cluster, the debugging prompt, or one node.
\<close>

section \<open>One node\<close>

text \<open>The initial table is empty: the code that fills it is commented out.\<close>

definition LoadInitialKeys :: "(string, string) gomap" where
  "LoadInitialKeys = []"

text \<open>The last node with the given number is started.\<close>

definition selectNode :: "NodeId \<Rightarrow> ClusterConfig \<Rightarrow> NodeConfig" where
  "selectNode i clusterc = fold (\<lambda>n thisNode. if cfg_Id n = i then n else thisNode) (Nodes clusterc) zeroNodeConfig"

text \<open>A server that runs: the address of its HTTP server, the authority's keys, the replica and the key node.\<close>

type_synonym serving = "string \<times> entity list \<times> PBFTNode \<times> KeyNode"

text \<open>\<open>ListenAndServe\<close> returns only with an error, and any error ends the process.\<close>

definition StartClientServer :: "host_env \<Rightarrow> int \<Rightarrow> entity list \<times> PBFTNode \<times> KeyNode \<Rightarrow> fault + serving" where
  "StartClientServer E httpPort kn = (if Listen E httpPort then Inr (GetHostname [] httpPort, kn) else Inl Fatal)"

definition main_StartNode ::
  "host_env \<Rightarrow> NodeId \<Rightarrow> (string, string) gomap \<Rightarrow> ClusterConfig \<Rightarrow> fault + serving" where
  "main_StartNode E i initialKeyTable clusterc =
     (let thisNode = selectNode i clusterc
      in case SpawnKeyNode E thisNode clusterc (NewKeystore initialKeyTable) of
           Inl f \<Rightarrow> Inl f
         | Inr None \<Rightarrow> Inl Fatal
         | Inr (Some kn) \<Rightarrow> StartClientServer E (cfg_ClientPort thisNode) kn)"

section \<open>A cluster\<close>

datatype child =
    Started "string list"
  | Killed "string list"

definition node_command :: "ClusterConfig \<Rightarrow> NodeConfig \<Rightarrow> string list" where
  "node_command clusterc n =
     [''./distributepki'', ''-id'', show_nat (cfg_Id n), ''-num'', show_nat (length (Nodes clusterc))]"

text \<open>
  \<open>spawns k\<close> tells whether the \<open>k\<close>-th process can be started; one that cannot ends the program.
  Otherwise the program waits for an interrupt (or \<open>shutdown\<close>) and kills what it started.
\<close>

fun start_processes :: "(nat \<Rightarrow> bool) \<Rightarrow> ClusterConfig \<Rightarrow> nat \<Rightarrow> NodeConfig list \<Rightarrow> string list list \<times> bool" where
  "start_processes spawns clusterc k [] = ([], True)"
| "start_processes spawns clusterc k (n # ns) =
     (if spawns k then
        (let (cmds, ok) = start_processes spawns clusterc (k + 1) ns in (node_command clusterc n # cmds, ok))
      else ([], False))"

definition StartCluster :: "(nat \<Rightarrow> bool) \<Rightarrow> ClusterConfig \<Rightarrow> child list \<times> fault option" where
  "StartCluster spawns clusterc =
     (case start_processes spawns clusterc 0 (Nodes clusterc) of
        (nodeProcesses, ok) \<Rightarrow>
          if ok then (map Started nodeProcesses @ map Killed nodeProcesses, None)
          else (map Started nodeProcesses, Some Fatal))"

section \<open>The program\<close>

text \<open>\<open>-debug\<close> of a cluster has no effect.\<close>

datatype program =
    RunCluster ClusterConfig
  | RunDebugRepl ClusterConfig
  | RunNode serving

definition main_config :: "host_env \<Rightarrow> flags \<Rightarrow> fault + ClusterConfig" where
  "main_config E fl =
     (if fl_num fl = 0 then map_sum id config_of (LoadConfig E (fl_config fl))
      else LoadConfigSubset E (fl_config fl) (fl_num fl))"

definition main :: "host_env \<Rightarrow> flags \<Rightarrow> fault + program" where
  "main E fl =
     (case main_config E fl of
        Inl f \<Rightarrow> Inl f
      | Inr conf \<Rightarrow>
          if fl_cluster fl then Inr (RunCluster conf)
          else if fl_debug fl then Inr (RunDebugRepl conf)
          else map_sum id RunNode (main_StartNode E (to_NodeId (fl_id fl)) LoadInitialKeys conf))"

section \<open>What is started\<close>

lemma start_processes_all:
  "start_processes spawns cl k ns = (map (node_command cl) (take j ns), j = length ns)"
  if "\<forall>i<j. spawns (k + i)" "j = length ns \<or> j < length ns \<and> \<not> spawns (k + j)" for j
  using that
proof (induction ns arbitrary: k j)
  case (Cons n ns)
  show ?case
  proof (cases j)
    case 0
    with Cons.prems(2) show ?thesis by simp
  next
    case (Suc j')
    have "\<forall>i<j'. spawns (Suc k + i)"
    proof (intro allI impI)
      fix i assume "i < j'"
      with Cons.prems(1) Suc have "spawns (k + Suc i)" by (metis Suc_mono)
      then show "spawns (Suc k + i)" by simp
    qed
    moreover have "j' = length ns \<or> j' < length ns \<and> \<not> spawns (Suc k + j')" using Cons.prems(2) Suc by auto
    ultimately have "start_processes spawns cl (Suc k) ns = (map (node_command cl) (take j' ns), j' = length ns)"
      by (rule Cons.IH)
    moreover have "spawns k" using Cons.prems(1) Suc by (metis add.right_neutral zero_less_Suc)
    ultimately show ?thesis using Suc by simp
  qed
qed simp

text \<open>The flags of the command that is run for a node, read back.\<close>

lemma command_flags:
  assumes "int64 (int (cfg_Id n))" "int64 (int (length (Nodes cl)))"
  shows "parse_flags (tl (node_command cl n)) default_flags =
    Some (default_flags\<lparr>fl_id := int (cfg_Id n), fl_num := int (length (Nodes cl))\<rparr>)"
  using parse_id [OF assms(1)] parse_num [OF assms(2)] by (simp only: node_command_def list.sel parse_flags.simps(1))

lemma selectNode_last:
  "selectNode i cl = (case filter (\<lambda>n. cfg_Id n = i) (Nodes cl) of [] \<Rightarrow> zeroNodeConfig | ns \<Rightarrow> last ns)"
proof -
  have "fold (\<lambda>n t. if cfg_Id n = i then n else t) ns z =
      (case filter (\<lambda>n. cfg_Id n = i) ns of [] \<Rightarrow> z | ms \<Rightarrow> last ms)" for ns z
    by (induction ns arbitrary: z) (auto split: list.splits)
  then show ?thesis by (simp only: selectNode_def)
qed

lemma selectNode_nth:
  assumes "distinct (map cfg_Id (Nodes cl))" "i < length (Nodes cl)"
  shows "selectNode (cfg_Id (Nodes cl ! i)) cl = Nodes cl ! i"
proof -
  have "distinct (map cfg_Id ns) \<Longrightarrow> n \<in> set ns \<Longrightarrow> filter (\<lambda>m. cfg_Id m = cfg_Id n) ns = [n]" for n ns
    by (induction ns) (auto simp: filter_empty_conv image_iff)
  from this [OF assms(1) nth_mem [OF assms(2)]] show ?thesis by (simp add: selectNode_last)
qed

lemma started_process:
  assumes "\<forall>j\<le>i. spawns j" "i < length (Nodes cl)"
  shows "fst (StartCluster spawns cl) ! i = Started (node_command cl (Nodes cl ! i))"
proof -
  define j where "j = (LEAST j. j = length (Nodes cl) \<or> j < length (Nodes cl) \<and> \<not> spawns j)"
  have j: "j = length (Nodes cl) \<or> j < length (Nodes cl) \<and> \<not> spawns j"
    unfolding j_def by (rule LeastI [of _ "length (Nodes cl)"]) simp
  have "spawns k" if "k < j" for k
    using not_less_Least [OF that [unfolded j_def]] j that by auto
  then have "start_processes spawns cl 0 (Nodes cl) = (map (node_command cl) (take j (Nodes cl)), j = length (Nodes cl))"
    using start_processes_all [of j spawns 0 "Nodes cl" cl] j by simp
  moreover have "i < j" using j assms by (auto simp: not_less intro: ccontr)
  ultimately show ?thesis using assms(2) by (auto simp: StartCluster_def nth_append)
qed

text \<open>The configuration of a cluster read from cluster.json is what its number of nodes selects.\<close>

lemma subset_of_cluster:
  assumes "main E fl = Inr (RunCluster cl)" "fl_config fl = ''cluster.json''"
  shows "LoadConfigSubset E ''cluster.json'' (int (length (Nodes cl))) = Inr cl"
proof -
  have conf: "main_config E fl = Inr cl"
    using assms(1) by (auto simp: main_def split: sum.splits if_splits) (metis map_sum.simps obj_sumE sum.distinct(1) sum.inject(2) program.distinct(3))+
  with assms(2) obtain l where l: "LoadConfig E ''cluster.json'' = Inr l"
    by (cases "LoadConfig E ''cluster.json''") (auto simp: main_config_def LoadConfigSubset_def split: if_splits)
  let ?arr = "sl_array (ld_Nodes l)"
  have "\<exists>k \<le> length ?arr. cl = (config_of l)\<lparr>Nodes := take k ?arr\<rparr>"
  proof (cases "fl_num fl = 0")
    case True
    then have "cl = config_of l" using conf l assms(2) by (simp add: main_config_def)
    then show ?thesis
      by (intro exI [of _ "min (length ?arr) (sl_len (ld_Nodes l))"])
        (simp add: config_of_def elements_def min_def)
  next
    case False
    then show ?thesis using conf l assms(2)
      by (intro exI [of _ "nat (fl_num fl)"])
        (auto simp: main_config_def LoadConfigSubset_def not_less split: if_splits)
  qed
  then show ?thesis by (auto simp: LoadConfigSubset_def l)
qed

text \<open>C32: When the program is run for a cluster from cluster.json, whole or its first nodes, whose
  nodes have different numbers, then the \<open>i\<close>-th process it starts is given arguments that are
  flags, and with these flags the program selects exactly the \<open>i\<close>-th node and runs it among
  the same nodes. (Numbers are 64-bit, and the processes up to the \<open>i\<close>-th can be started. The flag
  that names another configuration file is not passed on.)\<close>

theorem cluster_starts_its_nodes:
  assumes "parse_flags args0 default_flags = Some fl" "main E fl = Inr (RunCluster cl)" "fl_config fl = ''cluster.json''"
    "distinct (map cfg_Id (Nodes cl))" "i < length (Nodes cl)" "\<forall>j\<le>i. spawns j"
    "int64 (int (cfg_Id (Nodes cl ! i)))" "int64 (int (length (Nodes cl)))"
  shows "\<exists>args fl'. fst (StartCluster spawns cl) ! i = Started (''./distributepki'' # args) \<and>
    parse_flags args default_flags = Some fl' \<and> selectNode (cfg_Id (Nodes cl ! i)) cl = Nodes cl ! i \<and>
    main E fl' = map_sum id RunNode (main_StartNode E (cfg_Id (Nodes cl ! i)) LoadInitialKeys cl)"
proof -
  let ?n = "Nodes cl ! i" and ?fl = "default_flags\<lparr>fl_id := int (cfg_Id (Nodes cl ! i)), fl_num := int (length (Nodes cl))\<rparr>"
  have "node_command cl ?n = ''./distributepki'' # tl (node_command cl ?n)" by (simp add: node_command_def)
  with started_process [OF assms(6,5)]
  have "fst (StartCluster spawns cl) ! i = Started (''./distributepki'' # tl (node_command cl ?n))" by metis
  moreover have "main E ?fl = map_sum id RunNode (main_StartNode E (cfg_Id ?n) LoadInitialKeys cl)"
  proof -
    have "to_NodeId (int (cfg_Id ?n)) = cfg_Id ?n" using assms(7) by (simp add: to_NodeId_def int64_def maxInt64_def)
    moreover have "length (Nodes cl) \<noteq> 0" using assms(5) by auto
    ultimately show ?thesis using subset_of_cluster [OF assms(2,3)] by (simp add: main_def main_config_def default_flags_def)
  qed
  ultimately show ?thesis using command_flags [OF assms(7,8)] selectNode_nth [OF assms(4,5)] by blast
qed

text \<open>The files of the local cluster of five nodes.\<close>

definition exFiles :: host_env where
  "exFiles = exEnv\<lparr>env_ReadFile := (\<lambda>f. if f = ''cluster.json'' then Inr (render (json_ClusterConfig (localCluster 5)))
     else Inr '' secret '')\<rparr>"

lemma exFiles_cluster: "env_ReadFile exFiles ''cluster.json'' = Inr (render (json_ClusterConfig (localCluster 5)))"
  by (simp add: exFiles_def)

lemma local_5: "Nodes (localCluster 5) = map localNode [1, 2, 3, 4, 5]"
  by (simp add: localCluster_def upt_conv_Cons numeral_eq_Suc)

lemma grown_5: "grown 0 5 = 6"
  by (simp add: grown.simps)

lemma config_file_is_read_witness:
  "map_sum id config_of (LoadConfig exFiles ''cluster.json'') = Inr (localCluster 5) \<and>
    LoadConfigSubset exFiles ''cluster.json'' 4 =
      (if (4 :: int) < 0 \<or> int (grown 0 (length (Nodes (localCluster 5)))) < 4 then Inl IndexOutOfRange
       else Inr ((localCluster 5)\<lparr>Nodes := take (nat 4) (Nodes (localCluster 5)) @
         replicate (nat 4 - length (Nodes (localCluster 5))) zeroNodeConfig\<rparr>))"
  by (rule config_file_is_read [OF exFiles_cluster localCluster_writable]) simp

lemma exFiles_subset:
  "LoadConfigSubset exFiles ''cluster.json'' num =
    (if num < 0 \<or> 6 < num then Inl IndexOutOfRange
     else Inr ((localCluster 5)\<lparr>Nodes := take (nat num) (Nodes (localCluster 5)) @ replicate (nat num - 5) zeroNodeConfig\<rparr>))"
proof -
  have "config_writable (localCluster 5)" by (rule localCluster_writable) simp
  moreover have "length (Nodes (localCluster 5)) = 5" by (simp add: localCluster_def)
  ultimately show ?thesis using subset_read [OF exFiles_cluster] by (simp only: grown_5 of_nat_numeral)
qed

text \<open>The program run for the first four nodes of cluster.json, and its second process.\<close>

lemma cluster_starts_its_nodes_witness:
  "\<exists>args fl'. fst (StartCluster (\<lambda>_. True) (localCluster 4)) ! 1 = Started (''./distributepki'' # args) \<and>
    parse_flags args default_flags = Some fl' \<and>
    selectNode (cfg_Id (Nodes (localCluster 4) ! 1)) (localCluster 4) = Nodes (localCluster 4) ! 1 \<and>
    main exFiles fl' =
      map_sum id RunNode (main_StartNode exFiles (cfg_Id (Nodes (localCluster 4) ! 1)) LoadInitialKeys (localCluster 4))"
proof (rule cluster_starts_its_nodes)
  show "parse_flags [''-cluster'', ''-num'', ''4''] default_flags = Some (default_flags\<lparr>fl_cluster := True, fl_num := 4\<rparr>)"
    by (simp add: isBoolFlag_def set_flag_def ParseInt_def ParseUint_def ParseBool_def digit_value_def
      int64_def maxInt64_def)
  have "LoadConfigSubset exFiles ''cluster.json'' 4 = Inr (localCluster 4)"
    by (simp add: exFiles_subset local_5) (simp add: localCluster_def upt_conv_Cons numeral_eq_Suc)
  then show "main exFiles (default_flags\<lparr>fl_cluster := True, fl_num := 4\<rparr>) = Inr (RunCluster (localCluster 4))"
    by (simp add: main_def main_config_def default_flags_def)
qed (simp_all add: nodes_4 localNode_def default_flags_def int64_def maxInt64_def)

text \<open>A subset larger than the cluster is not always refused: with the six nodes that the
  slice of the five nodes of cluster.json has room for, the last one is the zero node.\<close>

theorem subset_of_six:
  "\<exists>c. LoadConfigSubset exFiles ''cluster.json'' 6 = Inr c \<and> length (Nodes c) = 6 \<and> last (Nodes c) = zeroNodeConfig \<and>
     LoadConfigSubset exFiles ''cluster.json'' 7 = Inl IndexOutOfRange"
  by (simp add: exFiles_subset local_5)

text \<open>A cluster that starts is killed as a whole; when a process cannot be started, those before it go
  on without the program.\<close>

theorem failed_start_leaves_processes:
  assumes "\<forall>i<j. spawns i" "j < length (Nodes cl)" "\<not> spawns j"
  shows "StartCluster spawns cl = (map (Started \<circ> node_command cl) (take j (Nodes cl)), Some Fatal)"
  using start_processes_all [of j spawns 0 "Nodes cl" cl] assms by (simp add: StartCluster_def)

theorem cluster_is_killed:
  assumes "\<forall>i<length (Nodes cl). spawns i"
  shows "StartCluster spawns cl = (map (Started \<circ> node_command cl) (Nodes cl) @ map (Killed \<circ> node_command cl) (Nodes cl), None)"
  using start_processes_all [of "length (Nodes cl)" spawns 0 "Nodes cl" cl] assms by (simp add: StartCluster_def)

end
